theory Spec2Isabelle
  imports Complex_Main
begin

section \<open>The AST of lib/AST/ASTNodes.cpp\<close>

text \<open>
  The expression classes of klang, one constructor per class, each owning its children.
  A \<open>double\<close> literal is a \<^typ>\<open>real\<close>; the only arithmetic evaluated below is on
  small whole numbers, on which the two agree. An absent step or initializer (a null
  \<open>ExprAST*\<close>) is \<open>None\<close>.
\<close>

datatype ExprAST =
    NumberExprAST real
  | VariableExprAST string
  | UnaryExprAST char ExprAST
  | BinaryExprAST char ExprAST ExprAST
  | CallExprAST string "ExprAST list"
  | IfExprAST ExprAST ExprAST ExprAST
  | ForExprAST string ExprAST ExprAST "ExprAST option" ExprAST
  | VarExprAST "(string \<times> ExprAST option) list" ExprAST

text \<open>
  Modelled from the spec: the declaration of class PrototypeAST is in
  klang/AST/ASTNodes.h, which is not among the sources. A prototype is a name, the
  ordered parameter names and an operator role (none, unary, or binary with its
  precedence). The operator symbol of an operator prototype is the last character of
  its name, the one that BinaryExprAST::Codegen appends to \<open>binary\<close>.
\<close>

datatype OperatorRole = NoOperator | UnaryOperator | BinaryOperator int

record PrototypeAST =
  ProtoName :: string
  ProtoArgs :: "string list"
  Role :: OperatorRole

definition isBinaryOp :: "PrototypeAST \<Rightarrow> bool" where
  "isBinaryOp p = (case Role p of BinaryOperator _ \<Rightarrow> True | _ \<Rightarrow> False)"

definition getBinaryPrecedence :: "PrototypeAST \<Rightarrow> int" where
  "getBinaryPrecedence p = (case Role p of BinaryOperator n \<Rightarrow> n | _ \<Rightarrow> 0)"

definition getOperatorName :: "PrototypeAST \<Rightarrow> char" where
  "getOperatorName p = last (ProtoName p)"

record FunctionAST =
  Proto :: PrototypeAST
  FnBody :: ExprAST

section \<open>The IR that the builder emits\<close>

text \<open>
  The LLVM objects the code holds pointers to are identified by numbers drawn from one
  counter: an instruction (and so an \<open>AllocaInst\<close>) and a basic block by a \<^typ>\<open>nat\<close>.
  A function of the module is identified by its name; a function created with the empty
  name is not entered in the module's symbol table, so it gets a number instead.
\<close>

datatype fref = Named string | Anon nat

datatype Value = ConstantFP real | InstV nat | ArgV nat

datatype instr =
    Alloca nat string
  | Load nat nat string
  | Store Value nat
  | FAdd nat Value Value
  | FSub nat Value Value
  | FMul nat Value Value
  | FCmpULT nat Value Value
  | FCmpONE nat Value Value
  | UIToFP nat Value
  | Call nat fref "Value list"
  | Br nat
  | CondBr Value nat nat
  | PHI nat "(Value \<times> nat) list"
  | Ret Value

record BasicBlock =
  bb_id :: nat
  bb_name :: string
  bb_insts :: "instr list"

record func =
  arg_size :: nat
  arg_names :: "string list"
  blocks :: "BasicBlock list"

text \<open>
  A call of \<open>Codegen\<close> returns a pointer that is null on failure; the assertion in
  BinaryExprAST::Codegen stops the process instead. The three outcomes:
\<close>

datatype 'a result = Ok 'a | Null | Abort

section \<open>The global state of the code generator\<close>

text \<open>
  The globals of tools/driver/Driver.cpp. \<open>NamedValues\<close> is a
  \<open>std::map<std::string, AllocaInst*>\<close>: a name has no entry (\<open>None\<close>), an entry
  holding the null pointer (\<open>Some None\<close>), or an entry holding an alloca
  (\<open>Some (Some a)\<close>). \<open>InsertBlock\<close> is the builder's insertion point, a block with
  its parent function. \<open>errs\<close> collects the messages that \<open>Error\<close> of
  lib/Driver/Utils.cpp prints on stderr.
\<close>

record cg_state =
  NamedValues :: "string \<rightharpoonup> nat option"
  TheModule :: "fref \<rightharpoonup> func"
  BinopPrecedence :: "char \<rightharpoonup> int"
  InsertBlock :: "(fref \<times> nat) option"
  next_id :: nat
  errs :: "string list"

definition fresh :: "cg_state \<Rightarrow> nat \<times> cg_state" where
  "fresh s = (next_id s, s\<lparr>next_id := next_id s + 1\<rparr>)"

definition ErrorV :: "string \<Rightarrow> cg_state \<Rightarrow> 'a result \<times> cg_state" where
  "ErrorV Str s = (Null, s\<lparr>errs := errs s @ [Str]\<rparr>)"

text \<open>\<open>NamedValues[n]\<close> read: \<open>operator[]\<close> enters a null pointer for a missing key.\<close>

definition NamedValues_at :: "string \<Rightarrow> cg_state \<Rightarrow> nat option \<times> cg_state" where
  "NamedValues_at n s =
     (case NamedValues s n of
        None \<Rightarrow> (None, s\<lparr>NamedValues := (NamedValues s)(n \<mapsto> None)\<rparr>)
      | Some p \<Rightarrow> (p, s))"

text \<open>\<open>NamedValues[n] = p\<close>.\<close>

definition NamedValues_set :: "string \<Rightarrow> nat option \<Rightarrow> cg_state \<Rightarrow> cg_state" where
  "NamedValues_set n p s = s\<lparr>NamedValues := (NamedValues s)(n \<mapsto> p)\<rparr>"

definition NamedValues_erase :: "string \<Rightarrow> cg_state \<Rightarrow> cg_state" where
  "NamedValues_erase n s = s\<lparr>NamedValues := (NamedValues s)(n := None)\<rparr>"

text \<open>
  What the spec calls \<open>resolve\<close>: the alloca a name is bound to, if any. Every lookup in
  the source reads \<open>NamedValues[n]\<close> and tests the pointer against null.
\<close>

definition resolve :: "cg_state \<Rightarrow> string \<Rightarrow> nat option" where
  "resolve s n = (case NamedValues s n of Some (Some a) \<Rightarrow> Some a | _ \<Rightarrow> None)"

text \<open>\<open>TheModule->getFunction(n)\<close>: the symbol table holds named functions only.\<close>

definition getFunction :: "cg_state \<Rightarrow> string \<Rightarrow> fref option" where
  "getFunction s n =
     (if n = [] then None
      else case TheModule s (Named n) of None \<Rightarrow> None | Some _ \<Rightarrow> Some (Named n))"

definition upd_func :: "fref \<Rightarrow> (func \<Rightarrow> func) \<Rightarrow> cg_state \<Rightarrow> cg_state" where
  "upd_func F g s = s\<lparr>TheModule := (TheModule s)(F := map_option g (TheModule s F))\<rparr>"

definition append_inst :: "nat \<Rightarrow> instr \<Rightarrow> BasicBlock \<Rightarrow> BasicBlock" where
  "append_inst b i B = (if bb_id B = b then B\<lparr>bb_insts := bb_insts B @ [i]\<rparr> else B)"

text \<open>The builder inserts an instruction at the end of the block it points to.\<close>

definition emit :: "instr \<Rightarrow> cg_state \<Rightarrow> cg_state" where
  "emit i s =
     (case InsertBlock s of
        None \<Rightarrow> s
      | Some (F, b) \<Rightarrow> upd_func F (\<lambda>fn. fn\<lparr>blocks := map (append_inst b i) (blocks fn)\<rparr>) s)"

definition getParent :: "cg_state \<Rightarrow> fref option" where
  "getParent s = map_option fst (InsertBlock s)"

text \<open>
  \<open>Builder.SetInsertPoint(BB)\<close>; a block is known here by its number, so its parent
  function is passed along.
\<close>

definition SetInsertPoint :: "fref option \<Rightarrow> nat \<Rightarrow> cg_state \<Rightarrow> cg_state" where
  "SetInsertPoint TheFunction BB s = s\<lparr>InsertBlock := map_option (\<lambda>F. (F, BB)) TheFunction\<rparr>"

definition GetInsertBlock :: "cg_state \<Rightarrow> nat" where
  "GetInsertBlock s = (case InsertBlock s of None \<Rightarrow> 0 | Some (F, b) \<Rightarrow> b)"

text \<open>\<open>getBasicBlockList().push_back\<close>: a block enters its function at the end.\<close>

definition push_back :: "fref option \<Rightarrow> nat \<Rightarrow> string \<Rightarrow> cg_state \<Rightarrow> cg_state" where
  "push_back TheFunction b nm s =
     (case TheFunction of
        None \<Rightarrow> s
      | Some F \<Rightarrow> upd_func F
          (\<lambda>fn. fn\<lparr>blocks := blocks fn @ [\<lparr>bb_id = b, bb_name = nm, bb_insts = []\<rparr>]\<rparr>) s)"

text \<open>
  \<open>BasicBlock::Create(ctx, name, parent)\<close> with a parent appends the new block to it;
  without one (\<open>BasicBlock_new\<close>) the block stays detached until \<open>push_back\<close>.
\<close>

definition BasicBlock_new :: "cg_state \<Rightarrow> nat \<times> cg_state" where
  "BasicBlock_new s = fresh s"

definition BasicBlock_Create :: "string \<Rightarrow> fref option \<Rightarrow> cg_state \<Rightarrow> nat \<times> cg_state" where
  "BasicBlock_Create nm TheFunction s = (let (b, s1) = fresh s in (b, push_back TheFunction b nm s1))"

definition prepend_entry :: "instr \<Rightarrow> func \<Rightarrow> func" where
  "prepend_entry i fn =
     (case blocks fn of
        [] \<Rightarrow> fn
      | B # Bs \<Rightarrow> fn\<lparr>blocks := B\<lparr>bb_insts := i # bb_insts B\<rparr> # Bs\<rparr>)"

text \<open>
  \<open>CreateEntryBlockAlloca\<close>: an alloca placed at the beginning of the entry block, the
  first block of the function.
\<close>

definition CreateEntryBlockAlloca :: "fref option \<Rightarrow> string \<Rightarrow> cg_state \<Rightarrow> nat \<times> cg_state" where
  "CreateEntryBlockAlloca TheFunction VarName s =
     (let (a, s1) = fresh s in
      (a, case TheFunction of
            None \<Rightarrow> s1
          | Some F \<Rightarrow> upd_func F (prepend_entry (Alloca a VarName)) s1))"

definition CreateLoad :: "nat \<Rightarrow> string \<Rightarrow> cg_state \<Rightarrow> Value \<times> cg_state" where
  "CreateLoad a nm s = (let (i, s1) = fresh s in (InstV i, emit (Load i a nm) s1))"

definition CreateStore :: "Value \<Rightarrow> nat \<Rightarrow> cg_state \<Rightarrow> cg_state" where
  "CreateStore v a s = emit (Store v a) s"

definition CreateFAdd :: "Value \<Rightarrow> Value \<Rightarrow> cg_state \<Rightarrow> Value \<times> cg_state" where
  "CreateFAdd l r s = (let (i, s1) = fresh s in (InstV i, emit (FAdd i l r) s1))"

definition CreateFSub :: "Value \<Rightarrow> Value \<Rightarrow> cg_state \<Rightarrow> Value \<times> cg_state" where
  "CreateFSub l r s = (let (i, s1) = fresh s in (InstV i, emit (FSub i l r) s1))"

definition CreateFMul :: "Value \<Rightarrow> Value \<Rightarrow> cg_state \<Rightarrow> Value \<times> cg_state" where
  "CreateFMul l r s = (let (i, s1) = fresh s in (InstV i, emit (FMul i l r) s1))"

definition CreateFCmpULT :: "Value \<Rightarrow> Value \<Rightarrow> cg_state \<Rightarrow> Value \<times> cg_state" where
  "CreateFCmpULT l r s = (let (i, s1) = fresh s in (InstV i, emit (FCmpULT i l r) s1))"

definition CreateFCmpONE :: "Value \<Rightarrow> Value \<Rightarrow> cg_state \<Rightarrow> Value \<times> cg_state" where
  "CreateFCmpONE l r s = (let (i, s1) = fresh s in (InstV i, emit (FCmpONE i l r) s1))"

definition CreateUIToFP :: "Value \<Rightarrow> cg_state \<Rightarrow> Value \<times> cg_state" where
  "CreateUIToFP v s = (let (i, s1) = fresh s in (InstV i, emit (UIToFP i v) s1))"

definition CreateCall :: "fref \<Rightarrow> Value list \<Rightarrow> cg_state \<Rightarrow> Value \<times> cg_state" where
  "CreateCall F vs s = (let (i, s1) = fresh s in (InstV i, emit (Call i F vs) s1))"

definition CreateBr :: "nat \<Rightarrow> cg_state \<Rightarrow> cg_state" where
  "CreateBr b s = emit (Br b) s"

definition CreateCondBr :: "Value \<Rightarrow> nat \<Rightarrow> nat \<Rightarrow> cg_state \<Rightarrow> cg_state" where
  "CreateCondBr c t e s = emit (CondBr c t e) s"

definition CreatePHI :: "(Value \<times> nat) list \<Rightarrow> cg_state \<Rightarrow> Value \<times> cg_state" where
  "CreatePHI inc s = (let (i, s1) = fresh s in (InstV i, emit (PHI i inc) s1))"

definition CreateRet :: "Value \<Rightarrow> cg_state \<Rightarrow> cg_state" where
  "CreateRet v s = emit (Ret v) s"

definition callee_arg_size :: "cg_state \<Rightarrow> fref \<Rightarrow> nat" where
  "callee_arg_size s F = (case TheModule s F of None \<Rightarrow> 0 | Some fn \<Rightarrow> arg_size fn)"

section \<open>Lowering expressions\<close>

text \<open>
  \<open>Codegen\<close> follows the eight \<open>Codegen\<close> methods of lib/AST/ASTNodes.cpp statement by
  statement. \<open>Codegen_Args\<close> is the loop of CallExprAST::Codegen over \<open>Args\<close> (with
  \<open>ArgsV\<close> built so far) and \<open>Codegen_VarNames\<close> the first loop of VarExprAST::Codegen
  over \<open>VarNames\<close> (with \<open>OldBindings\<close> built so far). The builder is taken to emit one
  instruction per \<open>Create\<close> call.
\<close>

fun Codegen :: "ExprAST \<Rightarrow> cg_state \<Rightarrow> Value result \<times> cg_state"
  and Codegen_Args :: "ExprAST list \<Rightarrow> Value list \<Rightarrow> cg_state \<Rightarrow> Value list result \<times> cg_state"
  and Codegen_VarNames ::
    "(string \<times> ExprAST option) list \<Rightarrow> fref option \<Rightarrow> nat option list \<Rightarrow> cg_state
      \<Rightarrow> nat option list result \<times> cg_state"
where
  "Codegen (NumberExprAST Val) s = (Ok (ConstantFP Val), s)"
| "Codegen (VariableExprAST Nm) s =
     (let (V, s1) = NamedValues_at Nm s in
      case V of
        None \<Rightarrow> ErrorV ''Unknown variable name'' s1
      | Some a \<Rightarrow> (let (v, s2) = CreateLoad a Nm s1 in (Ok v, s2)))"
| "Codegen (UnaryExprAST Opcode Operand) s =
     (case Codegen Operand s of
        (Ok OperandV, s1) \<Rightarrow>
          (case getFunction s1 (''unary'' @ [Opcode]) of
             None \<Rightarrow> ErrorV ''Unknown unary operator'' s1
           | Some F \<Rightarrow> (let (v, s2) = CreateCall F [OperandV] s1 in (Ok v, s2)))
      | (Null, s1) \<Rightarrow> (Null, s1)
      | (Abort, s1) \<Rightarrow> (Abort, s1))"
| "Codegen (BinaryExprAST Op LHS RHS) s =
     (if Op = CHR ''='' then
        (case LHS of
           VariableExprAST LHSE \<Rightarrow>
             (case Codegen RHS s of
                (Ok Val, s1) \<Rightarrow>
                  (let (Variable, s2) = NamedValues_at LHSE s1 in
                   case Variable of
                     None \<Rightarrow> ErrorV ''Unknown variable name'' s2
                   | Some a \<Rightarrow> (Ok Val, CreateStore Val a s2))
              | (Null, s1) \<Rightarrow> (Null, s1)
              | (Abort, s1) \<Rightarrow> (Abort, s1))
         | _ \<Rightarrow> ErrorV ''destination of '=' must be a variable'' s)
      else
        (case Codegen LHS s of
           (Abort, s1) \<Rightarrow> (Abort, s1)
         | (L, s1) \<Rightarrow>
             (case Codegen RHS s1 of
                (Abort, s2) \<Rightarrow> (Abort, s2)
              | (R, s2) \<Rightarrow>
                  (case (L, R) of
                     (Ok Lv, Ok Rv) \<Rightarrow>
                       (if Op = CHR ''+'' then (let (v, s3) = CreateFAdd Lv Rv s2 in (Ok v, s3))
                        else if Op = CHR ''-'' then (let (v, s3) = CreateFSub Lv Rv s2 in (Ok v, s3))
                        else if Op = CHR ''*'' then (let (v, s3) = CreateFMul Lv Rv s2 in (Ok v, s3))
                        else if Op = CHR ''<'' then
                          (let (c, s3) = CreateFCmpULT Lv Rv s2;
                               (v, s4) = CreateUIToFP c s3
                           in (Ok v, s4))
                        else
                          (case getFunction s2 (''binary'' @ [Op]) of
                             None \<Rightarrow> (Abort, s2\<lparr>errs := errs s2 @ [''binary operator not found!'']\<rparr>)
                           | Some F \<Rightarrow> (let (v, s3) = CreateCall F [Lv, Rv] s2 in (Ok v, s3))))
                   | _ \<Rightarrow> (Null, s2)))))"
| "Codegen (CallExprAST Callee Args) s =
     (case getFunction s Callee of
        None \<Rightarrow> ErrorV ''Unknown function referenced'' s
      | Some CalleeF \<Rightarrow>
          (if callee_arg_size s CalleeF \<noteq> length Args
           then ErrorV ''Incorrect # arguments passed'' s
           else
             (case Codegen_Args Args [] s of
                (Ok ArgsV, s1) \<Rightarrow> (let (v, s2) = CreateCall CalleeF ArgsV s1 in (Ok v, s2))
              | (Null, s1) \<Rightarrow> (Null, s1)
              | (Abort, s1) \<Rightarrow> (Abort, s1))))"
| "Codegen (IfExprAST Cond Then Else) s =
     (case Codegen Cond s of
        (Ok CondV0, s1) \<Rightarrow>
          (let (CondV, s2) = CreateFCmpONE CondV0 (ConstantFP 0) s1;
               TheFunction = getParent s2;
               (ThenBB, s3) = BasicBlock_Create ''then'' TheFunction s2;
               (ElseBB, s4) = BasicBlock_new s3;
               (MergeBB, s5) = BasicBlock_new s4;
               s6 = CreateCondBr CondV ThenBB ElseBB s5;
               s7 = SetInsertPoint TheFunction ThenBB s6
           in case Codegen Then s7 of
                (Ok ThenV, s8) \<Rightarrow>
                  (let s9 = CreateBr MergeBB s8;
                       ThenBB' = GetInsertBlock s9;
                       s10 = push_back TheFunction ElseBB ''else'' s9;
                       s11 = SetInsertPoint TheFunction ElseBB s10
                   in case Codegen Else s11 of
                        (Ok ElseV, s12) \<Rightarrow>
                          (let s13 = CreateBr MergeBB s12;
                               ElseBB' = GetInsertBlock s13;
                               s14 = push_back TheFunction MergeBB ''ifcont'' s13;
                               s15 = SetInsertPoint TheFunction MergeBB s14;
                               (PN, s16) = CreatePHI [(ThenV, ThenBB'), (ElseV, ElseBB')] s15
                           in (Ok PN, s16))
                      | (Null, s12) \<Rightarrow> (Null, s12)
                      | (Abort, s12) \<Rightarrow> (Abort, s12))
              | (Null, s8) \<Rightarrow> (Null, s8)
              | (Abort, s8) \<Rightarrow> (Abort, s8))
      | (Null, s1) \<Rightarrow> (Null, s1)
      | (Abort, s1) \<Rightarrow> (Abort, s1))"
| "Codegen (ForExprAST VarName Start End Step Body) s =
     (let TheFunction = getParent s;
          (Alloca, s1) = CreateEntryBlockAlloca TheFunction VarName s
      in case Codegen Start s1 of
           (Ok StartVal, s2) \<Rightarrow>
             (let s3 = CreateStore StartVal Alloca s2;
                  (LoopBB, s4) = BasicBlock_Create ''loop'' TheFunction s3;
                  s5 = CreateBr LoopBB s4;
                  s6 = SetInsertPoint TheFunction LoopBB s5;
                  (OldVal, s7) = NamedValues_at VarName s6;
                  s8 = NamedValues_set VarName (Some Alloca) s7
              in case Codegen Body s8 of
                   (Ok BodyV, s9) \<Rightarrow>
                     (case (case Step of
                              Some St \<Rightarrow> Codegen St s9
                            | None \<Rightarrow> (Ok (ConstantFP 1), s9)) of
                        (Ok StepVal, s10) \<Rightarrow>
                          (case Codegen End s10 of
                             (Ok EndCond0, s11) \<Rightarrow>
                               (let (CurVar, s12) = CreateLoad Alloca VarName s11;
                                    (NextVar, s13) = CreateFAdd CurVar StepVal s12;
                                    s14 = CreateStore NextVar Alloca s13;
                                    (EndCond, s15) = CreateFCmpONE EndCond0 (ConstantFP 0) s14;
                                    (AfterBB, s16) = BasicBlock_Create ''afterloop'' TheFunction s15;
                                    s17 = CreateCondBr EndCond LoopBB AfterBB s16;
                                    s18 = SetInsertPoint TheFunction AfterBB s17;
                                    s19 = (case OldVal of
                                             Some a \<Rightarrow> NamedValues_set VarName OldVal s18
                                           | None \<Rightarrow> NamedValues_erase VarName s18)
                                in (Ok (ConstantFP 0), s19))
                           | (Null, s11) \<Rightarrow> (Null, s11)
                           | (Abort, s11) \<Rightarrow> (Abort, s11))
                      | (Null, s10) \<Rightarrow> (Null, s10)
                      | (Abort, s10) \<Rightarrow> (Abort, s10))
                 | (Null, s9) \<Rightarrow> (Null, s9)
                 | (Abort, s9) \<Rightarrow> (Abort, s9))
         | (Null, s2) \<Rightarrow> (Null, s2)
         | (Abort, s2) \<Rightarrow> (Abort, s2))"
| "Codegen (VarExprAST VarNames Body) s =
     (let TheFunction = getParent s in
      case Codegen_VarNames VarNames TheFunction [] s of
        (Ok OldBindings, s1) \<Rightarrow>
          (case Codegen Body s1 of
             (Ok BodyVal, s2) \<Rightarrow>
               (Ok BodyVal,
                fold (\<lambda>(n, old). NamedValues_set n old) (zip (map fst VarNames) OldBindings) s2)
           | (Null, s2) \<Rightarrow> (Null, s2)
           | (Abort, s2) \<Rightarrow> (Abort, s2))
      | (Null, s1) \<Rightarrow> (Null, s1)
      | (Abort, s1) \<Rightarrow> (Abort, s1))"
| "Codegen_Args [] ArgsV s = (Ok ArgsV, s)"
| "Codegen_Args (A # rest) ArgsV s =
     (case Codegen A s of
        (Ok v, s1) \<Rightarrow> Codegen_Args rest (ArgsV @ [v]) s1
      | (Null, s1) \<Rightarrow> (Null, s1)
      | (Abort, s1) \<Rightarrow> (Abort, s1))"
| "Codegen_VarNames [] TheFunction OldBindings s = (Ok OldBindings, s)"
| "Codegen_VarNames ((VarName, Init) # rest) TheFunction OldBindings s =
     (case (case Init of
              Some I \<Rightarrow> Codegen I s
            | None \<Rightarrow> (Ok (ConstantFP 0), s)) of
        (Ok InitVal, s1) \<Rightarrow>
          (let (Alloca, s2) = CreateEntryBlockAlloca TheFunction VarName s1;
               s3 = CreateStore InitVal Alloca s2;
               (old, s4) = NamedValues_at VarName s3;
               s5 = NamedValues_set VarName (Some Alloca) s4
           in Codegen_VarNames rest TheFunction (OldBindings @ [old]) s5)
      | (Null, s1) \<Rightarrow> (Null, s1)
      | (Abort, s1) \<Rightarrow> (Abort, s1))"

section \<open>Prototypes and function definitions\<close>

definition ErrorF :: "string \<Rightarrow> cg_state \<Rightarrow> 'a result \<times> cg_state" where
  "ErrorF Str s = (Null, s\<lparr>errs := errs s @ [Str]\<rparr>)"

text \<open>\<open>F->empty()\<close>: the function has no basic block, it is a declaration.\<close>

definition fn_empty :: "cg_state \<Rightarrow> fref \<Rightarrow> bool" where
  "fn_empty s F = (case TheModule s F of None \<Rightarrow> True | Some fn \<Rightarrow> blocks fn = [])"

text \<open>
  \<open>Function::Create\<close> when the name is free in the module (or empty); the new function
  has one parameter per entry of \<open>Doubles\<close> and no block.
\<close>

definition Function_Create :: "string \<Rightarrow> nat \<Rightarrow> cg_state \<Rightarrow> fref \<times> cg_state" where
  "Function_Create nm n s =
     (let fn = \<lparr>arg_size = n, arg_names = replicate n [], blocks = []\<rparr> in
      if nm = [] then
        (let (k, s1) = fresh s in (Anon k, s1\<lparr>TheModule := (TheModule s1)(Anon k \<mapsto> fn)\<rparr>))
      else (Named nm, s\<lparr>TheModule := (TheModule s)(Named nm \<mapsto> fn)\<rparr>))"

definition setNames :: "fref \<Rightarrow> string list \<Rightarrow> cg_state \<Rightarrow> cg_state" where
  "setNames F as s = upd_func F (\<lambda>fn. fn\<lparr>arg_names := as\<rparr>) s"

text \<open>
  PrototypeAST::Codegen. When the name is taken, \<open>Function::Create\<close> returns a function
  under another name (\<open>F->getName() != Name\<close>), which the code erases at once before it
  looks at the existing one; the module is then as it was.
\<close>

definition PrototypeAST_Codegen :: "PrototypeAST \<Rightarrow> cg_state \<Rightarrow> fref result \<times> cg_state" where
  "PrototypeAST_Codegen p s =
     (case getFunction s (ProtoName p) of
        None \<Rightarrow>
          (let (F, s1) = Function_Create (ProtoName p) (length (ProtoArgs p)) s
           in (Ok F, setNames F (ProtoArgs p) s1))
      | Some F \<Rightarrow>
          (if \<not> fn_empty s F then ErrorF ''redefinition of function'' s
           else if callee_arg_size s F \<noteq> length (ProtoArgs p)
             then ErrorF ''redefinition of function with different # args'' s
           else (Ok F, setNames F (ProtoArgs p) s)))"

text \<open>PrototypeAST::CreateArgumentAllocas, the loop from index \<open>Idx\<close> on.\<close>

fun CreateArgumentAllocas :: "string list \<Rightarrow> nat \<Rightarrow> fref \<Rightarrow> cg_state \<Rightarrow> cg_state" where
  "CreateArgumentAllocas [] Idx F s = s"
| "CreateArgumentAllocas (a # as) Idx F s =
     (let (Alloca, s1) = CreateEntryBlockAlloca (Some F) a s;
          s2 = CreateStore (ArgV Idx) Alloca s1;
          s3 = NamedValues_set a (Some Alloca) s2
      in CreateArgumentAllocas as (Idx + 1) F s3)"

definition eraseFromParent :: "fref \<Rightarrow> cg_state \<Rightarrow> cg_state" where
  "eraseFromParent F s = s\<lparr>TheModule := (TheModule s)(F := None)\<rparr>"

text \<open>
  FunctionAST::Codegen between the prototype and the body: the operator is installed,
  the entry block created and made the insertion point, the arguments get their allocas.
\<close>

definition FunctionAST_prologue :: "PrototypeAST \<Rightarrow> fref \<Rightarrow> cg_state \<Rightarrow> cg_state" where
  "FunctionAST_prologue p TheFunction s1 =
     (let s2 = (if isBinaryOp p
                then s1\<lparr>BinopPrecedence :=
                       (BinopPrecedence s1)(getOperatorName p \<mapsto> getBinaryPrecedence p)\<rparr>
                else s1);
          (BB, s3) = BasicBlock_Create ''entry'' (Some TheFunction) s2;
          s4 = SetInsertPoint (Some TheFunction) BB s3
      in CreateArgumentAllocas (ProtoArgs p) 0 TheFunction s4)"

text \<open>
  FunctionAST::Codegen. \<open>verifyFunction\<close> and the pass manager change no global of the
  code generator and keep the meaning of the function; they are left out.
\<close>

definition FunctionAST_Codegen :: "FunctionAST \<Rightarrow> cg_state \<Rightarrow> fref result \<times> cg_state" where
  "FunctionAST_Codegen f s =
     (let s0 = s\<lparr>NamedValues := Map.empty\<rparr> in
      case PrototypeAST_Codegen (Proto f) s0 of
        (Ok TheFunction, s1) \<Rightarrow>
          (case Codegen (FnBody f) (FunctionAST_prologue (Proto f) TheFunction s1) of
             (Ok RetVal, s6) \<Rightarrow> (Ok TheFunction, CreateRet RetVal s6)
           | (Null, s6) \<Rightarrow>
               (let s7 = eraseFromParent TheFunction s6
                in (Null,
                    if isBinaryOp (Proto f)
                    then s7\<lparr>BinopPrecedence :=
                           (BinopPrecedence s7)(getOperatorName (Proto f) := None)\<rparr>
                    else s7))
           | (Abort, s6) \<Rightarrow> (Abort, s6))
      | (Null, s1) \<Rightarrow> (Null, s1)
      | (Abort, s1) \<Rightarrow> (Abort, s1))"

text \<open>The globals as \<open>main\<close> of tools/driver/Driver.cpp leaves them before parsing.\<close>

definition initial_state :: cg_state where
  "initial_state =
     \<lparr>NamedValues = Map.empty,
      TheModule = Map.empty,
      BinopPrecedence = [CHR ''='' \<mapsto> 2, CHR ''<'' \<mapsto> 10, CHR ''+'' \<mapsto> 20,
                         CHR ''-'' \<mapsto> 20, CHR ''*'' \<mapsto> 40],
      InsertBlock = None,
      next_id = 0,
      errs = []\<rparr>"

section \<open>Running the emitted IR\<close>

text \<open>
  The execution engine is outside the sources; what follows is the meaning of the
  instructions the builder emits, so that claims about what a lowered expression does
  when run can be stated. A comparison yields a one-bit value, everything else a
  double. A function without blocks is external: calling it is recorded in the trace,
  and its result is given by \<open>ext\<close>. Reading an alloca before any store, a missing
  block or register, and the end of the fuel give \<open>None\<close>.
\<close>

datatype rtval = DoubleV real | BoolV bool

record frame =
  regs :: "nat \<rightharpoonup> rtval"
  mem :: "nat \<rightharpoonup> real"
  actuals :: "real list"

type_synonym trace = "(fref \<times> real list) list"

definition eval_value :: "frame \<Rightarrow> Value \<Rightarrow> rtval option" where
  "eval_value fr v =
     (case v of
        ConstantFP r \<Rightarrow> Some (DoubleV r)
      | InstV i \<Rightarrow> regs fr i
      | ArgV k \<Rightarrow> (if k < length (actuals fr) then Some (DoubleV (actuals fr ! k)) else None))"

definition eval_double :: "frame \<Rightarrow> Value \<Rightarrow> real option" where
  "eval_double fr v = (case eval_value fr v of Some (DoubleV r) \<Rightarrow> Some r | _ \<Rightarrow> None)"

definition eval_bool :: "frame \<Rightarrow> Value \<Rightarrow> bool option" where
  "eval_bool fr v = (case eval_value fr v of Some (BoolV b) \<Rightarrow> Some b | _ \<Rightarrow> None)"

fun eval_doubles :: "frame \<Rightarrow> Value list \<Rightarrow> real list option" where
  "eval_doubles fr [] = Some []"
| "eval_doubles fr (v # vs) =
     (case eval_double fr v of
        None \<Rightarrow> None
      | Some r \<Rightarrow> (case eval_doubles fr vs of None \<Rightarrow> None | Some rs \<Rightarrow> Some (r # rs)))"

fun find_block :: "BasicBlock list \<Rightarrow> nat \<Rightarrow> instr list option" where
  "find_block [] b = None"
| "find_block (B # Bs) b = (if bb_id B = b then Some (bb_insts B) else find_block Bs b)"

fun phi_incoming :: "(Value \<times> nat) list \<Rightarrow> nat \<Rightarrow> Value option" where
  "phi_incoming [] prev = None"
| "phi_incoming ((v, b) # inc) prev = (if b = prev then Some v else phi_incoming inc prev)"

definition set_reg :: "nat \<Rightarrow> rtval \<Rightarrow> frame \<Rightarrow> frame" where
  "set_reg i x fr = fr\<lparr>regs := (regs fr)(i \<mapsto> x)\<rparr>"

definition binop_double ::
  "(real \<Rightarrow> real \<Rightarrow> rtval) \<Rightarrow> frame \<Rightarrow> nat \<Rightarrow> Value \<Rightarrow> Value \<Rightarrow> frame option" where
  "binop_double f fr i l r =
     (case (eval_double fr l, eval_double fr r) of
        (Some a, Some b) \<Rightarrow> Some (set_reg i (f a b) fr)
      | _ \<Rightarrow> None)"

text \<open>
  \<open>exec fuel M ext fn prev cur is fr tr\<close> runs the instructions \<open>is\<close> that remain of block
  \<open>cur\<close> of function \<open>fn\<close>, entered from block \<open>prev\<close>, and returns the value returned by
  \<open>fn\<close> with the trace of external calls.
\<close>

fun exec ::
  "nat \<Rightarrow> (fref \<rightharpoonup> func) \<Rightarrow> (fref \<Rightarrow> real list \<Rightarrow> real) \<Rightarrow> func \<Rightarrow> nat \<Rightarrow> nat \<Rightarrow> instr list
    \<Rightarrow> frame \<Rightarrow> trace \<Rightarrow> (real \<times> trace) option"
where
  "exec fuel M ext fn prev cur [] fr tr = None"
| "exec fuel M ext fn prev cur (i # is) fr tr =
     (if fuel = 0 then None
      else case i of
        Alloca a nm \<Rightarrow> exec (fuel - 1) M ext fn prev cur is fr tr
      | Load r a nm \<Rightarrow>
          (case mem fr a of
             None \<Rightarrow> None
           | Some x \<Rightarrow> exec (fuel - 1) M ext fn prev cur is (set_reg r (DoubleV x) fr) tr)
      | Store v a \<Rightarrow>
          (case eval_double fr v of
             None \<Rightarrow> None
           | Some x \<Rightarrow> exec (fuel - 1) M ext fn prev cur is (fr\<lparr>mem := (mem fr)(a \<mapsto> x)\<rparr>) tr)
      | FAdd r x y \<Rightarrow>
          (case binop_double (\<lambda>a b. DoubleV (a + b)) fr r x y of
             None \<Rightarrow> None
           | Some fr' \<Rightarrow> exec (fuel - 1) M ext fn prev cur is fr' tr)
      | FSub r x y \<Rightarrow>
          (case binop_double (\<lambda>a b. DoubleV (a - b)) fr r x y of
             None \<Rightarrow> None
           | Some fr' \<Rightarrow> exec (fuel - 1) M ext fn prev cur is fr' tr)
      | FMul r x y \<Rightarrow>
          (case binop_double (\<lambda>a b. DoubleV (a * b)) fr r x y of
             None \<Rightarrow> None
           | Some fr' \<Rightarrow> exec (fuel - 1) M ext fn prev cur is fr' tr)
      | FCmpULT r x y \<Rightarrow>
          (case binop_double (\<lambda>a b. BoolV (a < b)) fr r x y of
             None \<Rightarrow> None
           | Some fr' \<Rightarrow> exec (fuel - 1) M ext fn prev cur is fr' tr)
      | FCmpONE r x y \<Rightarrow>
          (case binop_double (\<lambda>a b. BoolV (a \<noteq> b)) fr r x y of
             None \<Rightarrow> None
           | Some fr' \<Rightarrow> exec (fuel - 1) M ext fn prev cur is fr' tr)
      | UIToFP r v \<Rightarrow>
          (case eval_bool fr v of
             None \<Rightarrow> None
           | Some b \<Rightarrow>
               exec (fuel - 1) M ext fn prev cur is (set_reg r (DoubleV (if b then 1 else 0)) fr) tr)
      | Call r F vs \<Rightarrow>
          (case eval_doubles fr vs of
             None \<Rightarrow> None
           | Some xs \<Rightarrow>
               (case M F of
                  None \<Rightarrow> None
                | Some g \<Rightarrow>
                    (if length xs \<noteq> arg_size g then None
                     else
                       (case (case blocks g of
                                [] \<Rightarrow> Some (ext F xs, tr @ [(F, xs)])
                              | B # Bs \<Rightarrow>
                                  exec (fuel - 1) M ext g (bb_id B) (bb_id B) (bb_insts B)
                                    \<lparr>regs = Map.empty, mem = Map.empty, actuals = xs\<rparr> tr) of
                          None \<Rightarrow> None
                        | Some (y, tr') \<Rightarrow>
                            exec (fuel - 1) M ext fn prev cur is (set_reg r (DoubleV y) fr) tr'))))
      | Br b \<Rightarrow>
          (case find_block (blocks fn) b of
             None \<Rightarrow> None
           | Some is' \<Rightarrow> exec (fuel - 1) M ext fn cur b is' fr tr)
      | CondBr c t e \<Rightarrow>
          (case eval_bool fr c of
             None \<Rightarrow> None
           | Some b \<Rightarrow>
               (let nxt = (if b then t else e) in
                case find_block (blocks fn) nxt of
                  None \<Rightarrow> None
                | Some is' \<Rightarrow> exec (fuel - 1) M ext fn cur nxt is' fr tr))
      | PHI r inc \<Rightarrow>
          (case phi_incoming inc prev of
             None \<Rightarrow> None
           | Some v \<Rightarrow>
               (case eval_value fr v of
                  None \<Rightarrow> None
                | Some x \<Rightarrow> exec (fuel - 1) M ext fn prev cur is (set_reg r x fr) tr))
      | Ret v \<Rightarrow>
          (case eval_double fr v of None \<Rightarrow> None | Some x \<Rightarrow> Some (x, tr)))"

text \<open>Calling function \<open>F\<close> of the module on the arguments \<open>xs\<close>.\<close>

definition run :: 
  "nat \<Rightarrow> (fref \<rightharpoonup> func) \<Rightarrow> (fref \<Rightarrow> real list \<Rightarrow> real) \<Rightarrow> fref \<Rightarrow> real list
    \<Rightarrow> (real \<times> trace) option" where
  "run fuel M ext F xs =
     (case M F of
        None \<Rightarrow> None
      | Some g \<Rightarrow>
          (case blocks g of
             [] \<Rightarrow> None
           | B # Bs \<Rightarrow>
               (if length xs \<noteq> arg_size g then None
                else exec fuel M ext g (bb_id B) (bb_id B) (bb_insts B)
                       \<lparr>regs = Map.empty, mem = Map.empty, actuals = xs\<rparr> [])))"

section \<open>Notions used by the statements\<close>

text \<open>
  Modelled from the spec: the parser is not among the sources. A bare top-level
  expression is submitted wrapped in an anonymous function without parameters.
\<close>

definition toplevel :: "ExprAST \<Rightarrow> FunctionAST" where
  "toplevel e = \<lparr>Proto = \<lparr>ProtoName = [], ProtoArgs = [], Role = NoOperator\<rparr>, FnBody = e\<rparr>"

text \<open>Every scoped-binding block of the expression binds pairwise distinct names.\<close>

fun distinct_vars :: "ExprAST \<Rightarrow> bool" where
  "distinct_vars (NumberExprAST v) = True"
| "distinct_vars (VariableExprAST n) = True"
| "distinct_vars (UnaryExprAST c e) = distinct_vars e"
| "distinct_vars (BinaryExprAST c l r) = (distinct_vars l \<and> distinct_vars r)"
| "distinct_vars (CallExprAST c as) = list_all distinct_vars as"
| "distinct_vars (IfExprAST c t e) = (distinct_vars c \<and> distinct_vars t \<and> distinct_vars e)"
| "distinct_vars (ForExprAST v st en sp b) =
     (distinct_vars st \<and> distinct_vars en
      \<and> (case sp of None \<Rightarrow> True | Some e \<Rightarrow> distinct_vars e) \<and> distinct_vars b)"
| "distinct_vars (VarExprAST vs b) =
     (distinct (map fst vs)
      \<and> list_all (\<lambda>(n, i). case i of None \<Rightarrow> True | Some e \<Rightarrow> distinct_vars e) vs
      \<and> distinct_vars b)"

text \<open>
  Two states that differ at most in names that one leaves out of \<open>NamedValues\<close> and the
  other binds to the null pointer.
\<close>

definition scope_equiv :: "cg_state \<Rightarrow> cg_state \<Rightarrow> bool" where
  "scope_equiv s t =
     (resolve s = resolve t \<and> s\<lparr>NamedValues := Map.empty\<rparr> = t\<lparr>NamedValues := Map.empty\<rparr>)"

section \<open>The inputs of the examples\<close>

text \<open>The declaration \<open>extern putchard(x)\<close>, and the globals after it has been lowered.\<close>

definition putchard_proto :: PrototypeAST where
  "putchard_proto = \<lparr>ProtoName = ''putchard'', ProtoArgs = [''x''], Role = NoOperator\<rparr>"

definition with_putchard :: cg_state where
  "with_putchard = snd (PrototypeAST_Codegen putchard_proto initial_state)"

text \<open>\<open>for i = 1, i < 4, 1.0 in putchard(i)\<close>\<close>

definition for_example :: ExprAST where
  "for_example =
     ForExprAST ''i'' (NumberExprAST 1)
       (BinaryExprAST (CHR ''<'') (VariableExprAST ''i'') (NumberExprAST 4))
       (Some (NumberExprAST 1))
       (CallExprAST ''putchard'' [VariableExprAST ''i''])"

text \<open>The function that lowering \<open>for_example\<close> at top level builds.\<close>

definition for_example_ir :: func where
  "for_example_ir =
     \<lparr>arg_size = 0, arg_names = [],
      blocks =
        [\<lparr>bb_id = 1, bb_name = ''entry'',
          bb_insts = [Alloca 2 ''i'', Store (ConstantFP 1) 2, Br 3]\<rparr>,
         \<lparr>bb_id = 3, bb_name = ''loop'',
          bb_insts =
            [Load 4 2 ''i'', Call 5 (Named ''putchard'') [InstV 4],
             Load 6 2 ''i'', FCmpULT 7 (InstV 6) (ConstantFP 4), UIToFP 8 (InstV 7),
             Load 9 2 ''i'', FAdd 10 (InstV 9) (ConstantFP 1), Store (InstV 10) 2,
             FCmpONE 11 (InstV 8) (ConstantFP 0), CondBr (InstV 11) 3 12]\<rparr>,
         \<lparr>bb_id = 12, bb_name = ''afterloop'', bb_insts = [Ret (ConstantFP 0)]\<rparr>]\<rparr>"

text \<open>
  Modelled from the spec: the builtins (klang/Builtin/Tutorial.h) are not among the
  sources. An external function that returns 0, as \<open>putchard\<close> does.
\<close>

definition ext_zero :: "fref \<Rightarrow> real list \<Rightarrow> real" where
  "ext_zero F xs = 0"

text \<open>\<open>var a = 1 in (var a = a in a)\<close> and \<open>var a = 1, b = a in b\<close>\<close>

definition var_example :: ExprAST where
  "var_example =
     VarExprAST [(''a'', Some (NumberExprAST 1))]
       (VarExprAST [(''a'', Some (VariableExprAST ''a''))] (VariableExprAST ''a''))"

definition var_later_example :: ExprAST where
  "var_later_example =
     VarExprAST [(''a'', Some (NumberExprAST 1)), (''b'', Some (VariableExprAST ''a''))]
       (VariableExprAST ''b'')"

text \<open>A state in which a function \<open>g\<close> of three parameters is declared.\<close>

definition with_g3 :: cg_state where
  "with_g3 =
     snd (PrototypeAST_Codegen
            \<lparr>ProtoName = ''g'', ProtoArgs = [''a'', ''b'', ''c''], Role = NoOperator\<rparr>
            initial_state)"


text \<open>\<open>def f() 1\<close> and a second definition \<open>def f() 2\<close>\<close>

definition def_f_1 :: FunctionAST where
  "def_f_1 =
     \<lparr>Proto = \<lparr>ProtoName = ''f'', ProtoArgs = [], Role = NoOperator\<rparr>,
      FnBody = NumberExprAST 1\<rparr>"

definition def_f_2 :: FunctionAST where
  "def_f_2 =
     \<lparr>Proto = \<lparr>ProtoName = ''f'', ProtoArgs = [], Role = NoOperator\<rparr>,
      FnBody = NumberExprAST 2\<rparr>"
text \<open>
  \<open>grows s s'\<close>: from \<open>s\<close> to \<open>s'\<close> the counter of fresh objects has not gone back, and
  every name resolves as in \<open>s\<close> or to an alloca created since \<open>s\<close>.
\<close>

definition grows :: "cg_state \<Rightarrow> cg_state \<Rightarrow> bool" where
  "grows s s' =
     (next_id s \<le> next_id s'
      \<and> (\<forall>n. resolve s' n = resolve s n \<or> (\<exists>a. resolve s' n = Some a \<and> next_id s \<le> a)))"

text \<open>The initializers of the pairs bind pairwise distinct names in their blocks.\<close>

definition distinct_inits :: "(string \<times> ExprAST option) list \<Rightarrow> bool" where
  "distinct_inits bs =
     list_all (\<lambda>(n, i). case i of None \<Rightarrow> True | Some e \<Rightarrow> distinct_vars e) bs"

text \<open>
  The state in which the body of a top-level expression is lowered when it is the first
  form submitted: the anonymous function is \<open>Anon 0\<close>.
\<close>

definition in_toplevel :: cg_state where
  "in_toplevel =
     FunctionAST_prologue (Proto (toplevel (NumberExprAST 0))) (Anon 0)
       (snd (PrototypeAST_Codegen (Proto (toplevel (NumberExprAST 0))) initial_state))"

section \<open>The states between the recursive calls\<close>

text \<open>
  The straight-line stretches of IfExprAST::Codegen, ForExprAST::Codegen and
  VarExprAST::Codegen between two recursive calls, named so that statements can refer to
  the state in which a child is lowered. That \<open>Codegen\<close> passes through exactly these
  states is proved below (\<open>Codegen_If\<close>, \<open>Codegen_For\<close>, \<open>Codegen_VarNames_Cons\<close>).
\<close>

definition if_then_state :: "Value \<Rightarrow> cg_state \<Rightarrow> cg_state" where
  "if_then_state CondV0 s1 =
     (let (CondV, s2) = CreateFCmpONE CondV0 (ConstantFP 0) s1;
          TheFunction = getParent s2;
          (ThenBB, s3) = BasicBlock_Create ''then'' TheFunction s2;
          (ElseBB, s4) = BasicBlock_new s3;
          (MergeBB, s5) = BasicBlock_new s4;
          s6 = CreateCondBr CondV ThenBB ElseBB s5
      in SetInsertPoint TheFunction ThenBB s6)"

definition if_else_state :: "cg_state \<Rightarrow> cg_state \<Rightarrow> cg_state" where
  "if_else_state s1 s8 =
     (let TheFunction = getParent s1;
          ElseBB = next_id s1 + 2;
          MergeBB = next_id s1 + 3;
          s9 = CreateBr MergeBB s8;
          s10 = push_back TheFunction ElseBB ''else'' s9
      in SetInsertPoint TheFunction ElseBB s10)"

definition if_merge :: "cg_state \<Rightarrow> Value \<Rightarrow> cg_state \<Rightarrow> Value \<Rightarrow> cg_state \<Rightarrow> Value \<times> cg_state" where
  "if_merge s1 ThenV s8 ElseV s12 =
     (let TheFunction = getParent s1;
          MergeBB = next_id s1 + 3;
          ThenBB' = GetInsertBlock s8;
          s13 = CreateBr MergeBB s12;
          ElseBB' = GetInsertBlock s13;
          s14 = push_back TheFunction MergeBB ''ifcont'' s13;
          s15 = SetInsertPoint TheFunction MergeBB s14
      in CreatePHI [(ThenV, ThenBB'), (ElseV, ElseBB')] s15)"

definition for_start_state :: "string \<Rightarrow> cg_state \<Rightarrow> cg_state" where
  "for_start_state VarName s = snd (CreateEntryBlockAlloca (getParent s) VarName s)"

definition for_body_state :: "string \<Rightarrow> cg_state \<Rightarrow> Value \<Rightarrow> cg_state \<Rightarrow> cg_state" where
  "for_body_state VarName s StartVal s2 =
     (let TheFunction = getParent s;
          Alloca = next_id s;
          s3 = CreateStore StartVal Alloca s2;
          (LoopBB, s4) = BasicBlock_Create ''loop'' TheFunction s3;
          s5 = CreateBr LoopBB s4;
          s6 = SetInsertPoint TheFunction LoopBB s5;
          (OldVal, s7) = NamedValues_at VarName s6
      in NamedValues_set VarName (Some Alloca) s7)"

definition for_finish ::
  "string \<Rightarrow> cg_state \<Rightarrow> cg_state \<Rightarrow> Value \<Rightarrow> Value \<Rightarrow> cg_state \<Rightarrow> cg_state" where
  "for_finish VarName s s2 StepVal EndCond0 s11 =
     (let TheFunction = getParent s;
          Alloca = next_id s;
          LoopBB = next_id s2;
          OldVal = resolve s2 VarName;
          (CurVar, s12) = CreateLoad Alloca VarName s11;
          (NextVar, s13) = CreateFAdd CurVar StepVal s12;
          s14 = CreateStore NextVar Alloca s13;
          (EndCond, s15) = CreateFCmpONE EndCond0 (ConstantFP 0) s14;
          (AfterBB, s16) = BasicBlock_Create ''afterloop'' TheFunction s15;
          s17 = CreateCondBr EndCond LoopBB AfterBB s16;
          s18 = SetInsertPoint TheFunction AfterBB s17
      in case OldVal of
           Some a \<Rightarrow> NamedValues_set VarName OldVal s18
         | None \<Rightarrow> NamedValues_erase VarName s18)"

definition var_bind_state :: "fref option \<Rightarrow> string \<Rightarrow> Value \<Rightarrow> cg_state \<Rightarrow> cg_state" where
  "var_bind_state TheFunction VarName InitVal s1 =
     (let (Alloca, s2) = CreateEntryBlockAlloca TheFunction VarName s1;
          s3 = CreateStore InitVal Alloca s2;
          (old, s4) = NamedValues_at VarName s3
      in NamedValues_set VarName (Some Alloca) s4)"

text \<open>Lowering an optional child: the step of a loop, the initializer of a binding.\<close>

definition Codegen_opt :: "real \<Rightarrow> ExprAST option \<Rightarrow> cg_state \<Rightarrow> Value result \<times> cg_state" where
  "Codegen_opt d e s = (case e of Some x \<Rightarrow> Codegen x s | None \<Rightarrow> (Ok (ConstantFP d), s))"

text \<open>Two runs of a lowering that end alike: the same outcome, in equivalent states.\<close>

definition sim :: "'a result \<times> cg_state \<Rightarrow> 'a result \<times> cg_state \<Rightarrow> bool" where
  "sim p q = (fst p = fst q \<and> scope_equiv (snd p) (snd q))"


section \<open>Notions for what a lowering leaves behind\<close>

text \<open>
  The instructions of the block the builder points to, in order; this reads the module
  the way the interpreter above does, with \<open>find_block\<close>.
\<close>

definition cur_insts :: "cg_state \<Rightarrow> instr list option" where
  "cur_insts s =
     (case InsertBlock s of
        None \<Rightarrow> None
      | Some (F, b) \<Rightarrow>
          (case TheModule s F of None \<Rightarrow> None | Some fn \<Rightarrow> find_block (blocks fn) b))"

text \<open>
  Following the spec's words (lower each argument left-to-right): the expressions \<open>es\<close>
  are lowered by \<open>Codegen\<close> one after the other from \<open>s\<close>, each in the state its
  predecessor left, all with success, and give the values \<open>vs\<close> and the state \<open>s'\<close>.
\<close>

fun lowered_in_order :: "ExprAST list \<Rightarrow> cg_state \<Rightarrow> Value list \<Rightarrow> cg_state \<Rightarrow> bool" where
  "lowered_in_order [] s vs s' = (vs = [] \<and> s' = s)"
| "lowered_in_order (e # es) s vs s' =
     (case vs of
        [] \<Rightarrow> False
      | v # vs' \<Rightarrow> fst (Codegen e s) = Ok v \<and> lowered_in_order es (snd (Codegen e s)) vs' s')"

text \<open>
  The state in which FunctionAST::Codegen lowers the body of \<open>def f(a) ...\<close> when only
  \<open>extern g(a b c)\<close> has been submitted before: the entry block of \<open>f\<close> is the
  insertion point and holds the alloca of \<open>a\<close> and the store of the argument into it.
\<close>

definition def_f_proto :: PrototypeAST where
  "def_f_proto = \<lparr>ProtoName = ''f'', ProtoArgs = [''a''], Role = NoOperator\<rparr>"

definition in_body_f :: cg_state where
  "in_body_f =
     FunctionAST_prologue def_f_proto (Named ''f'')
       (snd (PrototypeAST_Codegen def_f_proto (with_g3\<lparr>NamedValues := Map.empty\<rparr>)))"

text \<open>The body state of \<open>f\<close> after \<open>a\<close> has been lowered once, and twice.\<close>

definition after_load_a :: cg_state where
  "after_load_a = emit (Load 2 1 ''a'') (in_body_f\<lparr>next_id := 3\<rparr>)"

definition after_load_a_a :: cg_state where
  "after_load_a_a = emit (Load 3 1 ''a'') (after_load_a\<lparr>next_id := 4\<rparr>)"

text \<open>From \<open>s\<close> to \<open>s'\<close> no function has lost its body.\<close>

definition keeps_bodies :: "cg_state \<Rightarrow> cg_state \<Rightarrow> bool" where
  "keeps_bodies s s' = (\<forall>F. fn_empty s' F \<longrightarrow> fn_empty s F)"


text \<open>
  Following the spec's words (for each pair in order, lower the initializer, then bind
  the name): the pairs \<open>bs\<close> are processed one after the other from \<open>s\<close>, each
  initializer lowered by \<open>Codegen\<close> in the state its predecessor's binding left, all with
  success, and leave the state \<open>s'\<close>, in which whatever follows the pairs is lowered.
\<close>

fun bound_in_order ::
  "(string \<times> ExprAST option) list \<Rightarrow> fref option \<Rightarrow> cg_state \<Rightarrow> cg_state \<Rightarrow> bool" where
  "bound_in_order [] F s s' = (s' = s)"
| "bound_in_order ((n, i) # bs) F s s' =
     (case Codegen_opt 0 i s of
        (Ok v, s1) \<Rightarrow> bound_in_order bs F (var_bind_state F n v s1) s'
      | (Null, s1) \<Rightarrow> False
      | (Abort, s1) \<Rightarrow> False)"

section \<open>What the primitive operations leave alone\<close>

lemma upd_func_fields [simp]:
  "NamedValues (upd_func F g s) = NamedValues s"
  "next_id (upd_func F g s) = next_id s"
  "InsertBlock (upd_func F g s) = InsertBlock s"
  "errs (upd_func F g s) = errs s"
  "BinopPrecedence (upd_func F g s) = BinopPrecedence s"
  by (simp_all add: upd_func_def)

lemma emit_fields [simp]:
  "NamedValues (emit i s) = NamedValues s"
  "next_id (emit i s) = next_id s"
  "InsertBlock (emit i s) = InsertBlock s"
  "errs (emit i s) = errs s"
  "BinopPrecedence (emit i s) = BinopPrecedence s"
  by (simp_all add: emit_def split: option.splits prod.splits)

lemma push_back_fields [simp]:
  "NamedValues (push_back F b nm s) = NamedValues s"
  "next_id (push_back F b nm s) = next_id s"
  "InsertBlock (push_back F b nm s) = InsertBlock s"
  "errs (push_back F b nm s) = errs s"
  "BinopPrecedence (push_back F b nm s) = BinopPrecedence s"
  by (simp_all add: push_back_def split: option.splits)

lemma CreateEntryBlockAlloca_fields [simp]:
  "fst (CreateEntryBlockAlloca F nm s) = next_id s"
  "NamedValues (snd (CreateEntryBlockAlloca F nm s)) = NamedValues s"
  "next_id (snd (CreateEntryBlockAlloca F nm s)) = next_id s + 1"
  "InsertBlock (snd (CreateEntryBlockAlloca F nm s)) = InsertBlock s"
  "errs (snd (CreateEntryBlockAlloca F nm s)) = errs s"
  "BinopPrecedence (snd (CreateEntryBlockAlloca F nm s)) = BinopPrecedence s"
  by (simp_all add: CreateEntryBlockAlloca_def fresh_def split: option.splits)

lemma resolve_cong: "NamedValues t = NamedValues s \<Longrightarrow> resolve t = resolve s"
  by (simp add: resolve_def fun_eq_iff)

lemma resolve_prims [simp]:
  "resolve (upd_func F g s) = resolve s"
  "resolve (emit i s) = resolve s"
  "resolve (push_back T b nm s) = resolve s"
  "resolve (snd (CreateEntryBlockAlloca T nm s)) = resolve s"
  "resolve (s\<lparr>next_id := k\<rparr>) = resolve s"
  "resolve (s\<lparr>errs := es\<rparr>) = resolve s"
  "resolve (s\<lparr>InsertBlock := ib\<rparr>) = resolve s"
  "resolve (s\<lparr>TheModule := M\<rparr>) = resolve s"
  "resolve (s\<lparr>BinopPrecedence := bp\<rparr>) = resolve s"
  by (simp_all add: resolve_def fun_eq_iff)

lemma resolve_NamedValues_set [simp]:
  "resolve (NamedValues_set n p s) = (resolve s)(n := p)"
  by (auto simp: resolve_def NamedValues_set_def fun_eq_iff split: option.splits)

lemma resolve_NamedValues_erase [simp]:
  "resolve (NamedValues_erase n s) = (resolve s)(n := None)"
  by (auto simp: resolve_def NamedValues_erase_def fun_eq_iff split: option.splits)

lemma NamedValues_at_resolve [simp]:
  "fst (NamedValues_at n s) = resolve s n"
  "resolve (snd (NamedValues_at n s)) = resolve s"
  by (auto simp: resolve_def NamedValues_at_def fun_eq_iff split: option.splits)

lemma NamedValues_at_fields [simp]:
  "next_id (snd (NamedValues_at n s)) = next_id s"
  "InsertBlock (snd (NamedValues_at n s)) = InsertBlock s"
  "errs (snd (NamedValues_at n s)) = errs s"
  "TheModule (snd (NamedValues_at n s)) = TheModule s"
  "BinopPrecedence (snd (NamedValues_at n s)) = BinopPrecedence s"
  by (simp_all add: NamedValues_at_def split: option.splits)

lemma NamedValues_set_fields [simp]:
  "next_id (NamedValues_set n p s) = next_id s"
  "InsertBlock (NamedValues_set n p s) = InsertBlock s"
  "errs (NamedValues_set n p s) = errs s"
  "TheModule (NamedValues_set n p s) = TheModule s"
  "BinopPrecedence (NamedValues_set n p s) = BinopPrecedence s"
  "next_id (NamedValues_erase n s) = next_id s"
  "InsertBlock (NamedValues_erase n s) = InsertBlock s"
  "errs (NamedValues_erase n s) = errs s"
  "TheModule (NamedValues_erase n s) = TheModule s"
  "BinopPrecedence (NamedValues_erase n s) = BinopPrecedence s"
  by (simp_all add: NamedValues_set_def NamedValues_erase_def)

text \<open>The builder operations that return a value, as pairs.\<close>

lemmas value_builder_defs = CreateLoad_def CreateFAdd_def CreateFSub_def CreateFMul_def
  CreateFCmpULT_def CreateFCmpONE_def CreateUIToFP_def CreateCall_def CreatePHI_def
  BasicBlock_new_def BasicBlock_Create_def fresh_def ErrorV_def

lemmas unit_builder_defs = CreateStore_def CreateBr_def CreateCondBr_def CreateRet_def
  SetInsertPoint_def


section \<open>The shape of the structured cases\<close>

lemma getParent_prims [simp]:
  "getParent (emit i s) = getParent s"
  "getParent (push_back T b nm s) = getParent s"
  "getParent (upd_func F g s) = getParent s"
  "getParent (s\<lparr>next_id := k\<rparr>) = getParent s"
  "getParent (snd (CreateEntryBlockAlloca T nm s)) = getParent s"
  by (simp_all add: getParent_def)

lemma Codegen_If:
  "Codegen (IfExprAST Cond Then Else) s =
     (case Codegen Cond s of
        (Ok CondV0, s1) \<Rightarrow>
          (case Codegen Then (if_then_state CondV0 s1) of
             (Ok ThenV, s8) \<Rightarrow>
               (case Codegen Else (if_else_state s1 s8) of
                  (Ok ElseV, s12) \<Rightarrow>
                    (Ok (fst (if_merge s1 ThenV s8 ElseV s12)), snd (if_merge s1 ThenV s8 ElseV s12))
                | (Null, s12) \<Rightarrow> (Null, s12)
                | (Abort, s12) \<Rightarrow> (Abort, s12))
           | (Null, s8) \<Rightarrow> (Null, s8)
           | (Abort, s8) \<Rightarrow> (Abort, s8))
      | (Null, s1) \<Rightarrow> (Null, s1)
      | (Abort, s1) \<Rightarrow> (Abort, s1))"
  by (simp add: if_then_state_def if_else_state_def if_merge_def Let_def case_prod_beta
      value_builder_defs unit_builder_defs GetInsertBlock_def eval_nat_numeral
      split: prod.split result.split)

lemma Codegen_For:
  "Codegen (ForExprAST VarName Start End Step Body) s =
     (case Codegen Start (for_start_state VarName s) of
        (Ok StartVal, s2) \<Rightarrow>
          (case Codegen Body (for_body_state VarName s StartVal s2) of
             (Ok BodyV, s9) \<Rightarrow>
               (case Codegen_opt 1 Step s9 of
                  (Ok StepVal, s10) \<Rightarrow>
                    (case Codegen End s10 of
                       (Ok EndCond0, s11) \<Rightarrow>
                         (Ok (ConstantFP 0), for_finish VarName s s2 StepVal EndCond0 s11)
                     | (Null, s11) \<Rightarrow> (Null, s11)
                     | (Abort, s11) \<Rightarrow> (Abort, s11))
                | (Null, s10) \<Rightarrow> (Null, s10)
                | (Abort, s10) \<Rightarrow> (Abort, s10))
           | (Null, s9) \<Rightarrow> (Null, s9)
           | (Abort, s9) \<Rightarrow> (Abort, s9))
      | (Null, s2) \<Rightarrow> (Null, s2)
      | (Abort, s2) \<Rightarrow> (Abort, s2))"
  by (simp add: for_start_state_def for_body_state_def for_finish_def Codegen_opt_def Let_def
      case_prod_beta value_builder_defs unit_builder_defs
      cong: result.case_cong option.case_cong)

lemma Codegen_VarNames_Cons:
  "Codegen_VarNames ((VarName, Init) # rest) TheFunction OldBindings s =
     (case Codegen_opt 0 Init s of
        (Ok InitVal, s1) \<Rightarrow>
          Codegen_VarNames rest TheFunction (OldBindings @ [resolve s1 VarName])
            (var_bind_state TheFunction VarName InitVal s1)
      | (Null, s1) \<Rightarrow> (Null, s1)
      | (Abort, s1) \<Rightarrow> (Abort, s1))"
  by (simp add: var_bind_state_def Codegen_opt_def Let_def case_prod_beta unit_builder_defs
      cong: result.case_cong option.case_cong)

lemma step_states_resolve [simp]:
  "resolve (if_then_state cv s1) = resolve s1"
  "resolve (if_else_state s1 s8) = resolve s8"
  "resolve (snd (if_merge s1 tv s8 ev s12)) = resolve s12"
  "resolve (for_start_state n s) = resolve s"
  "resolve (for_body_state n s v s2) = (resolve s2)(n \<mapsto> next_id s)"
  "resolve (for_finish n s s2 sv ec s11) = (resolve s11)(n := resolve s2 n)"
  "resolve (var_bind_state F n v s1) = (resolve s1)(n \<mapsto> next_id s1)"
  by (auto simp: if_then_state_def if_else_state_def if_merge_def for_start_state_def
      for_body_state_def for_finish_def var_bind_state_def Let_def case_prod_beta
      value_builder_defs unit_builder_defs split: option.splits)

lemma step_states_next_id [simp]:
  "next_id (if_then_state cv s1) = next_id s1 + 4"
  "next_id (if_else_state s1 s8) = next_id s8"
  "next_id (snd (if_merge s1 tv s8 ev s12)) = next_id s12 + 1"
  "next_id (for_start_state n s) = next_id s + 1"
  "next_id (for_body_state n s v s2) = next_id s2 + 1"
  "next_id (for_finish n s s2 sv ec s11) = next_id s11 + 4"
  "next_id (var_bind_state F n v s1) = next_id s1 + 1"
  by (auto simp: if_then_state_def if_else_state_def if_merge_def for_start_state_def
      for_body_state_def for_finish_def var_bind_state_def Let_def case_prod_beta
      value_builder_defs unit_builder_defs split: option.splits)

declare Codegen.simps(6,7) [simp del]

declare Codegen_VarNames.simps(2) [simp del]

lemma Codegen_opt_simps [simp]:
  "Codegen_opt d None s = (Ok (ConstantFP d), s)"
  "Codegen_opt d (Some e) s = Codegen e s"
  by (simp_all add: Codegen_opt_def)


section \<open>Evaluating the definitions\<close>

lemmas builder_defs = CreateLoad_def CreateStore_def CreateFAdd_def CreateFSub_def CreateFMul_def
  CreateFCmpULT_def CreateFCmpONE_def CreateUIToFP_def CreateCall_def CreateBr_def CreateCondBr_def
  CreatePHI_def CreateRet_def BasicBlock_new_def BasicBlock_Create_def fresh_def ErrorV_def
  SetInsertPoint_def NamedValues_at_def NamedValues_set_def NamedValues_erase_def

lemmas cg_defs = FunctionAST_Codegen_def FunctionAST_prologue_def PrototypeAST_Codegen_def
  toplevel_def initial_state_def getFunction_def Function_Create_def setNames_def upd_func_def
  isBinaryOp_def getOperatorName_def getBinaryPrecedence_def push_back_def GetInsertBlock_def
  CreateEntryBlockAlloca_def prepend_entry_def getParent_def emit_def append_inst_def
  callee_arg_size_def fn_empty_def ErrorF_def eraseFromParent_def Let_def builder_defs
  Codegen.simps Codegen_VarNames.simps

lemmas rt_defs = run_def eval_value_def eval_double_def eval_bool_def set_reg_def binop_double_def

section \<open>C1: the counted loop of the example\<close>

lemma for_example_lowered:
  "\<exists>s. FunctionAST_Codegen (toplevel for_example) with_putchard = (Ok (Anon 0), s)
     \<and> TheModule s =
         [Named ''putchard'' \<mapsto> \<lparr>arg_size = 1, arg_names = [''x''], blocks = []\<rparr>,
          Anon 0 \<mapsto> for_example_ir]"
  by (simp add: cg_defs for_example_def with_putchard_def putchard_proto_def for_example_ir_def
      eval_nat_numeral)

lemma for_example_run:
  "run 60 [Named ''putchard'' \<mapsto> \<lparr>arg_size = 1, arg_names = [''x''], blocks = []\<rparr>,
           Anon 0 \<mapsto> for_example_ir] ext (Anon 0) [] =
     Some (0, [(Named ''putchard'', [1]), (Named ''putchard'', [2]),
               (Named ''putchard'', [3]), (Named ''putchard'', [4])])"
  by (simp add: for_example_ir_def rt_defs
      cong: instr.case_cong_weak option.case_cong_weak list.case_cong_weak prod.case_cong_weak)

text \<open>
  C1, as the code has it. Lowering \<open>for i = 1, i < 4, 1.0 in putchard(i)\<close> at top level
  (with \<open>putchard\<close> declared) succeeds and builds \<open>for_example_ir\<close>: the end condition
  \<open>i < 4\<close> is computed in the loop block from the value of \<open>i\<close> before the step is
  added. Run, the function calls \<open>putchard\<close> four times, with \<open>i\<close> = 1, 2, 3 and 4,
  whatever \<open>putchard\<close> returns, and returns the loop's own value, the constant 0.0.
\<close>

theorem C1_for_example_body_runs_four_times:
  "\<exists>s. FunctionAST_Codegen (toplevel for_example) with_putchard = (Ok (Anon 0), s)
     \<and> TheModule s (Anon 0) = Some for_example_ir
     \<and> run 60 (TheModule s) ext (Anon 0) [] =
         Some (0, [(Named ''putchard'', [1]), (Named ''putchard'', [2]),
                   (Named ''putchard'', [3]), (Named ''putchard'', [4])])"
proof -
  obtain s where s: "FunctionAST_Codegen (toplevel for_example) with_putchard = (Ok (Anon 0), s)"
    and M: "TheModule s =
         [Named ''putchard'' \<mapsto> \<lparr>arg_size = 1, arg_names = [''x''], blocks = []\<rparr>,
          Anon 0 \<mapsto> for_example_ir]"
    using for_example_lowered by blast
  have "TheModule s (Anon 0) = Some for_example_ir"
    by (simp add: M)
  moreover have "run 60 (TheModule s) ext (Anon 0) [] =
         Some (0, [(Named ''putchard'', [1]), (Named ''putchard'', [2]),
                   (Named ''putchard'', [3]), (Named ''putchard'', [4])])"
    unfolding M by (rule for_example_run)
  ultimately show ?thesis using s by blast
qed

text \<open>
  C1 as stated fails: the body is run a fourth time, with \<open>i\<close> = 4.
\<close>

theorem C1_counterexample:
  "fst (FunctionAST_Codegen (toplevel for_example) with_putchard) = Ok (Anon 0)
   \<and> run 60 (TheModule (snd (FunctionAST_Codegen (toplevel for_example) with_putchard)))
        ext_zero (Anon 0) [] =
       Some (0, [(Named ''putchard'', [1]), (Named ''putchard'', [2]),
                 (Named ''putchard'', [3]), (Named ''putchard'', [4])])"
proof -
  obtain s where s: "FunctionAST_Codegen (toplevel for_example) with_putchard = (Ok (Anon 0), s)"
    and M: "TheModule s =
         [Named ''putchard'' \<mapsto> \<lparr>arg_size = 1, arg_names = [''x''], blocks = []\<rparr>,
          Anon 0 \<mapsto> for_example_ir]"
    using for_example_lowered by blast
  show ?thesis
    unfolding s fst_conv snd_conv M by (intro conjI refl for_example_run)
qed

section \<open>C4: the operands of a built-in operator\<close>

text \<open>
  C4, as the code has it. In an application of \<open>+\<close>, \<open>-\<close>, \<open>*\<close> or \<open><\<close> the right
  operand is lowered after the left one even when the left one has failed, in the state
  the left one left; then the application fails (or the process has stopped inside
  the right operand).
\<close>

theorem C4_right_operand_lowered_after_left_failure:
  assumes "Op \<in> {CHR ''+'', CHR ''-'', CHR ''*'', CHR ''<''}"
    and "Codegen LHS s = (Null, s1)"
    and "Codegen RHS s1 = (R, s2)"
  shows "Codegen (BinaryExprAST Op LHS RHS) s = (if R = Abort then Abort else Null, s2)"
  using assms by (cases R) auto

lemma unbound_x_y:
  "Codegen (VariableExprAST ''x'') initial_state =
     (Null, initial_state\<lparr>NamedValues := [''x'' \<mapsto> None], errs := [''Unknown variable name'']\<rparr>)"
  "Codegen (VariableExprAST ''y'')
       (initial_state\<lparr>NamedValues := [''x'' \<mapsto> None], errs := [''Unknown variable name'']\<rparr>) =
     (Null, initial_state\<lparr>NamedValues := [''x'' \<mapsto> None, ''y'' \<mapsto> None],
              errs := [''Unknown variable name'', ''Unknown variable name'']\<rparr>)"
  by (simp_all add: cg_defs)

theorem C4_witness:
  "CHR ''+'' \<in> {CHR ''+'', CHR ''-'', CHR ''*'', CHR ''<''}
   \<and> Codegen (VariableExprAST ''x'') initial_state =
       (Null, initial_state\<lparr>NamedValues := [''x'' \<mapsto> None], errs := [''Unknown variable name'']\<rparr>)
   \<and> Codegen (BinaryExprAST (CHR ''+'') (VariableExprAST ''x'') (VariableExprAST ''y''))
         initial_state =
       (Null, initial_state\<lparr>NamedValues := [''x'' \<mapsto> None, ''y'' \<mapsto> None],
                errs := [''Unknown variable name'', ''Unknown variable name'']\<rparr>)"
  using C4_right_operand_lowered_after_left_failure [OF _ unbound_x_y(1) unbound_x_y(2), of "CHR ''+''"]
    unbound_x_y(1)
  by simp

text \<open>
  C4 as stated fails: with \<open>x\<close> and \<open>y\<close> unbound, lowering \<open>x + y\<close> reports the unknown
  variable twice and enters \<open>y\<close> in the scope table, so the right operand was lowered
  although the left one had failed.
\<close>

theorem C4_counterexample:
  "fst (Codegen (VariableExprAST ''x'') initial_state) = Null
   \<and> errs (snd (Codegen (BinaryExprAST (CHR ''+'') (VariableExprAST ''x'') (VariableExprAST ''y''))
                  initial_state)) =
       [''Unknown variable name'', ''Unknown variable name'']
   \<and> NamedValues (snd (Codegen (BinaryExprAST (CHR ''+'') (VariableExprAST ''x'')
                                   (VariableExprAST ''y'')) initial_state)) ''y'' = Some None
   \<and> NamedValues initial_state ''y'' = None"
  by (simp add: cg_defs)


section \<open>Reading the block under construction\<close>

lemma find_block_append_inst:
  "find_block (map (append_inst b i) Bs) b = map_option (\<lambda>is. is @ [i]) (find_block Bs b)"
  by (induction Bs) (auto simp: append_inst_def)

lemma cur_insts_emit: "cur_insts s = Some is \<Longrightarrow> cur_insts (emit i s) = Some (is @ [i])"
  by (auto simp: cur_insts_def emit_def upd_func_def find_block_append_inst
      split: option.splits prod.splits)

lemma cur_insts_next_id [simp]: "cur_insts (s\<lparr>next_id := k\<rparr>) = cur_insts s"
  by (simp add: cur_insts_def cong: option.case_cong prod.case_cong)

lemma cur_insts_scope [simp]:
  "cur_insts (s\<lparr>NamedValues := m\<rparr>) = cur_insts s"
  "cur_insts (s\<lparr>errs := e\<rparr>) = cur_insts s"
  by (simp_all add: cur_insts_def cong: option.case_cong prod.case_cong)

text \<open>The body state of \<open>def f(a)\<close>, computed.\<close>

lemma in_body_f_eq:
  "in_body_f =
     \<lparr>NamedValues = [''a'' \<mapsto> Some 1],
      TheModule =
        [Named ''g'' \<mapsto> \<lparr>arg_size = 3, arg_names = [''a'', ''b'', ''c''], blocks = []\<rparr>,
         Named ''f'' \<mapsto>
           \<lparr>arg_size = 1, arg_names = [''a''],
            blocks = [\<lparr>bb_id = 0, bb_name = ''entry'',
                       bb_insts = [Alloca 1 ''a'', Store (ArgV 0) 1]\<rparr>]\<rparr>],
      BinopPrecedence = BinopPrecedence initial_state,
      InsertBlock = Some (Named ''f'', 0),
      next_id = 2,
      errs = []\<rparr>"
  by (simp add: in_body_f_def def_f_proto_def with_g3_def cg_defs eval_nat_numeral)

lemma FunctionAST_Codegen_def_f:
  "FunctionAST_Codegen \<lparr>Proto = def_f_proto, FnBody = e\<rparr> with_g3 =
     (case Codegen e in_body_f of
        (Ok RetVal, s6) \<Rightarrow> (Ok (Named ''f''), CreateRet RetVal s6)
      | (Null, s6) \<Rightarrow> (Null, eraseFromParent (Named ''f'') s6)
      | (Abort, s6) \<Rightarrow> (Abort, s6))"
  by (simp add: FunctionAST_Codegen_def in_body_f_def PrototypeAST_Codegen_def def_f_proto_def
      with_g3_def getFunction_def Function_Create_def initial_state_def isBinaryOp_def Let_def
      setNames_def upd_func_def
      cong: result.case_cong)

section \<open>C7: calls\<close>

lemma Codegen_Args_append:
  "Codegen_Args (pre @ post) vs s =
     (case Codegen_Args pre vs s of
        (Ok vs', s') \<Rightarrow> Codegen_Args post vs' s'
      | (Null, s') \<Rightarrow> (Null, s')
      | (Abort, s') \<Rightarrow> (Abort, s'))"
  by (induction pre arbitrary: vs s) (auto split: prod.split result.split)

lemma Codegen_Args_in_order:
  "lowered_in_order es s vs s' \<Longrightarrow> Codegen_Args es acc s = (Ok (acc @ vs), s')"
proof (induction es arbitrary: s vs acc)
  case Nil
  then show ?case by simp
next
  case (Cons e es)
  then obtain v vs' where vs: "vs = v # vs'" by (cases vs) auto
  obtain r s1 where e: "Codegen e s = (r, s1)" by force
  from Cons.prems vs e have r: "r = Ok v" and rest: "lowered_in_order es s1 vs' s'" by auto
  show ?case using Cons.IH[OF rest, of "acc @ [v]"] e r vs by simp
qed

text \<open>
  C7. A call of an unknown name fails with \<open>Unknown function referenced\<close>, and a call
  with the wrong number of arguments with \<open>Incorrect # arguments passed\<close>; in both
  cases nothing else changes, so no argument has been lowered. Otherwise the arguments
  are lowered by \<open>Codegen\<close> from left to right, each in the state the one before it
  left: when the arguments \<open>pre\<close> have been lowered so and the next one, \<open>A\<close>, fails,
  the call fails in the state \<open>A\<close> left, the arguments \<open>post\<close> untouched; when all have
  been lowered so, one call of the callee on their values, in order, is appended to the
  block under construction, and it is the value of the call expression.
\<close>

theorem C7_call_lowering:
  "(getFunction s Callee = None \<longrightarrow>
      Codegen (CallExprAST Callee Args) s =
        (Null, s\<lparr>errs := errs s @ [''Unknown function referenced'']\<rparr>))
   \<and> (getFunction s Callee = Some F \<and> callee_arg_size s F \<noteq> length Args \<longrightarrow>
      Codegen (CallExprAST Callee Args) s =
        (Null, s\<lparr>errs := errs s @ [''Incorrect # arguments passed'']\<rparr>))
   \<and> (getFunction s Callee = Some F \<and> callee_arg_size s F = length (pre @ A # post)
       \<and> lowered_in_order pre s vs s1 \<and> Codegen A s1 = (Null, s2) \<longrightarrow>
      Codegen (CallExprAST Callee (pre @ A # post)) s = (Null, s2))
   \<and> (getFunction s Callee = Some F \<and> callee_arg_size s F = length Args
       \<and> lowered_in_order Args s vs s1 \<and> cur_insts s1 = Some is \<longrightarrow>
      fst (Codegen (CallExprAST Callee Args) s) = Ok (InstV (next_id s1))
      \<and> cur_insts (snd (Codegen (CallExprAST Callee Args) s)) =
          Some (is @ [Call (next_id s1) F vs])
      \<and> NamedValues (snd (Codegen (CallExprAST Callee Args) s)) = NamedValues s1
      \<and> errs (snd (Codegen (CallExprAST Callee Args) s)) = errs s1
      \<and> next_id (snd (Codegen (CallExprAST Callee Args) s)) = next_id s1 + 1)"
proof (intro conjI impI)
  assume "getFunction s Callee = None"
  then show "Codegen (CallExprAST Callee Args) s =
        (Null, s\<lparr>errs := errs s @ [''Unknown function referenced'']\<rparr>)"
    by (simp add: ErrorV_def)
next
  assume "getFunction s Callee = Some F \<and> callee_arg_size s F \<noteq> length Args"
  then show "Codegen (CallExprAST Callee Args) s =
        (Null, s\<lparr>errs := errs s @ [''Incorrect # arguments passed'']\<rparr>)"
    by (simp add: ErrorV_def)
next
  assume h: "getFunction s Callee = Some F \<and> callee_arg_size s F = length (pre @ A # post)
       \<and> lowered_in_order pre s vs s1 \<and> Codegen A s1 = (Null, s2)"
  then have "Codegen_Args pre [] s = (Ok vs, s1)"
    using Codegen_Args_in_order[of pre s vs s1 "[]"] by simp
  then show "Codegen (CallExprAST Callee (pre @ A # post)) s = (Null, s2)"
    using h by (simp add: Codegen_Args_append)
next
  assume h: "getFunction s Callee = Some F \<and> callee_arg_size s F = length Args
       \<and> lowered_in_order Args s vs s1 \<and> cur_insts s1 = Some is"
  then have a: "Codegen_Args Args [] s = (Ok vs, s1)"
    using Codegen_Args_in_order[of Args s vs s1 "[]"] by simp
  have eq: "Codegen (CallExprAST Callee Args) s =
      (Ok (InstV (next_id s1)), emit (Call (next_id s1) F vs) (s1\<lparr>next_id := next_id s1 + 1\<rparr>))"
    using h a by (simp add: CreateCall_def fresh_def)
  have c: "cur_insts (s1\<lparr>next_id := next_id s1 + 1\<rparr>) = Some is" using h by simp
  show "fst (Codegen (CallExprAST Callee Args) s) = Ok (InstV (next_id s1))"
    "cur_insts (snd (Codegen (CallExprAST Callee Args) s)) = Some (is @ [Call (next_id s1) F vs])"
    "NamedValues (snd (Codegen (CallExprAST Callee Args) s)) = NamedValues s1"
    "errs (snd (Codegen (CallExprAST Callee Args) s)) = errs s1"
    "next_id (snd (Codegen (CallExprAST Callee Args) s)) = next_id s1 + 1"
    unfolding eq using cur_insts_emit[OF c] by simp_all
qed

text \<open>
  The inputs of the witness, in the body of \<open>def f(a)\<close> with \<open>g\<close> of three parameters
  declared: what lowering \<open>a\<close> and \<open>x\<close> does there.
\<close>

lemma C7_inputs:
  "getFunction in_body_f ''h'' = None"
  "getFunction in_body_f ''g'' = Some (Named ''g'')"
  "callee_arg_size in_body_f (Named ''g'') = 3"
  "lowered_in_order [VariableExprAST ''a''] in_body_f [InstV 2] after_load_a"
  "Codegen (VariableExprAST ''x'') after_load_a =
     (Null, after_load_a\<lparr>NamedValues := [''a'' \<mapsto> Some 1, ''x'' \<mapsto> None],
                          errs := [''Unknown variable name'']\<rparr>)"
  "lowered_in_order [VariableExprAST ''a'', NumberExprAST 1, VariableExprAST ''a''] in_body_f
     [InstV 2, ConstantFP 1, InstV 3] after_load_a_a"
  "cur_insts after_load_a = Some [Alloca 1 ''a'', Store (ArgV 0) 1, Load 2 1 ''a'']"
  "cur_insts after_load_a_a =
     Some [Alloca 1 ''a'', Store (ArgV 0) 1, Load 2 1 ''a'', Load 3 1 ''a'']"
  "next_id after_load_a_a = 4"
  by (simp_all add: after_load_a_a_def after_load_a_def in_body_f_eq cg_defs cur_insts_def
      eval_nat_numeral)

theorem C7_witness:
  "Codegen (CallExprAST ''h'' [VariableExprAST ''a'']) in_body_f =
     (Null, in_body_f\<lparr>errs := errs in_body_f @ [''Unknown function referenced'']\<rparr>)
   \<and> Codegen (CallExprAST ''g'' [VariableExprAST ''a'']) in_body_f =
     (Null, in_body_f\<lparr>errs := errs in_body_f @ [''Incorrect # arguments passed'']\<rparr>)
   \<and> Codegen (CallExprAST ''g'' [VariableExprAST ''a'', VariableExprAST ''x'', VariableExprAST ''a''])
        in_body_f =
     (Null, after_load_a\<lparr>NamedValues := [''a'' \<mapsto> Some 1, ''x'' \<mapsto> None],
                          errs := [''Unknown variable name'']\<rparr>)
   \<and> cur_insts (after_load_a\<lparr>NamedValues := [''a'' \<mapsto> Some 1, ''x'' \<mapsto> None],
                               errs := [''Unknown variable name'']\<rparr>) =
     Some [Alloca 1 ''a'', Store (ArgV 0) 1, Load 2 1 ''a'']
   \<and> fst (Codegen (CallExprAST ''g'' [VariableExprAST ''a'', NumberExprAST 1, VariableExprAST ''a''])
            in_body_f) = Ok (InstV 4)
   \<and> cur_insts (snd (Codegen (CallExprAST ''g''
                          [VariableExprAST ''a'', NumberExprAST 1, VariableExprAST ''a'']) in_body_f)) =
     Some [Alloca 1 ''a'', Store (ArgV 0) 1, Load 2 1 ''a'', Load 3 1 ''a'',
           Call 4 (Named ''g'') [InstV 2, ConstantFP 1, InstV 3]]"
proof -
  let ?a = "VariableExprAST ''a''"
  let ?t = "after_load_a\<lparr>NamedValues := [''a'' \<mapsto> Some 1, ''x'' \<mapsto> None],
                          errs := [''Unknown variable name'']\<rparr>"
  have 1: "Codegen (CallExprAST ''h'' [?a]) in_body_f =
      (Null, in_body_f\<lparr>errs := errs in_body_f @ [''Unknown function referenced'']\<rparr>)"
    using C7_call_lowering [where s = in_body_f and Callee = "''h''" and Args = "[?a]"]
      C7_inputs(1)
    by (simp del: Codegen.simps)
  have 2: "Codegen (CallExprAST ''g'' [?a]) in_body_f =
      (Null, in_body_f\<lparr>errs := errs in_body_f @ [''Incorrect # arguments passed'']\<rparr>)"
    using C7_call_lowering [where s = in_body_f and Callee = "''g''" and Args = "[?a]"
        and F = "Named ''g''"]
      C7_inputs(2,3)
    by (simp del: Codegen.simps)
  have 3: "Codegen (CallExprAST ''g'' ([?a] @ VariableExprAST ''x'' # [?a])) in_body_f = (Null, ?t)"
    using C7_call_lowering [where s = in_body_f and Callee = "''g''" and F = "Named ''g''"
        and pre = "[?a]" and A = "VariableExprAST ''x''" and post = "[?a]" and vs = "[InstV 2]"
        and ?s1.0 = after_load_a and ?s2.0 = ?t]
      C7_inputs(2,3,4,5)
    by (simp del: Codegen.simps Codegen_Args.simps lowered_in_order.simps)
  have 4: "cur_insts ?t = Some [Alloca 1 ''a'', Store (ArgV 0) 1, Load 2 1 ''a'']"
    using C7_inputs(7) by simp
  have 5: "fst (Codegen (CallExprAST ''g'' [?a, NumberExprAST 1, ?a]) in_body_f) = Ok (InstV 4)
    \<and> cur_insts (snd (Codegen (CallExprAST ''g'' [?a, NumberExprAST 1, ?a]) in_body_f)) =
        Some ([Alloca 1 ''a'', Store (ArgV 0) 1, Load 2 1 ''a'', Load 3 1 ''a'']
              @ [Call 4 (Named ''g'') [InstV 2, ConstantFP 1, InstV 3]])"
    using C7_call_lowering [where s = in_body_f and Callee = "''g''" and F = "Named ''g''"
        and Args = "[?a, NumberExprAST 1, ?a]" and vs = "[InstV 2, ConstantFP 1, InstV 3]"
        and ?s1.0 = after_load_a_a
        and ?is = "[Alloca 1 ''a'', Store (ArgV 0) 1, Load 2 1 ''a'', Load 3 1 ''a'']"]
      C7_inputs(2,3,6,8,9)
    by (simp del: Codegen.simps Codegen_Args.simps lowered_in_order.simps)
  from 1 2 3 4 5 show ?thesis by (simp del: Codegen.simps Codegen_Args.simps)
qed

section \<open>C8: assignment\<close>

text \<open>
  C8. When the left operand of \<open>=\<close> is not a variable reference, lowering fails with
  \<open>destination of '=' must be a variable\<close> and nothing else changes: nothing has been
  lowered. When it is the variable \<open>n\<close>, only the right operand is lowered. If that
  fails, the assignment fails in the state it left. Otherwise \<open>n\<close> is looked up in
  the state the right operand left: without a binding (no entry, or a null one) the
  assignment fails with \<open>Unknown variable name\<close>; with the binding \<open>a\<close>, exactly one
  instruction is appended to the block under construction, the store of the right
  operand's value into \<open>a\<close>, and the value of the assignment is that stored value.
\<close>

theorem C8_assignment:
  "((\<forall>n. LHS \<noteq> VariableExprAST n) \<longrightarrow>
      Codegen (BinaryExprAST (CHR ''='') LHS RHS) s =
        (Null, s\<lparr>errs := errs s @ [''destination of '=' must be a variable'']\<rparr>))
   \<and> (Codegen RHS s = (Null, s1) \<longrightarrow>
      Codegen (BinaryExprAST (CHR ''='') (VariableExprAST n) RHS) s = (Null, s1))
   \<and> (Codegen RHS s = (Ok Val, s1) \<and> (NamedValues s1 n = None \<or> NamedValues s1 n = Some None) \<longrightarrow>
      Codegen (BinaryExprAST (CHR ''='') (VariableExprAST n) RHS) s =
        (Null, s1\<lparr>NamedValues := (NamedValues s1)(n \<mapsto> None),
                  errs := errs s1 @ [''Unknown variable name'']\<rparr>))
   \<and> (Codegen RHS s = (Ok Val, s1) \<and> NamedValues s1 n = Some (Some a)
       \<and> cur_insts s1 = Some is \<longrightarrow>
      fst (Codegen (BinaryExprAST (CHR ''='') (VariableExprAST n) RHS) s) = Ok Val
      \<and> cur_insts (snd (Codegen (BinaryExprAST (CHR ''='') (VariableExprAST n) RHS) s)) =
          Some (is @ [Store Val a])
      \<and> NamedValues (snd (Codegen (BinaryExprAST (CHR ''='') (VariableExprAST n) RHS) s)) =
          NamedValues s1
      \<and> errs (snd (Codegen (BinaryExprAST (CHR ''='') (VariableExprAST n) RHS) s)) = errs s1
      \<and> next_id (snd (Codegen (BinaryExprAST (CHR ''='') (VariableExprAST n) RHS) s)) =
          next_id s1)"
proof (intro conjI impI)
  assume "\<forall>n. LHS \<noteq> VariableExprAST n"
  then show "Codegen (BinaryExprAST (CHR ''='') LHS RHS) s =
        (Null, s\<lparr>errs := errs s @ [''destination of '=' must be a variable'']\<rparr>)"
    by (cases LHS) (auto simp: ErrorV_def)
next
  assume "Codegen RHS s = (Null, s1)"
  then show "Codegen (BinaryExprAST (CHR ''='') (VariableExprAST n) RHS) s = (Null, s1)"
    by simp
next
  assume "Codegen RHS s = (Ok Val, s1) \<and> (NamedValues s1 n = None \<or> NamedValues s1 n = Some None)"
  then show "Codegen (BinaryExprAST (CHR ''='') (VariableExprAST n) RHS) s =
        (Null, s1\<lparr>NamedValues := (NamedValues s1)(n \<mapsto> None),
                  errs := errs s1 @ [''Unknown variable name'']\<rparr>)"
    by (auto simp: NamedValues_at_def ErrorV_def fun_upd_idem)
next
  assume h: "Codegen RHS s = (Ok Val, s1) \<and> NamedValues s1 n = Some (Some a)
       \<and> cur_insts s1 = Some is"
  then have eq: "Codegen (BinaryExprAST (CHR ''='') (VariableExprAST n) RHS) s =
      (Ok Val, emit (Store Val a) s1)"
    by (simp add: NamedValues_at_def CreateStore_def)
  show "fst (Codegen (BinaryExprAST (CHR ''='') (VariableExprAST n) RHS) s) = Ok Val"
    "cur_insts (snd (Codegen (BinaryExprAST (CHR ''='') (VariableExprAST n) RHS) s)) =
          Some (is @ [Store Val a])"
    "NamedValues (snd (Codegen (BinaryExprAST (CHR ''='') (VariableExprAST n) RHS) s)) =
          NamedValues s1"
    "errs (snd (Codegen (BinaryExprAST (CHR ''='') (VariableExprAST n) RHS) s)) = errs s1"
    "next_id (snd (Codegen (BinaryExprAST (CHR ''='') (VariableExprAST n) RHS) s)) = next_id s1"
    unfolding eq using h cur_insts_emit[of s1 "is" "Store Val a"] by simp_all
qed

lemma C8_inputs:
  "\<forall>n. NumberExprAST 3 \<noteq> VariableExprAST n"
  "Codegen (VariableExprAST ''x'') in_body_f =
     (Null, in_body_f\<lparr>NamedValues := [''a'' \<mapsto> Some 1, ''x'' \<mapsto> None],
                       errs := [''Unknown variable name'']\<rparr>)"
  "Codegen (VariableExprAST ''a'') in_body_f = (Ok (InstV 2), after_load_a)"
  "NamedValues after_load_a ''y'' = None"
  "NamedValues after_load_a = [''a'' \<mapsto> Some 1]"
  "errs after_load_a = []"
  "Codegen (NumberExprAST 5) in_body_f = (Ok (ConstantFP 5), in_body_f)"
  "NamedValues in_body_f ''a'' = Some (Some 1)"
  "cur_insts in_body_f = Some [Alloca 1 ''a'', Store (ArgV 0) 1]"
  by (simp_all add: after_load_a_def in_body_f_eq cg_defs cur_insts_def eval_nat_numeral)

theorem C8_witness:
  "Codegen (BinaryExprAST (CHR ''='') (NumberExprAST 3) (VariableExprAST ''a'')) in_body_f =
     (Null, in_body_f\<lparr>errs := errs in_body_f @ [''destination of '=' must be a variable'']\<rparr>)
   \<and> Codegen (BinaryExprAST (CHR ''='') (VariableExprAST ''a'') (VariableExprAST ''x'')) in_body_f =
     (Null, in_body_f\<lparr>NamedValues := [''a'' \<mapsto> Some 1, ''x'' \<mapsto> None],
                       errs := [''Unknown variable name'']\<rparr>)
   \<and> Codegen (BinaryExprAST (CHR ''='') (VariableExprAST ''y'') (VariableExprAST ''a'')) in_body_f =
     (Null, after_load_a\<lparr>NamedValues := [''a'' \<mapsto> Some 1, ''y'' \<mapsto> None],
                          errs := [''Unknown variable name'']\<rparr>)
   \<and> fst (Codegen (BinaryExprAST (CHR ''='') (VariableExprAST ''a'') (NumberExprAST 5)) in_body_f) =
     Ok (ConstantFP 5)
   \<and> cur_insts (snd (Codegen (BinaryExprAST (CHR ''='') (VariableExprAST ''a'') (NumberExprAST 5))
                          in_body_f)) =
     Some [Alloca 1 ''a'', Store (ArgV 0) 1, Store (ConstantFP 5) 1]"
proof -
  let ?a = "VariableExprAST ''a''"
  have 1: "Codegen (BinaryExprAST (CHR ''='') (NumberExprAST 3) ?a) in_body_f =
      (Null, in_body_f\<lparr>errs := errs in_body_f @ [''destination of '=' must be a variable'']\<rparr>)"
    using C8_assignment [where LHS = "NumberExprAST 3" and RHS = ?a and s = in_body_f]
      C8_inputs(1)
    by (simp del: Codegen.simps)
  have 2: "Codegen (BinaryExprAST (CHR ''='') ?a (VariableExprAST ''x'')) in_body_f =
      (Null, in_body_f\<lparr>NamedValues := [''a'' \<mapsto> Some 1, ''x'' \<mapsto> None],
                        errs := [''Unknown variable name'']\<rparr>)"
    using C8_assignment [where RHS = "VariableExprAST ''x''" and s = in_body_f and n = "''a''"
        and ?s1.0 = "in_body_f\<lparr>NamedValues := [''a'' \<mapsto> Some 1, ''x'' \<mapsto> None],
                      errs := [''Unknown variable name'']\<rparr>"]
      C8_inputs(2)
    by (simp del: Codegen.simps)
  have 3: "Codegen (BinaryExprAST (CHR ''='') (VariableExprAST ''y'') ?a) in_body_f =
      (Null, after_load_a\<lparr>NamedValues := [''a'' \<mapsto> Some 1, ''y'' \<mapsto> None],
                           errs := [''Unknown variable name'']\<rparr>)"
    using C8_assignment [where RHS = ?a and s = in_body_f and n = "''y''"
        and ?s1.0 = after_load_a and Val = "InstV 2"]
      C8_inputs(3,4,5,6)
    by (simp del: Codegen.simps)
  have 4: "fst (Codegen (BinaryExprAST (CHR ''='') ?a (NumberExprAST 5)) in_body_f) =
      Ok (ConstantFP 5)
    \<and> cur_insts (snd (Codegen (BinaryExprAST (CHR ''='') ?a (NumberExprAST 5)) in_body_f)) =
      Some ([Alloca 1 ''a'', Store (ArgV 0) 1] @ [Store (ConstantFP 5) 1])"
    using C8_assignment [where RHS = "NumberExprAST 5" and s = in_body_f and n = "''a''"
        and ?s1.0 = in_body_f and Val = "ConstantFP 5" and a = 1
        and ?is = "[Alloca 1 ''a'', Store (ArgV 0) 1]"]
      C8_inputs(7,8,9)
    by (simp del: Codegen.simps)
  from 1 2 3 4 show ?thesis by (simp del: Codegen.simps)
qed

section \<open>Scope restoration on success\<close>

lemma resolve_fold_restore:
  "resolve (fold (\<lambda>(n, old). NamedValues_set n old) (zip ns (map f ns)) s) =
     (\<lambda>m. if m \<in> set ns then f m else resolve s m)"
  by (induction ns arbitrary: s) (auto simp: fun_eq_iff)

lemma restore_Codegen:
  "Codegen e s = (Ok v, s') \<Longrightarrow> distinct_vars e \<Longrightarrow> resolve s' = resolve s"
proof (induction e arbitrary: s v s')
  case (NumberExprAST x)
  then show ?case by simp
next
  case (VariableExprAST x)
  then show ?case
    by (auto simp: Let_def case_prod_beta value_builder_defs split: option.splits)
next
  case (UnaryExprAST c e)
  obtain r s1 where e: "Codegen e s = (r, s1)" by force
  with UnaryExprAST.prems obtain x where r: "r = Ok x" by (cases r) auto
  have "resolve s1 = resolve s" using UnaryExprAST.IH e r UnaryExprAST.prems(2) by auto
  moreover have "resolve s' = resolve s1" using UnaryExprAST.prems(1) e r
    by (auto simp: Let_def case_prod_beta value_builder_defs split: option.splits)
  ultimately show ?case by simp
next
  case (BinaryExprAST c l r)
  show ?case
  proof (cases "c = CHR ''=''")
    case True
    show ?thesis
    proof (cases l)
      case (VariableExprAST n)
      obtain R s1 where R: "Codegen r s = (R, s1)" by force
      with True VariableExprAST BinaryExprAST.prems obtain x where ok: "R = Ok x" by (cases R) auto
      have "resolve s1 = resolve s" using BinaryExprAST.IH(2) R ok BinaryExprAST.prems(2) by auto
      moreover have "resolve s' = resolve s1" using BinaryExprAST.prems(1) True VariableExprAST R ok
        by (auto simp: Let_def case_prod_beta value_builder_defs unit_builder_defs split: option.splits)
      ultimately show ?thesis by simp
    qed (use True BinaryExprAST.prems in \<open>auto simp: ErrorV_def\<close>)
  next
    case False
    obtain L s1 where L: "Codegen l s = (L, s1)" by force
    obtain R s2 where R: "Codegen r s1 = (R, s2)" by force
    from False BinaryExprAST.prems L R obtain lv rv where ok: "L = Ok lv" "R = Ok rv"
      by (cases L; cases R) auto
    have "resolve s1 = resolve s" using BinaryExprAST.IH(1) L ok BinaryExprAST.prems(2) by auto
    moreover have "resolve s2 = resolve s1" using BinaryExprAST.IH(2) R ok BinaryExprAST.prems(2) by auto
    moreover have "resolve s' = resolve s2"
      using False BinaryExprAST.prems(1) L R ok
      by (auto simp: Let_def case_prod_beta value_builder_defs split: option.splits if_splits)
    ultimately show ?thesis by simp
  qed
next
  case (CallExprAST c args)
  have args: "Codegen_Args es vs s = (Ok vs', t) \<Longrightarrow> set es \<subseteq> set args \<Longrightarrow> resolve t = resolve s"
    for es vs s vs' t
  proof (induction es arbitrary: vs s)
    case Nil
    then show ?case by simp
  next
    case (Cons a es)
    obtain r s1 where a: "Codegen a s = (r, s1)" by force
    with Cons.prems obtain x where r: "r = Ok x" by (cases r) auto
    have d: "distinct_vars a" using CallExprAST.prems(2) Cons.prems(2) by (auto simp: list_all_iff)
    have "resolve s1 = resolve s" using CallExprAST.IH[of a s x s1] a r d Cons.prems(2) by auto
    moreover have "resolve t = resolve s1" using Cons.IH[of "vs @ [x]" s1] Cons.prems a r by auto
    ultimately show ?case by simp
  qed
  obtain r s1 where as: "Codegen_Args args [] s = (r, s1)" by force
  show ?case using CallExprAST.prems(1) args[where es = args and vs = "[]" and s = s and t = s1] as
    by (cases r) (auto simp: Let_def case_prod_beta value_builder_defs split: option.splits if_splits)
next
  case (IfExprAST c t e)
  obtain rc s1 where c: "Codegen c s = (rc, s1)" by force
  with IfExprAST.prems(1) obtain cv where rc: "rc = Ok cv"
    by (cases rc) (auto simp: Codegen_If)
  obtain rt s8 where t: "Codegen t (if_then_state cv s1) = (rt, s8)" by force
  with IfExprAST.prems(1) c rc obtain tv where rt: "rt = Ok tv"
    by (cases rt) (auto simp: Codegen_If)
  obtain re s12 where e: "Codegen e (if_else_state s1 s8) = (re, s12)" by force
  with IfExprAST.prems(1) c rc t rt obtain ev where re: "re = Ok ev"
    by (cases re) (auto simp: Codegen_If)
  have "s' = snd (if_merge s1 tv s8 ev s12)"
    using IfExprAST.prems(1) c rc t rt e re by (simp add: Codegen_If)
  moreover have "resolve s1 = resolve s" using IfExprAST.IH(1) c rc IfExprAST.prems(2) by auto
  moreover have "resolve s8 = resolve s1" using IfExprAST.IH(2) t rt IfExprAST.prems(2) by fastforce
  moreover have "resolve s12 = resolve s8" using IfExprAST.IH(3) e re IfExprAST.prems(2) by fastforce
  ultimately show ?case by simp
next
  case (ForExprAST n st en sp b)
  obtain r1 s2 where st: "Codegen st (for_start_state n s) = (r1, s2)" by force
  with ForExprAST.prems(1) obtain sv where r1: "r1 = Ok sv"
    by (cases r1) (auto simp: Codegen_For)
  obtain r2 s9 where b: "Codegen b (for_body_state n s sv s2) = (r2, s9)" by force
  with ForExprAST.prems(1) st r1 obtain bv where r2: "r2 = Ok bv"
    by (cases r2) (auto simp: Codegen_For)
  obtain r3 s10 where sp: "Codegen_opt 1 sp s9 = (r3, s10)" by force
  with ForExprAST.prems(1) st r1 b r2 obtain pv where r3: "r3 = Ok pv"
    by (cases r3) (auto simp: Codegen_For)
  obtain r4 s11 where en: "Codegen en s10 = (r4, s11)" by force
  with ForExprAST.prems(1) st r1 b r2 sp r3 obtain ev where r4: "r4 = Ok ev"
    by (cases r4) (auto simp: Codegen_For)
  have s': "s' = for_finish n s s2 pv ev s11"
    using ForExprAST.prems(1) st r1 b r2 sp r3 en r4 by (simp add: Codegen_For)
  have 1: "resolve s2 = resolve s" using ForExprAST.IH(1) st r1 ForExprAST.prems(2) by fastforce
  have 2: "resolve s9 = (resolve s2)(n \<mapsto> next_id s)"
    using ForExprAST.IH(4) b r2 ForExprAST.prems(2) by fastforce
  have 3: "resolve s10 = resolve s9"
    using ForExprAST.IH(3) sp r3 ForExprAST.prems(2) by (cases sp) auto
  have 4: "resolve s11 = resolve s10" using ForExprAST.IH(2) en r4 ForExprAST.prems(2) by fastforce
  show ?case unfolding s' using 1 2 3 4 by (simp add: fun_eq_iff)
next
  case (VarExprAST bs b)
  have vn: "Codegen_VarNames bs' F olds s = (Ok olds', t) \<Longrightarrow> set bs' \<subseteq> set bs \<Longrightarrow>
      (\<exists>new. olds' = olds @ new \<and> (\<forall>m. m \<notin> fst ` set bs' \<longrightarrow> resolve t m = resolve s m)
        \<and> (distinct (map fst bs') \<longrightarrow> new = map (resolve s) (map fst bs')))"
    for bs' F olds s olds' t
  proof (induction bs' arbitrary: olds s)
    case Nil
    then show ?case by simp
  next
    case (Cons p bs')
    obtain n i where p: "p = (n, i)" by (cases p)
    obtain r s1 where i: "Codegen_opt 0 i s = (r, s1)" by force
    with Cons.prems(1) p obtain iv where r: "r = Ok iv"
      by (cases r) (auto simp: Codegen_VarNames_Cons)
    have rest: "Codegen_VarNames bs' F (olds @ [resolve s1 n]) (var_bind_state F n iv s1) = (Ok olds', t)"
      using Cons.prems(1) p i r by (simp add: Codegen_VarNames_Cons)
    have s1: "resolve s1 = resolve s"
    proof (cases i)
      case None
      then show ?thesis using i by simp
    next
      case (Some x)
      have "(n, Some x) \<in> set bs" using Cons.prems(2) p Some by auto
      moreover have "distinct_vars x"
        using VarExprAST.prems(2) \<open>(n, Some x) \<in> set bs\<close> by (auto simp: list_all_iff)
      ultimately show ?thesis using VarExprAST.IH(1)[of "(n, Some x)" "Some x" x s iv s1] i r Some
        by auto
    qed
    from Cons.IH[OF rest] Cons.prems(2) obtain new where new:
      "olds' = (olds @ [resolve s1 n]) @ new"
      "\<forall>m. m \<notin> fst ` set bs' \<longrightarrow> resolve t m = resolve (var_bind_state F n iv s1) m"
      "distinct (map fst bs') \<longrightarrow> new = map (resolve (var_bind_state F n iv s1)) (map fst bs')"
      by auto
    have A: "olds' = olds @ (resolve s1 n # new)" using new(1) by simp
    have B: "\<forall>m. m \<notin> fst ` set (p # bs') \<longrightarrow> resolve t m = resolve s m"
      using new(2) s1 p by auto
    have C: "distinct (map fst (p # bs')) \<longrightarrow>
        resolve s1 n # new = map (resolve s) (map fst (p # bs'))"
      using new(3) s1 p by auto
    from A B C show ?case
      by (intro exI[of _ "resolve s1 n # new"] conjI) assumption+
  qed
  obtain r1 s1 where v: "Codegen_VarNames bs (getParent s) [] s = (r1, s1)" by force
  with VarExprAST.prems(1) obtain olds where r1: "r1 = Ok olds"
    by (cases r1) (auto simp: Let_def)
  obtain r2 s2 where b: "Codegen b s1 = (r2, s2)" by force
  with VarExprAST.prems(1) v r1 obtain bv where r2: "r2 = Ok bv"
    by (cases r2) (auto simp: Let_def)
  have s': "s' = fold (\<lambda>(n, old). NamedValues_set n old) (zip (map fst bs) olds) s2"
    using VarExprAST.prems(1) v r1 b r2 by (simp add: Let_def)
  have d: "distinct (map fst bs)" using VarExprAST.prems(2) by simp
  from vn[of bs "getParent s" "[]" s olds s1] v r1 d
  have olds: "olds = map (resolve s) (map fst bs)"
    and out: "\<forall>m. m \<notin> fst ` set bs \<longrightarrow> resolve s1 m = resolve s m"
    by auto
  have 2: "resolve s2 = resolve s1" using VarExprAST.IH(2) b r2 VarExprAST.prems(2) by fastforce
  have "resolve s' = (\<lambda>m. if m \<in> set (map fst bs) then resolve s m else resolve s2 m)"
    unfolding s' olds by (rule resolve_fold_restore)
  then show ?case using 2 out by (auto simp: fun_eq_iff)
qed


section \<open>Names are rebound only to new allocas\<close>

lemma grows_refl [simp]: "grows s s"
  by (simp add: grows_def)

lemma grows_trans: "grows s t \<Longrightarrow> grows t u \<Longrightarrow> grows s u"
  unfolding grows_def
  by (metis le_trans)

lemma grows_step: "grows s t \<Longrightarrow> resolve u = resolve t \<Longrightarrow> next_id t \<le> next_id u \<Longrightarrow> grows s u"
  unfolding grows_def by auto

lemma grows_bind:
  "grows s t \<Longrightarrow> next_id s \<le> a \<Longrightarrow> next_id t \<le> next_id u \<Longrightarrow> resolve u = (resolve t)(n \<mapsto> a)
   \<Longrightarrow> grows s u"
  unfolding grows_def by auto

lemma grows_set:
  "grows s t \<Longrightarrow> h = resolve s n \<or> (\<exists>a. h = Some a \<and> next_id s \<le> a) \<Longrightarrow>
   grows s (NamedValues_set n h t)"
  unfolding grows_def by auto

lemma grows_old: "grows s t \<Longrightarrow> resolve t n = resolve s n \<or> (\<exists>a. resolve t n = Some a \<and> next_id s \<le> a)"
  unfolding grows_def by auto

lemma grows_restore:
  "grows s t \<Longrightarrow> grows s t2 \<Longrightarrow> next_id t \<le> next_id u \<Longrightarrow>
   resolve u = (resolve t)(n := resolve t2 n) \<Longrightarrow> grows s u"
  unfolding grows_def by auto

lemma grows_case_result:
  "grows s0 (snd p) \<Longrightarrow> (\<And>v. fst p = Ok v \<Longrightarrow> grows s0 (snd (k v (snd p)))) \<Longrightarrow>
   grows s0 (snd (case p of (Ok v, s1) \<Rightarrow> k v s1 | (Null, s1) \<Rightarrow> (Null, s1)
                   | (Abort, s1) \<Rightarrow> (Abort, s1)))"
  by (cases p; cases "fst p") auto

lemma grows_fold_set:
  "list_all2 (\<lambda>n h. h = resolve s n \<or> (\<exists>a. h = Some a \<and> next_id s \<le> a)) ns hs \<Longrightarrow>
   grows s t \<Longrightarrow> grows s (fold (\<lambda>(n, old). NamedValues_set n old) (zip ns hs) t)"
  by (induction ns hs arbitrary: t rule: list_all2_induct) (auto intro: grows_set)

lemma grows_Codegen: "grows s (snd (Codegen e s))"
proof (induction e arbitrary: s)
  case (NumberExprAST x)
  then show ?case by simp
next
  case (VariableExprAST x)
  show ?case
    by (rule grows_step[OF grows_refl])
       (auto simp: Let_def case_prod_beta value_builder_defs split: option.splits)
next
  case (UnaryExprAST c e)
  have "grows s (snd (case getFunction t (''unary'' @ [c]) of
            None \<Rightarrow> ErrorV ''Unknown unary operator'' t
          | Some F \<Rightarrow> (let (v', s2) = CreateCall F [v] t in (Ok v', s2))))"
    if "grows s t" for t v
    by (rule grows_step[OF that])
       (auto simp: Let_def case_prod_beta value_builder_defs split: option.splits)
  then show ?case using UnaryExprAST.IH[of s]
    by (simp only: Codegen.simps) (intro grows_case_result, simp_all)
next
  case (BinaryExprAST c l r)
  show ?case
  proof (cases "c = CHR ''=''")
    case True
    show ?thesis
    proof (cases l)
      case (VariableExprAST n)
      have "grows s (snd (let (Variable, s2) = NamedValues_at n t in
                   case Variable of
                     None \<Rightarrow> ErrorV ''Unknown variable name'' s2
                   | Some a \<Rightarrow> (Ok v, CreateStore v a s2)))"
        if "grows s t" for t v
        by (rule grows_step[OF that])
           (auto simp: Let_def case_prod_beta value_builder_defs unit_builder_defs split: option.splits)
      moreover have "Codegen (BinaryExprAST c l r) s =
          (case Codegen r s of
             (Ok Val, s1) \<Rightarrow>
               (let (Variable, s2) = NamedValues_at n s1 in
                case Variable of
                  None \<Rightarrow> ErrorV ''Unknown variable name'' s2
                | Some a \<Rightarrow> (Ok Val, CreateStore Val a s2))
           | (Null, s1) \<Rightarrow> (Null, s1)
           | (Abort, s1) \<Rightarrow> (Abort, s1))"
        using True VariableExprAST by simp
      ultimately show ?thesis using BinaryExprAST.IH(2)[of s]
        by (simp only:) (intro grows_case_result, simp_all)
    qed (use True in \<open>auto simp: ErrorV_def intro!: grows_step[OF grows_refl]\<close>)
  next
    case False
    obtain L s1 where L: "Codegen l s = (L, s1)" by force
    obtain R s2 where R: "Codegen r s1 = (R, s2)" by force
    have G1: "grows s s1" using BinaryExprAST.IH(1)[of s] L by simp
    have G2: "grows s s2" using BinaryExprAST.IH(2)[of s1] R G1 by (auto intro: grows_trans)
    have G3: "grows s u" if "resolve u = resolve s2" "next_id s2 \<le> next_id u" for u
      using grows_step[OF G2 that] .
    show ?thesis using False L R G1 G2
      by (cases L; cases R)
         (auto simp: Let_def case_prod_beta value_builder_defs split: option.splits intro!: G3)
  qed
next
  case (CallExprAST c args)
  have args: "set es \<subseteq> set args \<Longrightarrow> grows s (snd (Codegen_Args es vs s))" for es vs s
  proof (induction es arbitrary: vs s)
    case Nil
    then show ?case by simp
  next
    case (Cons a es)
    have "grows s (snd (Codegen a s))" using CallExprAST.IH[of a s] Cons.prems by simp
    moreover have "grows s (snd (Codegen_Args es (vs @ [v]) (snd (Codegen a s))))" for v
      using Cons.IH[where vs = "vs @ [v]" and s = "snd (Codegen a s)"] Cons.prems calculation
      by (auto intro: grows_trans)
    ultimately show ?case
      by (simp only: Codegen_Args.simps) (intro grows_case_result, simp_all)
  qed
  have fin: "grows s (snd (let (v, s2) = CreateCall F vs t in (Ok v, s2)))" if "grows s t" for F vs t
    by (rule grows_step[OF that]) (auto simp: Let_def case_prod_beta value_builder_defs)
  have "grows s (snd (case Codegen_Args args [] s of
                (Ok ArgsV, s1) \<Rightarrow> (let (v, s2) = CreateCall F ArgsV s1 in (Ok v, s2))
              | (Null, s1) \<Rightarrow> (Null, s1)
              | (Abort, s1) \<Rightarrow> (Abort, s1)))" for F
    using args[where es = args and vs = "[]" and s = s] fin by (intro grows_case_result) simp_all
  then show ?case
    by (auto simp: ErrorV_def split: option.splits intro!: grows_step[OF grows_refl])
next
  case (IfExprAST c t e)
  let ?s1 = "snd (Codegen c s)"
  let ?s8 = "\<lambda>cv. snd (Codegen t (if_then_state cv ?s1))"
  let ?s12 = "\<lambda>cv. snd (Codegen e (if_else_state ?s1 (?s8 cv)))"
  have G1: "grows s ?s1" using IfExprAST.IH(1) .
  have T: "grows s (if_then_state cv ?s1)" for cv
    by (rule grows_step[OF G1]) simp_all
  have G2: "grows s (?s8 cv)" for cv
    by (rule grows_trans[OF T[of cv] IfExprAST.IH(2)])
  have E: "grows s (if_else_state ?s1 (?s8 cv))" for cv
    by (rule grows_step[OF G2[of cv]]) simp_all
  have G3: "grows s (?s12 cv)" for cv
    by (rule grows_trans[OF E[of cv] IfExprAST.IH(3)])
  have G4: "grows s (snd (if_merge ?s1 tv (?s8 cv) ev (?s12 cv)))" for cv tv ev
    by (rule grows_step[OF G3[of cv]]) simp_all
  show ?case
    by (simp only: Codegen_If) (intro grows_case_result, simp_all add: G1 G2 G3 G4)
next
  case (ForExprAST n st en sp b)
  let ?s2 = "snd (Codegen st (for_start_state n s))"
  let ?s9 = "\<lambda>sv. snd (Codegen b (for_body_state n s sv ?s2))"
  let ?s10 = "\<lambda>sv. snd (Codegen_opt 1 sp (?s9 sv))"
  let ?s11 = "\<lambda>sv. snd (Codegen en (?s10 sv))"
  have opt: "grows u (snd (Codegen_opt 1 sp u))" for u
    using ForExprAST.IH(3) by (cases sp) auto
  have S: "grows s (for_start_state n s)"
    by (rule grows_step[OF grows_refl]) simp_all
  have G1: "grows s ?s2"
    by (rule grows_trans[OF S ForExprAST.IH(1)])
  have B: "grows s (for_body_state n s sv ?s2)" for sv
    by (rule grows_bind[OF G1, of "next_id s" _ n]) simp_all
  have G2: "grows s (?s9 sv)" for sv
    by (rule grows_trans[OF B[of sv] ForExprAST.IH(4)])
  have G3: "grows s (?s10 sv)" for sv
    by (rule grows_trans[OF G2[of sv] opt])
  have G4: "grows s (?s11 sv)" for sv
    by (rule grows_trans[OF G3[of sv] ForExprAST.IH(2)])
  have G5: "grows s (for_finish n s ?s2 pv ev (?s11 sv))" for sv pv ev
    by (rule grows_restore[OF G4[of sv] G1, of _ n]) simp_all
  show ?case
    by (simp only: Codegen_For) (intro grows_case_result, simp_all add: G1 G2 G3 G4 G5)
next
  case (VarExprAST bs b)
  have opt: "(n, i) \<in> set bs \<Longrightarrow> grows u (snd (Codegen_opt 0 i u))" for n i u
    using VarExprAST.IH(1)[of "(n, i)" i] by (cases i) auto
  have vn: "set bs' \<subseteq> set bs \<Longrightarrow> grows s0 s \<Longrightarrow>
      grows s0 (snd (Codegen_VarNames bs' F olds s))
      \<and> (\<forall>olds'. fst (Codegen_VarNames bs' F olds s) = Ok olds' \<longrightarrow>
            (\<exists>new. olds' = olds @ new
               \<and> list_all2 (\<lambda>n h. h = resolve s0 n \<or> (\<exists>a. h = Some a \<and> next_id s0 \<le> a))
                    (map fst bs') new))"
    for bs' F olds s s0
  proof (induction bs' arbitrary: olds s)
    case Nil
    then show ?case by simp
  next
    case (Cons p bs')
    obtain n i where p: "p = (n, i)" by (cases p)
    obtain r s1 where i: "Codegen_opt 0 i s = (r, s1)" by force
    have G1: "grows s0 s1"
      using opt[of n i s] Cons.prems p i by (auto intro: grows_trans)
    show ?case
    proof (cases r)
      case (Ok iv)
      have B: "grows s0 (var_bind_state F n iv s1)"
        by (rule grows_bind[OF G1, of "next_id s1" _ n]) (use G1 in \<open>simp_all add: grows_def\<close>)
      have eq: "Codegen_VarNames (p # bs') F olds s =
          Codegen_VarNames bs' F (olds @ [resolve s1 n]) (var_bind_state F n iv s1)"
        using p i Ok by (simp add: Codegen_VarNames_Cons)
      from Cons.IH[OF _ B, where olds = "olds @ [resolve s1 n]"] Cons.prems(1)
      have IH: "grows s0 (snd (Codegen_VarNames bs' F (olds @ [resolve s1 n]) (var_bind_state F n iv s1)))"
        "\<forall>olds'. fst (Codegen_VarNames bs' F (olds @ [resolve s1 n]) (var_bind_state F n iv s1)) = Ok olds' \<longrightarrow>
            (\<exists>new. olds' = (olds @ [resolve s1 n]) @ new
               \<and> list_all2 (\<lambda>n h. h = resolve s0 n \<or> (\<exists>a. h = Some a \<and> next_id s0 \<le> a))
                    (map fst bs') new)"
        by auto
      have old: "resolve s1 n = resolve s0 n \<or> (\<exists>a. resolve s1 n = Some a \<and> next_id s0 \<le> a)"
        using grows_old[OF G1] .
      show ?thesis
      proof (intro conjI allI impI)
        show "grows s0 (snd (Codegen_VarNames (p # bs') F olds s))" using IH(1) eq by simp
      next
        fix olds'
        assume "fst (Codegen_VarNames (p # bs') F olds s) = Ok olds'"
        with IH(2) eq obtain new where new: "olds' = (olds @ [resolve s1 n]) @ new"
          "list_all2 (\<lambda>n h. h = resolve s0 n \<or> (\<exists>a. h = Some a \<and> next_id s0 \<le> a)) (map fst bs') new"
          by auto
        show "\<exists>new. olds' = olds @ new
               \<and> list_all2 (\<lambda>n h. h = resolve s0 n \<or> (\<exists>a. h = Some a \<and> next_id s0 \<le> a))
                    (map fst (p # bs')) new"
          by (rule exI[of _ "resolve s1 n # new"]) (use new old p in simp)
      qed
    qed (use p i G1 in \<open>simp_all add: Codegen_VarNames_Cons\<close>)
  qed
  let ?p = "Codegen_VarNames bs (getParent s) [] s"
  have V1: "grows s (snd ?p)" using vn[where bs' = bs and ?s0.0 = s and s = s and F = "getParent s" and olds = "[]"] by simp
  have V2: "grows s (snd (Codegen b (snd ?p)))"
    by (rule grows_trans[OF V1 VarExprAST.IH(2)])
  have V3: "grows s (fold (\<lambda>(n, old). NamedValues_set n old) (zip (map fst bs) olds)
                (snd (Codegen b (snd ?p))))" if "fst ?p = Ok olds" for olds
    using vn[where bs' = bs and ?s0.0 = s and s = s and F = "getParent s" and olds = "[]"] that by (intro grows_fold_set V2) auto
  show ?case
    by (simp only: Codegen.simps Let_def) (intro grows_case_result, simp_all add: V1 V2 V3)
qed

lemma grows_Codegen_opt: "grows s (snd (Codegen_opt d i s))"
  by (cases i) (simp_all add: grows_Codegen)

lemma grows_Codegen_VarNames: "grows s (snd (Codegen_VarNames bs F olds s))"
proof (induction bs arbitrary: olds s)
  case Nil
  then show ?case by simp
next
  case (Cons p bs)
  obtain n i where p: "p = (n, i)" by (cases p)
  have G1: "grows s (snd (Codegen_opt 0 i s))" by (rule grows_Codegen_opt)
  have B: "grows s (var_bind_state F n iv (snd (Codegen_opt 0 i s)))" for iv
    by (rule grows_bind[OF G1, of "next_id (snd (Codegen_opt 0 i s))" _ n])
       (use G1 in \<open>simp_all add: grows_def\<close>)
  have "grows s (snd (Codegen_VarNames bs F (olds @ [h]) (var_bind_state F n iv (snd (Codegen_opt 0 i s)))))"
    for iv h
    by (rule grows_trans[OF B[of iv] Cons.IH])
  then show ?case unfolding p
    by (simp only: Codegen_VarNames_Cons) (intro grows_case_result, simp_all add: G1)
qed


section \<open>Lowering an expression removes no body\<close>

lemma fn_empty_fields [simp]:
  "fn_empty (s\<lparr>next_id := k\<rparr>) F = fn_empty s F"
  "fn_empty (s\<lparr>errs := es\<rparr>) F = fn_empty s F"
  "fn_empty (s\<lparr>InsertBlock := ib\<rparr>) F = fn_empty s F"
  "fn_empty (s\<lparr>NamedValues := nv\<rparr>) F = fn_empty s F"
  "fn_empty (s\<lparr>BinopPrecedence := bp\<rparr>) F = fn_empty s F"
  "fn_empty (NamedValues_set n p s) F = fn_empty s F"
  "fn_empty (NamedValues_erase n s) F = fn_empty s F"
  "fn_empty (snd (NamedValues_at n s)) F = fn_empty s F"
  by (simp_all add: fn_empty_def NamedValues_set_def NamedValues_erase_def NamedValues_at_def
      split: option.splits)

lemma fn_empty_upd_func:
  "(\<And>fn. (blocks (g fn) = []) = (blocks fn = [])) \<Longrightarrow>
   fn_empty (upd_func F g s) F' = fn_empty s F'"
  by (cases "TheModule s F") (simp_all add: fn_empty_def upd_func_def)

lemma blocks_prepend_entry: "(blocks (prepend_entry i fn) = []) = (blocks fn = [])"
  by (cases "blocks fn") (simp_all add: prepend_entry_def)

lemma fn_empty_emit [simp]: "fn_empty (emit i s) F = fn_empty s F"
proof (cases "InsertBlock s")
  case None
  then show ?thesis by (simp add: emit_def)
next
  case (Some p)
  obtain G b where p: "p = (G, b)" by (cases p)
  show ?thesis unfolding emit_def Some p by (simp add: fn_empty_upd_func)
qed

lemma fn_empty_alloca [simp]: "fn_empty (snd (CreateEntryBlockAlloca T nm s)) F = fn_empty s F"
  by (cases T)
     (simp_all add: CreateEntryBlockAlloca_def fresh_def fn_empty_upd_func blocks_prepend_entry)

lemma fn_empty_push_back [simp]:
  "fn_empty (push_back T b nm s) F = (fn_empty s F \<and> (T = Some F \<longrightarrow> TheModule s F = None))"
proof (cases T)
  case None
  then show ?thesis by (simp add: push_back_def)
next
  case (Some G)
  show ?thesis unfolding Some push_back_def
    by (cases "TheModule s G") (auto simp: fn_empty_def upd_func_def)
qed

lemma kb_refl [simp]: "keeps_bodies s s"
  by (simp add: keeps_bodies_def)

lemma kb_trans: "keeps_bodies s t \<Longrightarrow> keeps_bodies t u \<Longrightarrow> keeps_bodies s u"
  by (simp add: keeps_bodies_def)

lemma kb_step: "keeps_bodies s t \<Longrightarrow> (\<And>F. fn_empty u F \<Longrightarrow> fn_empty t F) \<Longrightarrow> keeps_bodies s u"
  by (simp add: keeps_bodies_def)

lemma kb_case_result:
  "keeps_bodies s0 (snd p) \<Longrightarrow> (\<And>v. fst p = Ok v \<Longrightarrow> keeps_bodies s0 (snd (k v (snd p)))) \<Longrightarrow>
   keeps_bodies s0 (snd (case p of (Ok v, s1) \<Rightarrow> k v s1 | (Null, s1) \<Rightarrow> (Null, s1)
                   | (Abort, s1) \<Rightarrow> (Abort, s1)))"
  by (cases p; cases "fst p") auto

lemma fn_empty_if_then: "fn_empty (if_then_state cv s1) F \<Longrightarrow> fn_empty s1 F"
  by (simp add: if_then_state_def Let_def case_prod_beta value_builder_defs unit_builder_defs)

lemma fn_empty_if_else: "fn_empty (if_else_state s1 s8) F \<Longrightarrow> fn_empty s8 F"
  by (simp add: if_else_state_def Let_def case_prod_beta value_builder_defs unit_builder_defs)

lemma fn_empty_if_merge: "fn_empty (snd (if_merge s1 tv s8 ev s12)) F \<Longrightarrow> fn_empty s12 F"
  by (simp add: if_merge_def Let_def case_prod_beta value_builder_defs unit_builder_defs)

lemma fn_empty_for_start: "fn_empty (for_start_state n s) F \<Longrightarrow> fn_empty s F"
  by (simp add: for_start_state_def)

lemma fn_empty_for_body: "fn_empty (for_body_state n s v s2) F \<Longrightarrow> fn_empty s2 F"
  by (simp add: for_body_state_def Let_def case_prod_beta value_builder_defs unit_builder_defs)

lemma fn_empty_for_finish: "fn_empty (for_finish n s s2 pv ev s11) F \<Longrightarrow> fn_empty s11 F"
  by (cases "resolve s2 n")
     (simp_all add: for_finish_def Let_def case_prod_beta value_builder_defs unit_builder_defs)

lemma fn_empty_var_bind: "fn_empty (var_bind_state T n v s1) F \<Longrightarrow> fn_empty s1 F"
  by (simp add: var_bind_state_def Let_def case_prod_beta value_builder_defs unit_builder_defs)

lemmas fn_empty_states = fn_empty_if_then fn_empty_if_else fn_empty_if_merge fn_empty_for_start
  fn_empty_for_body fn_empty_for_finish fn_empty_var_bind

lemma fn_empty_fold_set [simp]:
  "fn_empty (fold (\<lambda>(n, old). NamedValues_set n old) xs s) F = fn_empty s F"
proof (induction xs arbitrary: s)
  case Nil
  show ?case by simp
next
  case (Cons x xs)
  obtain n old where x: "x = (n, old)" by (cases x)
  show ?case unfolding x by (simp add: Cons.IH)
qed

lemma kb_Codegen: "keeps_bodies s (snd (Codegen e s))"
proof (induction e arbitrary: s)
  case (NumberExprAST x)
  then show ?case by simp
next
  case (VariableExprAST x)
  show ?case
    by (rule kb_step[OF kb_refl])
       (auto simp: Let_def case_prod_beta value_builder_defs split: option.splits)
next
  case (UnaryExprAST c e)
  have "keeps_bodies s (snd (case getFunction t (''unary'' @ [c]) of
            None \<Rightarrow> ErrorV ''Unknown unary operator'' t
          | Some F \<Rightarrow> (let (v', s2) = CreateCall F [v] t in (Ok v', s2))))"
    if "keeps_bodies s t" for t v
    by (rule kb_step[OF that])
       (auto simp: Let_def case_prod_beta value_builder_defs split: option.splits)
  then show ?case using UnaryExprAST.IH[of s]
    by (simp only: Codegen.simps) (intro kb_case_result, simp_all)
next
  case (BinaryExprAST c l r)
  show ?case
  proof (cases "c = CHR ''=''")
    case True
    show ?thesis
    proof (cases l)
      case (VariableExprAST n)
      have "keeps_bodies s (snd (let (Variable, s2) = NamedValues_at n t in
                   case Variable of
                     None \<Rightarrow> ErrorV ''Unknown variable name'' s2
                   | Some a \<Rightarrow> (Ok v, CreateStore v a s2)))"
        if "keeps_bodies s t" for t v
        by (rule kb_step[OF that])
           (auto simp: Let_def case_prod_beta value_builder_defs unit_builder_defs split: option.splits)
      moreover have "Codegen (BinaryExprAST c l r) s =
          (case Codegen r s of
             (Ok Val, s1) \<Rightarrow>
               (let (Variable, s2) = NamedValues_at n s1 in
                case Variable of
                  None \<Rightarrow> ErrorV ''Unknown variable name'' s2
                | Some a \<Rightarrow> (Ok Val, CreateStore Val a s2))
           | (Null, s1) \<Rightarrow> (Null, s1)
           | (Abort, s1) \<Rightarrow> (Abort, s1))"
        using True VariableExprAST by simp
      ultimately show ?thesis using BinaryExprAST.IH(2)[of s]
        by (simp only:) (intro kb_case_result, simp_all)
    qed (use True in \<open>auto simp: ErrorV_def intro!: kb_step[OF kb_refl]\<close>)
  next
    case False
    obtain L s1 where L: "Codegen l s = (L, s1)" by force
    obtain R s2 where R: "Codegen r s1 = (R, s2)" by force
    have G1: "keeps_bodies s s1" using BinaryExprAST.IH(1)[of s] L by simp
    have G2: "keeps_bodies s s2" using BinaryExprAST.IH(2)[of s1] R G1 by (auto intro: kb_trans)
    have G3: "keeps_bodies s u" if "\<And>F. fn_empty u F \<Longrightarrow> fn_empty s2 F" for u
      using kb_step[OF G2 that] .
    show ?thesis using False L R G1 G2
      by (cases L; cases R)
         (auto simp: Let_def case_prod_beta value_builder_defs split: option.splits intro!: G3)
  qed
next
  case (CallExprAST c args)
  have args: "set es \<subseteq> set args \<Longrightarrow> keeps_bodies s (snd (Codegen_Args es vs s))" for es vs s
  proof (induction es arbitrary: vs s)
    case Nil
    then show ?case by simp
  next
    case (Cons a es)
    have "keeps_bodies s (snd (Codegen a s))" using CallExprAST.IH[of a s] Cons.prems by simp
    moreover have "keeps_bodies s (snd (Codegen_Args es (vs @ [v]) (snd (Codegen a s))))" for v
      using Cons.IH[where vs = "vs @ [v]" and s = "snd (Codegen a s)"] Cons.prems calculation
      by (auto intro: kb_trans)
    ultimately show ?case
      by (simp only: Codegen_Args.simps) (intro kb_case_result, simp_all)
  qed
  have fin: "keeps_bodies s (snd (let (v, s2) = CreateCall F vs t in (Ok v, s2)))"
    if "keeps_bodies s t" for F vs t
    by (rule kb_step[OF that]) (auto simp: Let_def case_prod_beta value_builder_defs)
  have "keeps_bodies s (snd (case Codegen_Args args [] s of
                (Ok ArgsV, s1) \<Rightarrow> (let (v, s2) = CreateCall F ArgsV s1 in (Ok v, s2))
              | (Null, s1) \<Rightarrow> (Null, s1)
              | (Abort, s1) \<Rightarrow> (Abort, s1)))" for F
    using args[where es = args and vs = "[]" and s = s] fin by (intro kb_case_result) simp_all
  then show ?case
    by (auto simp: ErrorV_def split: option.splits intro!: kb_step[OF kb_refl])
next
  case (IfExprAST c t e)
  let ?s1 = "snd (Codegen c s)"
  let ?s8 = "\<lambda>cv. snd (Codegen t (if_then_state cv ?s1))"
  let ?s12 = "\<lambda>cv. snd (Codegen e (if_else_state ?s1 (?s8 cv)))"
  have G1: "keeps_bodies s ?s1" using IfExprAST.IH(1) .
  have T: "keeps_bodies s (if_then_state cv ?s1)" for cv
    by (rule kb_step[OF G1]) (rule fn_empty_states)
  have G2: "keeps_bodies s (?s8 cv)" for cv
    by (rule kb_trans[OF T[of cv] IfExprAST.IH(2)])
  have E: "keeps_bodies s (if_else_state ?s1 (?s8 cv))" for cv
    by (rule kb_step[OF G2[of cv]]) (rule fn_empty_states)
  have G3: "keeps_bodies s (?s12 cv)" for cv
    by (rule kb_trans[OF E[of cv] IfExprAST.IH(3)])
  have G4: "keeps_bodies s (snd (if_merge ?s1 tv (?s8 cv) ev (?s12 cv)))" for cv tv ev
    by (rule kb_step[OF G3[of cv]]) (rule fn_empty_states)
  show ?case
    by (simp only: Codegen_If) (intro kb_case_result, simp_all add: G1 G2 G3 G4)
next
  case (ForExprAST n st en sp b)
  let ?s2 = "snd (Codegen st (for_start_state n s))"
  let ?s9 = "\<lambda>sv. snd (Codegen b (for_body_state n s sv ?s2))"
  let ?s10 = "\<lambda>sv. snd (Codegen_opt 1 sp (?s9 sv))"
  let ?s11 = "\<lambda>sv. snd (Codegen en (?s10 sv))"
  have opt: "keeps_bodies u (snd (Codegen_opt 1 sp u))" for u
    using ForExprAST.IH(3) by (cases sp) auto
  have S: "keeps_bodies s (for_start_state n s)"
    by (rule kb_step[OF kb_refl]) (rule fn_empty_states)
  have G1: "keeps_bodies s ?s2"
    by (rule kb_trans[OF S ForExprAST.IH(1)])
  have B: "keeps_bodies s (for_body_state n s sv ?s2)" for sv
    by (rule kb_step[OF G1]) (rule fn_empty_states)
  have G2: "keeps_bodies s (?s9 sv)" for sv
    by (rule kb_trans[OF B[of sv] ForExprAST.IH(4)])
  have G3: "keeps_bodies s (?s10 sv)" for sv
    by (rule kb_trans[OF G2[of sv] opt])
  have G4: "keeps_bodies s (?s11 sv)" for sv
    by (rule kb_trans[OF G3[of sv] ForExprAST.IH(2)])
  have G5: "keeps_bodies s (for_finish n s ?s2 pv ev (?s11 sv))" for sv pv ev
    by (rule kb_step[OF G4[of sv]]) (rule fn_empty_states)
  show ?case
    by (simp only: Codegen_For) (intro kb_case_result, simp_all add: G1 G2 G3 G4 G5)
next
  case (VarExprAST bs b)
  have opt: "(n, i) \<in> set bs \<Longrightarrow> keeps_bodies u (snd (Codegen_opt 0 i u))" for n i u
    using VarExprAST.IH(1)[of "(n, i)" i] by (cases i) auto
  have vn: "set bs' \<subseteq> set bs \<Longrightarrow> keeps_bodies s (snd (Codegen_VarNames bs' F olds s))"
    for bs' F olds s
  proof (induction bs' arbitrary: olds s)
    case Nil
    then show ?case by simp
  next
    case (Cons p bs')
    obtain n i where p: "p = (n, i)" by (cases p)
    have G1: "keeps_bodies s (snd (Codegen_opt 0 i s))"
      using opt[of n i s] Cons.prems p by simp
    have B: "keeps_bodies s (var_bind_state F n iv (snd (Codegen_opt 0 i s)))" for iv
      by (rule kb_step[OF G1]) (rule fn_empty_states)
    have "keeps_bodies s (snd (Codegen_VarNames bs' F (olds @ [h])
              (var_bind_state F n iv (snd (Codegen_opt 0 i s)))))" for iv h
      using Cons.prems by (intro kb_trans[OF B[of iv] Cons.IH]) simp
    then show ?case unfolding p
      by (simp only: Codegen_VarNames_Cons) (intro kb_case_result, simp_all add: G1)
  qed
  let ?p = "Codegen_VarNames bs (getParent s) [] s"
  have V1: "keeps_bodies s (snd ?p)" by (rule vn) simp
  have V2: "keeps_bodies s (snd (Codegen b (snd ?p)))"
    by (rule kb_trans[OF V1 VarExprAST.IH(2)])
  have V3: "keeps_bodies s (fold (\<lambda>(n, old). NamedValues_set n old) (zip (map fst bs) olds)
                (snd (Codegen b (snd ?p))))" for olds
    by (rule kb_step[OF V2]) simp
  show ?case
    by (simp only: Codegen.simps Let_def) (intro kb_case_result, simp_all add: V1 V2 V3)
qed


section \<open>C5: a failed definition is rolled back\<close>

lemma proto_ok_named:
  "PrototypeAST_Codegen p s = (Ok F, s1) \<Longrightarrow> ProtoName p \<noteq> [] \<Longrightarrow> F = Named (ProtoName p)"
  by (auto simp: PrototypeAST_Codegen_def getFunction_def Function_Create_def ErrorF_def Let_def
      split: option.splits if_splits prod.splits)




section \<open>C6: declaring and defining a name again\<close>

lemma fn_empty_CreateArgumentAllocas [simp]:
  "fn_empty (CreateArgumentAllocas as i F s) G = fn_empty s G"
  by (induction as arbitrary: i s) (simp_all add: Let_def case_prod_beta CreateStore_def)

lemma proto_ok_exists:
  "PrototypeAST_Codegen p s = (Ok F, s1) \<Longrightarrow> TheModule s1 F \<noteq> None"
  by (auto simp: PrototypeAST_Codegen_def getFunction_def Function_Create_def ErrorF_def Let_def
      setNames_def upd_func_def fresh_def split: option.splits if_splits prod.splits)

lemma prologue_has_body:
  "TheModule s1 F \<noteq> None \<Longrightarrow> \<not> fn_empty (FunctionAST_prologue p F s1) F"
  by (simp add: FunctionAST_prologue_def Let_def case_prod_beta BasicBlock_Create_def fresh_def
      SetInsertPoint_def)

lemma defined_function_has_body:
  assumes "FunctionAST_Codegen f s = (Ok F, s1)"
  shows "\<not> fn_empty s1 F" and "ProtoName (Proto f) \<noteq> [] \<Longrightarrow> F = Named (ProtoName (Proto f))"
proof -
  let ?s0 = "s\<lparr>NamedValues := Map.empty\<rparr>"
  obtain r sp where p: "PrototypeAST_Codegen (Proto f) ?s0 = (r, sp)" by force
  with assms have r: "r = Ok F"
    by (cases r) (auto simp: FunctionAST_Codegen_def Let_def split: prod.splits result.splits)
  let ?s5 = "FunctionAST_prologue (Proto f) F sp"
  obtain rb s6 where b: "Codegen (FnBody f) ?s5 = (rb, s6)" by force
  with assms p r obtain v where rb: "rb = Ok v" and s1: "s1 = CreateRet v s6"
    by (cases rb) (auto simp: FunctionAST_Codegen_def Let_def)
  have "\<not> fn_empty ?s5 F"
    using prologue_has_body[OF proto_ok_exists[OF p[unfolded r]]] .
  moreover have "keeps_bodies ?s5 s6" using kb_Codegen[of ?s5 "FnBody f"] b by simp
  ultimately have "\<not> fn_empty s6 F" by (auto simp: keeps_bodies_def)
  then show "\<not> fn_empty s1 F" by (simp add: s1 CreateRet_def)
  show "ProtoName (Proto f) \<noteq> [] \<Longrightarrow> F = Named (ProtoName (Proto f))"
    using proto_ok_named[OF p[unfolded r]] .
qed

text \<open>
  C6. When a callable of the prototype's name exists: if it has a body, lowering the
  prototype fails with \<open>redefinition of function\<close>; if it has none and takes a
  different number of parameters, with \<open>redefinition of function with different # args\<close>;
  if it has none and takes as many, the existing callable is returned, with the
  parameter names of the new prototype. A function defined with success has a body, so
  a second definition under the same name fails with \<open>redefinition of function\<close> and
  changes nothing else but the scope table, which it clears.
\<close>

theorem C6_prototype_of_existing_name:
  "(getFunction s (ProtoName p) = Some F \<and> \<not> fn_empty s F \<longrightarrow>
      PrototypeAST_Codegen p s = (Null, s\<lparr>errs := errs s @ [''redefinition of function'']\<rparr>))
   \<and> (getFunction s (ProtoName p) = Some F \<and> fn_empty s F
       \<and> callee_arg_size s F \<noteq> length (ProtoArgs p) \<longrightarrow>
      PrototypeAST_Codegen p s =
        (Null, s\<lparr>errs := errs s @ [''redefinition of function with different # args'']\<rparr>))
   \<and> (getFunction s (ProtoName p) = Some F \<and> fn_empty s F
       \<and> callee_arg_size s F = length (ProtoArgs p) \<longrightarrow>
      PrototypeAST_Codegen p s = (Ok F, setNames F (ProtoArgs p) s))
   \<and> (FunctionAST_Codegen f s = (Ok F, s1) \<and> ProtoName (Proto f) \<noteq> []
       \<and> ProtoName (Proto g) = ProtoName (Proto f) \<longrightarrow>
      FunctionAST_Codegen g s1 =
        (Null, s1\<lparr>NamedValues := Map.empty, errs := errs s1 @ [''redefinition of function'']\<rparr>))"
proof (intro conjI impI)
  assume h: "FunctionAST_Codegen f s = (Ok F, s1) \<and> ProtoName (Proto f) \<noteq> []
       \<and> ProtoName (Proto g) = ProtoName (Proto f)"
  then have ne: "\<not> fn_empty s1 F" and F: "F = Named (ProtoName (Proto f))"
    using defined_function_has_body[of f s F s1] by simp_all
  have "TheModule s1 F \<noteq> None" using ne by (cases "TheModule s1 F") (simp_all add: fn_empty_def)
  then have "getFunction (s1\<lparr>NamedValues := Map.empty\<rparr>) (ProtoName (Proto g)) = Some F"
    using h F by (auto simp: getFunction_def)
  moreover have "\<not> fn_empty (s1\<lparr>NamedValues := Map.empty\<rparr>) F"
    using ne by (simp add: fn_empty_def)
  ultimately have "PrototypeAST_Codegen (Proto g) (s1\<lparr>NamedValues := Map.empty\<rparr>) =
      (Null, s1\<lparr>NamedValues := Map.empty, errs := errs s1 @ [''redefinition of function'']\<rparr>)"
    by (simp add: PrototypeAST_Codegen_def ErrorF_def)
  then show "FunctionAST_Codegen g s1 =
        (Null, s1\<lparr>NamedValues := Map.empty, errs := errs s1 @ [''redefinition of function'']\<rparr>)"
    by (simp add: FunctionAST_Codegen_def)
qed (simp_all add: PrototypeAST_Codegen_def ErrorF_def)

lemma C6_inputs:
  "\<exists>s1. FunctionAST_Codegen def_f_1 initial_state = (Ok (Named ''f''), s1)
        \<and> getFunction s1 ''f'' = Some (Named ''f'') \<and> \<not> fn_empty s1 (Named ''f'')
        \<and> errs s1 = []"
  "getFunction with_g3 ''g'' = Some (Named ''g'')"
  "fn_empty with_g3 (Named ''g'')"
  "callee_arg_size with_g3 (Named ''g'') = 3"
  "ProtoName (Proto def_f_1) = ''f''" "ProtoName (Proto def_f_2) = ''f''"
  by (simp_all add: def_f_1_def def_f_2_def with_g3_def cg_defs)

theorem C6_witness:
  "\<exists>s1. FunctionAST_Codegen def_f_1 initial_state = (Ok (Named ''f''), s1)
     \<and> getFunction s1 ''f'' = Some (Named ''f'') \<and> \<not> fn_empty s1 (Named ''f'')
     \<and> PrototypeAST_Codegen (Proto def_f_2) s1 =
         (Null, s1\<lparr>errs := errs s1 @ [''redefinition of function'']\<rparr>)
     \<and> FunctionAST_Codegen def_f_2 s1 =
         (Null, s1\<lparr>NamedValues := Map.empty, errs := errs s1 @ [''redefinition of function'']\<rparr>)
     \<and> PrototypeAST_Codegen \<lparr>ProtoName = ''g'', ProtoArgs = [''x''], Role = NoOperator\<rparr> with_g3 =
         (Null, with_g3\<lparr>errs := errs with_g3 @ [''redefinition of function with different # args'']\<rparr>)
     \<and> PrototypeAST_Codegen \<lparr>ProtoName = ''g'', ProtoArgs = [''x'', ''y'', ''z''], Role = NoOperator\<rparr>
          with_g3 =
         (Ok (Named ''g''), setNames (Named ''g'') [''x'', ''y'', ''z''] with_g3)"
proof -
  obtain s1 where s1: "FunctionAST_Codegen def_f_1 initial_state = (Ok (Named ''f''), s1)"
    "getFunction s1 ''f'' = Some (Named ''f'')" "\<not> fn_empty s1 (Named ''f'')"
    using C6_inputs(1) by blast
  have n: "ProtoName (Proto def_f_2) = ''f''" "ProtoName (Proto def_f_1) = ''f''"
    by (simp_all add: C6_inputs(5,6))
  have a: "PrototypeAST_Codegen (Proto def_f_2) s1 =
      (Null, s1\<lparr>errs := errs s1 @ [''redefinition of function'']\<rparr>)"
    using C6_prototype_of_existing_name
        [where s = s1 and p = "Proto def_f_2" and F = "Named ''f''", THEN conjunct1]
      s1(2,3) n(1)
    by simp
  have d: "FunctionAST_Codegen def_f_2 s1 =
      (Null, s1\<lparr>NamedValues := Map.empty, errs := errs s1 @ [''redefinition of function'']\<rparr>)"
    using C6_prototype_of_existing_name
        [where f = def_f_1 and s = initial_state and F = "Named ''f''" and ?s1.0 = s1
          and g = def_f_2, THEN conjunct2, THEN conjunct2, THEN conjunct2]
      s1(1) n
    by simp
  have b: "PrototypeAST_Codegen \<lparr>ProtoName = ''g'', ProtoArgs = [''x''], Role = NoOperator\<rparr> with_g3 =
      (Null, with_g3\<lparr>errs := errs with_g3 @ [''redefinition of function with different # args'']\<rparr>)"
    using C6_prototype_of_existing_name
        [where s = with_g3 and F = "Named ''g''"
          and p = "\<lparr>ProtoName = ''g'', ProtoArgs = [''x''], Role = NoOperator\<rparr>",
          THEN conjunct2, THEN conjunct1]
      C6_inputs(2-4)
    by simp
  have c: "PrototypeAST_Codegen \<lparr>ProtoName = ''g'', ProtoArgs = [''x'', ''y'', ''z''], Role = NoOperator\<rparr>
          with_g3 = (Ok (Named ''g''), setNames (Named ''g'') [''x'', ''y'', ''z''] with_g3)"
    using C6_prototype_of_existing_name
        [where s = with_g3 and F = "Named ''g''"
          and p = "\<lparr>ProtoName = ''g'', ProtoArgs = [''x'', ''y'', ''z''], Role = NoOperator\<rparr>",
          THEN conjunct2, THEN conjunct2, THEN conjunct1]
      C6_inputs(2-4)
    by simp
  from s1 a b c d show ?thesis by (intro exI[of _ s1] conjI)
qed

section \<open>C3: what a scoped-binding block leaves in the scope table\<close>

text \<open>
  C3 at three inputs, in the body of \<open>def f(a)\<close>, where \<open>x\<close> has no entry. After
  \<open>var x in 1\<close> has been lowered with success, \<open>x\<close> has an entry holding the null
  pointer: the name is not removed. After the loop \<open>for x = 1, 0 in 1\<close> it has none:
  ForExprAST::Codegen erases it. After \<open>var x, x in 1\<close>, \<open>x\<close> is bound to the alloca
  of the first of the two bindings, so that \<open>(var x, x in 1) + x\<close> is lowered with
  success although \<open>x\<close> is bound nowhere around the block.
\<close>

theorem C3_var_block_restores_by_assignment:
  "NamedValues in_body_f ''x'' = None
   \<and> fst (Codegen (VarExprAST [(''x'', None)] (NumberExprAST 1)) in_body_f) = Ok (ConstantFP 1)
   \<and> NamedValues (snd (Codegen (VarExprAST [(''x'', None)] (NumberExprAST 1)) in_body_f)) ''x'' =
       Some None
   \<and> fst (Codegen (ForExprAST ''x'' (NumberExprAST 1) (NumberExprAST 0) None (NumberExprAST 1))
            in_body_f) = Ok (ConstantFP 0)
   \<and> NamedValues (snd (Codegen (ForExprAST ''x'' (NumberExprAST 1) (NumberExprAST 0) None
                                  (NumberExprAST 1)) in_body_f)) ''x'' = None
   \<and> fst (Codegen (VarExprAST [(''x'', None), (''x'', None)] (NumberExprAST 1)) in_body_f) =
       Ok (ConstantFP 1)
   \<and> NamedValues (snd (Codegen (VarExprAST [(''x'', None), (''x'', None)] (NumberExprAST 1))
                         in_body_f)) ''x'' = Some (Some 2)
   \<and> fst (Codegen (BinaryExprAST (CHR ''+'')
                     (VarExprAST [(''x'', None), (''x'', None)] (NumberExprAST 1))
                     (VariableExprAST ''x'')) in_body_f) = Ok (InstV 5)
   \<and> errs (snd (Codegen (BinaryExprAST (CHR ''+'')
                     (VarExprAST [(''x'', None), (''x'', None)] (NumberExprAST 1))
                     (VariableExprAST ''x'')) in_body_f)) = []"
  by (simp add: in_body_f_eq cg_defs eval_nat_numeral)


section \<open>Null entries of the scope table cannot be observed\<close>

lemma scope_equiv_iff:
  "scope_equiv s t \<longleftrightarrow>
     resolve s = resolve t \<and> next_id s = next_id t \<and> TheModule s = TheModule t
     \<and> InsertBlock s = InsertBlock t \<and> errs s = errs t
     \<and> BinopPrecedence s = BinopPrecedence t"
  by (cases s; cases t) (auto simp: scope_equiv_def)

lemma scope_equiv_refl [simp]: "scope_equiv s s"
  by (simp add: scope_equiv_def)

lemma TheModule_prims:
  "TheModule (upd_func F g s) = (TheModule s)(F := map_option g (TheModule s F))"
  "TheModule (emit i s) =
     (case InsertBlock s of
        None \<Rightarrow> TheModule s
      | Some (F, b) \<Rightarrow>
          (TheModule s)(F := map_option (\<lambda>fn. fn\<lparr>blocks := map (append_inst b i) (blocks fn)\<rparr>)
                                (TheModule s F)))"
  "TheModule (push_back T b nm s) =
     (case T of
        None \<Rightarrow> TheModule s
      | Some F \<Rightarrow>
          (TheModule s)(F := map_option
             (\<lambda>fn. fn\<lparr>blocks := blocks fn @ [\<lparr>bb_id = b, bb_name = nm, bb_insts = []\<rparr>]\<rparr>)
             (TheModule s F)))"
  "TheModule (snd (CreateEntryBlockAlloca T nm s)) =
     (case T of
        None \<Rightarrow> TheModule s
      | Some F \<Rightarrow>
          (TheModule s)(F := map_option (prepend_entry (Alloca (next_id s) nm)) (TheModule s F)))"
  by (auto simp: upd_func_def emit_def push_back_def CreateEntryBlockAlloca_def fresh_def
      split: option.splits)

lemmas se_simps = scope_equiv_iff TheModule_prims Let_def case_prod_beta value_builder_defs
  unit_builder_defs getParent_def GetInsertBlock_def getFunction_def callee_arg_size_def

lemma se_if_then:
  "scope_equiv s1 t1 \<Longrightarrow> scope_equiv (if_then_state cv s1) (if_then_state cv t1)"
  by (simp add: se_simps if_then_state_def split: option.splits)

lemma se_if_else:
  "scope_equiv s1 t1 \<Longrightarrow> scope_equiv s8 t8 \<Longrightarrow>
     scope_equiv (if_else_state s1 s8) (if_else_state t1 t8)"
  by (simp add: se_simps if_else_state_def split: option.splits)

lemma se_if_merge:
  "scope_equiv s1 t1 \<Longrightarrow> scope_equiv s8 t8 \<Longrightarrow> scope_equiv s12 t12 \<Longrightarrow>
     fst (if_merge s1 tv s8 ev s12) = fst (if_merge t1 tv t8 ev t12)
     \<and> scope_equiv (snd (if_merge s1 tv s8 ev s12)) (snd (if_merge t1 tv t8 ev t12))"
  by (simp add: se_simps if_merge_def split: option.splits)

lemma se_for_start:
  "scope_equiv s t \<Longrightarrow> scope_equiv (for_start_state n s) (for_start_state n t)"
  by (simp add: se_simps for_start_state_def split: option.splits)

lemma se_for_body:
  "scope_equiv s t \<Longrightarrow> scope_equiv s2 t2 \<Longrightarrow>
     scope_equiv (for_body_state n s v s2) (for_body_state n t v t2)"
  by (simp add: se_simps for_body_state_def split: option.splits)

lemma se_for_finish:
  "scope_equiv s t \<Longrightarrow> scope_equiv s2 t2 \<Longrightarrow> scope_equiv s11 t11 \<Longrightarrow>
     scope_equiv (for_finish n s s2 pv ev s11) (for_finish n t t2 pv ev t11)"
  by (simp add: se_simps for_finish_def split: option.splits)

lemma se_var_bind:
  "scope_equiv s1 t1 \<Longrightarrow> scope_equiv (var_bind_state F n v s1) (var_bind_state F n v t1)"
  by (simp add: se_simps var_bind_state_def split: option.splits)

lemma se_set:
  "scope_equiv s t \<Longrightarrow> scope_equiv (NamedValues_set n h s) (NamedValues_set n h t)"
  by (simp add: scope_equiv_iff)

lemma sim_refl [simp]: "sim p p"
  by (simp add: sim_def)

lemma sim_case_result:
  "sim p q \<Longrightarrow> (\<And>v. fst p = Ok v \<Longrightarrow> sim (k v (snd p)) (k' v (snd q))) \<Longrightarrow>
   sim (case p of (Ok v, s1) \<Rightarrow> k v s1 | (Null, s1) \<Rightarrow> (Null, s1) | (Abort, s1) \<Rightarrow> (Abort, s1))
       (case q of (Ok v, s1) \<Rightarrow> k' v s1 | (Null, s1) \<Rightarrow> (Null, s1) | (Abort, s1) \<Rightarrow> (Abort, s1))"
  by (cases p; cases q; cases "fst p") (auto simp: sim_def)

lemma sim_snd: "sim p q \<Longrightarrow> scope_equiv (snd p) (snd q)"
  by (simp add: sim_def)

lemma sim_fold_set:
  "scope_equiv s t \<Longrightarrow>
   scope_equiv (fold (\<lambda>(n, old). NamedValues_set n old) xs s)
               (fold (\<lambda>(n, old). NamedValues_set n old) xs t)"
  by (induction xs arbitrary: s t) (auto intro: se_set)


lemma sim_Codegen: "scope_equiv s t \<Longrightarrow> sim (Codegen e s) (Codegen e t)"
proof (induction e arbitrary: s t)
  case (NumberExprAST x)
  then show ?case by (simp add: sim_def)
next
  case (VariableExprAST x)
  then show ?case
    by (simp add: sim_def se_simps split: option.splits)
next
  case (UnaryExprAST c e)
  have tail: "sim (case getFunction s1 (''unary'' @ [c]) of
                 None \<Rightarrow> ErrorV ''Unknown unary operator'' s1
               | Some F \<Rightarrow> (let (v', s2) = CreateCall F [v] s1 in (Ok v', s2)))
              (case getFunction t1 (''unary'' @ [c]) of
                 None \<Rightarrow> ErrorV ''Unknown unary operator'' t1
               | Some F \<Rightarrow> (let (v', s2) = CreateCall F [v] t1 in (Ok v', s2)))"
    if "scope_equiv s1 t1" for s1 t1 v
    using that by (simp add: sim_def se_simps split: option.splits)
  show ?case
    by (simp only: Codegen.simps)
       (intro sim_case_result UnaryExprAST.IH UnaryExprAST.prems tail sim_snd)
next
  case (BinaryExprAST c l r)
  show ?case
  proof (cases "c = CHR ''=''")
    case True
    show ?thesis
    proof (cases l)
      case (VariableExprAST n)
      have eq: "Codegen (BinaryExprAST c l r) u =
          (case Codegen r u of
             (Ok Val, s1) \<Rightarrow>
               (let (Variable, s2) = NamedValues_at n s1 in
                case Variable of
                  None \<Rightarrow> ErrorV ''Unknown variable name'' s2
                | Some a \<Rightarrow> (Ok Val, CreateStore Val a s2))
           | (Null, s1) \<Rightarrow> (Null, s1)
           | (Abort, s1) \<Rightarrow> (Abort, s1))" for u
        using True VariableExprAST by simp
      have tail: "sim (let (Variable, s2) = NamedValues_at n s1 in
                case Variable of
                  None \<Rightarrow> ErrorV ''Unknown variable name'' s2
                | Some a \<Rightarrow> (Ok v, CreateStore v a s2))
               (let (Variable, s2) = NamedValues_at n t1 in
                case Variable of
                  None \<Rightarrow> ErrorV ''Unknown variable name'' s2
                | Some a \<Rightarrow> (Ok v, CreateStore v a s2))"
        if "scope_equiv s1 t1" for s1 t1 v
        using that by (simp add: sim_def se_simps split: option.splits)
      show ?thesis
        by (simp only: eq) (intro sim_case_result BinaryExprAST.IH BinaryExprAST.prems tail sim_snd)
    qed (use True BinaryExprAST.prems in \<open>simp_all add: sim_def se_simps\<close>)
  next
    case False
    obtain L s1 where L: "Codegen l s = (L, s1)" by force
    obtain L' t1 where L': "Codegen l t = (L', t1)" by force
    have 1: "L' = L" "scope_equiv s1 t1"
      using BinaryExprAST.IH(1)[OF BinaryExprAST.prems] L L' by (simp_all add: sim_def)
    obtain R s2 where R: "Codegen r s1 = (R, s2)" by force
    obtain R' t2 where R': "Codegen r t1 = (R', t2)" by force
    have 2: "R' = R" "scope_equiv s2 t2"
      using BinaryExprAST.IH(2)[OF 1(2)] R R' by (simp_all add: sim_def)
    show ?thesis using False L L' R R' 1 2
      by (cases L; cases R) (simp_all add: sim_def se_simps split: option.splits)
  qed
next
  case (CallExprAST c args)
  have args: "set es \<subseteq> set args \<Longrightarrow> scope_equiv s t \<Longrightarrow>
      sim (Codegen_Args es vs s) (Codegen_Args es vs t)" for es vs s t
  proof (induction es arbitrary: vs s t)
    case Nil
    then show ?case by (simp add: sim_def)
  next
    case (Cons a es)
    have A: "sim (Codegen a s) (Codegen a t)"
      using CallExprAST.IH[of a s t] Cons.prems by simp
    have B: "sim (Codegen_Args es (vs @ [v]) (snd (Codegen a s)))
                 (Codegen_Args es (vs @ [v]) (snd (Codegen a t)))" for v
      using Cons.IH[where vs = "vs @ [v]"] Cons.prems(1) sim_snd[OF A] by simp
    show ?case
      by (simp only: Codegen_Args.simps) (intro sim_case_result A B)
  qed
  have tail: "sim (let (v, s2) = CreateCall F vs s1 in (Ok v, s2))
                  (let (v, s2) = CreateCall F vs t1 in (Ok v, s2))"
    if "scope_equiv s1 t1" for s1 t1 F vs
    using that by (simp add: sim_def se_simps split: option.splits)
  have mid: "sim (case Codegen_Args args [] s of
                (Ok ArgsV, s1) \<Rightarrow> (let (v, s2) = CreateCall F ArgsV s1 in (Ok v, s2))
              | (Null, s1) \<Rightarrow> (Null, s1)
              | (Abort, s1) \<Rightarrow> (Abort, s1))
             (case Codegen_Args args [] t of
                (Ok ArgsV, s1) \<Rightarrow> (let (v, s2) = CreateCall F ArgsV s1 in (Ok v, s2))
              | (Null, s1) \<Rightarrow> (Null, s1)
              | (Abort, s1) \<Rightarrow> (Abort, s1))" for F
    by (intro sim_case_result args[OF subset_refl] tail sim_snd CallExprAST.prems)
  have hd: "getFunction t c = getFunction s c" "\<And>F. callee_arg_size t F = callee_arg_size s F"
    using CallExprAST.prems by (simp_all add: scope_equiv_iff getFunction_def callee_arg_size_def)
  have err: "sim (ErrorV m s :: Value result \<times> cg_state) (ErrorV m t)" for m
    using CallExprAST.prems by (simp add: sim_def ErrorV_def scope_equiv_iff)
  show ?case
  proof (cases "getFunction s c")
    case None
    then have "Codegen (CallExprAST c args) s = ErrorV ''Unknown function referenced'' s"
      "Codegen (CallExprAST c args) t = ErrorV ''Unknown function referenced'' t"
      using hd by simp_all
    then show ?thesis using err by simp
  next
    case (Some F)
    show ?thesis
    proof (cases "callee_arg_size s F = length args")
      case True
      then have "Codegen (CallExprAST c args) s =
          (case Codegen_Args args [] s of
                (Ok ArgsV, s1) \<Rightarrow> (let (v, s2) = CreateCall F ArgsV s1 in (Ok v, s2))
              | (Null, s1) \<Rightarrow> (Null, s1)
              | (Abort, s1) \<Rightarrow> (Abort, s1))"
        "Codegen (CallExprAST c args) t =
          (case Codegen_Args args [] t of
                (Ok ArgsV, s1) \<Rightarrow> (let (v, s2) = CreateCall F ArgsV s1 in (Ok v, s2))
              | (Null, s1) \<Rightarrow> (Null, s1)
              | (Abort, s1) \<Rightarrow> (Abort, s1))"
        using Some hd by simp_all
      then show ?thesis using mid[of F] by (simp only:)
    next
      case False
      then have "Codegen (CallExprAST c args) s = ErrorV ''Incorrect # arguments passed'' s"
        "Codegen (CallExprAST c args) t = ErrorV ''Incorrect # arguments passed'' t"
        using Some hd by simp_all
      then show ?thesis using err by simp
    qed
  qed
next
  case (IfExprAST c th e)
  let ?s1 = "snd (Codegen c s)" and ?t1 = "snd (Codegen c t)"
  let ?s8 = "\<lambda>cv. snd (Codegen th (if_then_state cv ?s1))"
  let ?t8 = "\<lambda>cv. snd (Codegen th (if_then_state cv ?t1))"
  let ?s12 = "\<lambda>cv. snd (Codegen e (if_else_state ?s1 (?s8 cv)))"
  let ?t12 = "\<lambda>cv. snd (Codegen e (if_else_state ?t1 (?t8 cv)))"
  have A: "sim (Codegen c s) (Codegen c t)" using IfExprAST.IH(1)[OF IfExprAST.prems] .
  have B: "sim (Codegen th (if_then_state cv ?s1)) (Codegen th (if_then_state cv ?t1))" for cv
    by (intro IfExprAST.IH(2) se_if_then sim_snd[OF A])
  have C: "sim (Codegen e (if_else_state ?s1 (?s8 cv))) (Codegen e (if_else_state ?t1 (?t8 cv)))" for cv
    by (intro IfExprAST.IH(3) se_if_else sim_snd[OF A] sim_snd[OF B])
  have D: "sim (Ok (fst (if_merge ?s1 tv (?s8 cv) ev (?s12 cv))), snd (if_merge ?s1 tv (?s8 cv) ev (?s12 cv)))
               (Ok (fst (if_merge ?t1 tv (?t8 cv) ev (?t12 cv))), snd (if_merge ?t1 tv (?t8 cv) ev (?t12 cv)))"
    for cv tv ev
    using se_if_merge[OF sim_snd[OF A] sim_snd[OF B[of cv]] sim_snd[OF C[of cv]], of tv ev]
    by (simp add: sim_def)
  show ?case
    by (simp only: Codegen_If) (intro sim_case_result A B C D)
next
  case (ForExprAST n st en sp b)
  let ?s2 = "snd (Codegen st (for_start_state n s))"
  let ?t2 = "snd (Codegen st (for_start_state n t))"
  let ?s9 = "\<lambda>sv. snd (Codegen b (for_body_state n s sv ?s2))"
  let ?t9 = "\<lambda>sv. snd (Codegen b (for_body_state n t sv ?t2))"
  let ?s10 = "\<lambda>sv. snd (Codegen_opt 1 sp (?s9 sv))"
  let ?t10 = "\<lambda>sv. snd (Codegen_opt 1 sp (?t9 sv))"
  let ?s11 = "\<lambda>sv. snd (Codegen en (?s10 sv))"
  let ?t11 = "\<lambda>sv. snd (Codegen en (?t10 sv))"
  have opt: "scope_equiv u w \<Longrightarrow> sim (Codegen_opt 1 sp u) (Codegen_opt 1 sp w)" for u w
    using ForExprAST.IH(3) by (cases sp) (auto simp: sim_def)
  have A: "sim (Codegen st (for_start_state n s)) (Codegen st (for_start_state n t))"
    by (intro ForExprAST.IH(1) se_for_start ForExprAST.prems)
  have B: "sim (Codegen b (for_body_state n s sv ?s2)) (Codegen b (for_body_state n t sv ?t2))" for sv
    by (intro ForExprAST.IH(4) se_for_body ForExprAST.prems sim_snd[OF A])
  have C: "sim (Codegen_opt 1 sp (?s9 sv)) (Codegen_opt 1 sp (?t9 sv))" for sv
    by (intro opt sim_snd[OF B])
  have D: "sim (Codegen en (?s10 sv)) (Codegen en (?t10 sv))" for sv
    by (intro ForExprAST.IH(2) sim_snd[OF C])
  have E: "sim (Ok (ConstantFP 0), for_finish n s ?s2 pv ev (?s11 sv))
               (Ok (ConstantFP 0), for_finish n t ?t2 pv ev (?t11 sv))" for sv pv ev
    using se_for_finish[OF ForExprAST.prems sim_snd[OF A] sim_snd[OF D[of sv]], of n pv ev]
    by (simp add: sim_def)
  show ?case
    by (simp only: Codegen_For) (intro sim_case_result A B C D E)
next
  case (VarExprAST bs b)
  have opt: "(n, i) \<in> set bs \<Longrightarrow> scope_equiv u w \<Longrightarrow> sim (Codegen_opt 0 i u) (Codegen_opt 0 i w)"
    for n i u w
    using VarExprAST.IH(1)[of "(n, i)" i] by (cases i) (auto simp: sim_def)
  have vn: "set bs' \<subseteq> set bs \<Longrightarrow> scope_equiv s t \<Longrightarrow>
      sim (Codegen_VarNames bs' F olds s) (Codegen_VarNames bs' F olds t)" for bs' F olds s t
  proof (induction bs' arbitrary: olds s t)
    case Nil
    then show ?case by (simp add: sim_def)
  next
    case (Cons p bs')
    obtain n i where p: "p = (n, i)" by (cases p)
    have A: "sim (Codegen_opt 0 i s) (Codegen_opt 0 i t)"
      using opt[of n i s t] Cons.prems p by simp
    have r: "resolve (snd (Codegen_opt 0 i t)) n = resolve (snd (Codegen_opt 0 i s)) n"
      using sim_snd[OF A] by (simp add: scope_equiv_iff)
    have B: "sim (Codegen_VarNames bs' F (olds @ [resolve (snd (Codegen_opt 0 i s)) n])
                    (var_bind_state F n iv (snd (Codegen_opt 0 i s))))
                 (Codegen_VarNames bs' F (olds @ [resolve (snd (Codegen_opt 0 i t)) n])
                    (var_bind_state F n iv (snd (Codegen_opt 0 i t))))" for iv
      unfolding r using Cons.prems(1) by (intro Cons.IH se_var_bind sim_snd[OF A]) simp
    show ?case unfolding p
      by (simp only: Codegen_VarNames_Cons) (intro sim_case_result A B)
  qed
  let ?p = "Codegen_VarNames bs (getParent s) [] s"
  let ?q = "Codegen_VarNames bs (getParent t) [] t"
  have gp: "getParent t = getParent s" using VarExprAST.prems by (simp add: se_simps)
  have A: "sim ?p ?q" unfolding gp by (intro vn VarExprAST.prems) simp
  have B: "sim (Codegen b (snd ?p)) (Codegen b (snd ?q))"
    by (intro VarExprAST.IH(2) sim_snd[OF A])
  have C: "sim (Ok bv, fold (\<lambda>(n, old). NamedValues_set n old) (zip (map fst bs) olds)
                  (snd (Codegen b (snd ?p))))
               (Ok bv, fold (\<lambda>(n, old). NamedValues_set n old) (zip (map fst bs) olds)
                  (snd (Codegen b (snd ?q))))" for bv olds
    using sim_fold_set[OF sim_snd[OF B]] by (simp add: sim_def)
  show ?case
    by (simp only: Codegen.simps Let_def) (intro sim_case_result A B C)
qed


section \<open>Names without a binding\<close>

lemma unbound_reference:
  assumes "NamedValues s n = None \<or> NamedValues s n = Some None"
  shows "Codegen (VariableExprAST n) s =
    (Null, s\<lparr>NamedValues := (NamedValues s)(n \<mapsto> None),
              errs := errs s @ [''Unknown variable name'']\<rparr>)"
  using assms by (auto simp: NamedValues_at_def ErrorV_def fun_upd_idem)

lemma unbound_assignment:
  assumes "Codegen RHS s = (Ok v, s1)"
    and "NamedValues s1 n = None \<or> NamedValues s1 n = Some None"
  shows "Codegen (BinaryExprAST (CHR ''='') (VariableExprAST n) RHS) s =
    (Null, s1\<lparr>NamedValues := (NamedValues s1)(n \<mapsto> None),
               errs := errs s1 @ [''Unknown variable name'']\<rparr>)"
  using assms by (auto simp: NamedValues_at_def ErrorV_def fun_upd_idem)

section \<open>What a block has bound when its body is reached\<close>

lemma Codegen_VarNames_append:
  "Codegen_VarNames (pre @ post) F olds s =
     (case Codegen_VarNames pre F olds s of
        (Ok olds', s') \<Rightarrow> Codegen_VarNames post F olds' s'
      | (Null, s') \<Rightarrow> (Null, s')
      | (Abort, s') \<Rightarrow> (Abort, s'))"
proof (induction pre arbitrary: olds s)
  case Nil
  then show ?case by (simp split: prod.split result.split)
next
  case (Cons p pre)
  obtain n i where p: "p = (n, i)" by (cases p)
  show ?case unfolding p
    by (simp add: Codegen_VarNames_Cons Cons.IH split: prod.split result.split)
qed

lemma Codegen_VarNames_outside:
  "Codegen_VarNames bs F olds s = (Ok olds', s') \<Longrightarrow> distinct_inits bs \<Longrightarrow>
   m \<notin> fst ` set bs \<Longrightarrow> resolve s' m = resolve s m"
proof (induction bs arbitrary: olds s)
  case Nil
  then show ?case by simp
next
  case (Cons p bs)
  obtain n i where p: "p = (n, i)" by (cases p)
  obtain r s1 where i: "Codegen_opt 0 i s = (r, s1)" by force
  with Cons.prems(1) p obtain iv where r: "r = Ok iv"
    by (cases r) (auto simp: Codegen_VarNames_Cons)
  have rest: "Codegen_VarNames bs F (olds @ [resolve s1 n]) (var_bind_state F n iv s1) = (Ok olds', s')"
    using Cons.prems(1) p i r by (simp add: Codegen_VarNames_Cons)
  have s1: "resolve s1 = resolve s"
    using i r Cons.prems(2) p restore_Codegen
    by (cases i) (auto simp: distinct_inits_def)
  have "resolve s' m = resolve (var_bind_state F n iv s1) m"
    using Cons.IH[OF rest] Cons.prems(2,3) by (simp add: distinct_inits_def)
  then show ?case using s1 Cons.prems(3) p by simp
qed

lemma Codegen_VarNames_bound:
  "Codegen_VarNames bs F olds s = (Ok olds', s') \<Longrightarrow> m \<in> fst ` set bs \<Longrightarrow>
   \<exists>a. resolve s' m = Some a \<and> next_id s \<le> a"
proof (induction bs arbitrary: olds s)
  case Nil
  then show ?case by simp
next
  case (Cons p bs)
  obtain n i where p: "p = (n, i)" by (cases p)
  obtain r s1 where i: "Codegen_opt 0 i s = (r, s1)" by force
  with Cons.prems(1) p obtain iv where r: "r = Ok iv"
    by (cases r) (auto simp: Codegen_VarNames_Cons)
  let ?b = "var_bind_state F n iv s1"
  have rest: "Codegen_VarNames bs F (olds @ [resolve s1 n]) ?b = (Ok olds', s')"
    using Cons.prems(1) p i r by (simp add: Codegen_VarNames_Cons)
  have g1: "next_id s \<le> next_id s1"
    using grows_Codegen_opt[of s 0 i] i by (simp add: grows_def)
  show ?case
  proof (cases "m \<in> fst ` set bs")
    case True
    from Cons.IH[OF rest True] obtain a where "resolve s' m = Some a" "next_id ?b \<le> a" by blast
    then show ?thesis using g1 by auto
  next
    case False
    then have m: "m = n" using Cons.prems(2) p by auto
    have "grows ?b s'" using grows_Codegen_VarNames[of ?b bs F "olds @ [resolve s1 n]"] rest by simp
    from grows_old[OF this, of n] show ?thesis using g1 m by auto
  qed
qed

lemma Codegen_VarNames_in_order:
  "bound_in_order bs F s s' \<Longrightarrow> \<exists>olds'. Codegen_VarNames bs F olds s = (Ok olds', s')"
proof (induction bs arbitrary: olds s)
  case Nil
  then show ?case by simp
next
  case (Cons p bs)
  obtain n i where p: "p = (n, i)" by (cases p)
  obtain r s1 where i: "Codegen_opt 0 i s = (r, s1)" by force
  from Cons.prems p i obtain v where r: "r = Ok v"
    and rest: "bound_in_order bs F (var_bind_state F n v s1) s'"
    by (cases r) auto
  from Cons.IH[OF rest, of "olds @ [resolve s1 n]"] show ?case
    unfolding p by (simp add: Codegen_VarNames_Cons i r)
qed

lemma bound_in_order_append:
  "bound_in_order pre F s s1 \<Longrightarrow> bound_in_order (pre @ bs) F s s' = bound_in_order bs F s1 s'"
proof (induction pre arbitrary: s)
  case Nil
  then show ?case by simp
next
  case (Cons p pre)
  obtain n i where p: "p = (n, i)" by (cases p)
  obtain r s0 where i: "Codegen_opt 0 i s = (r, s0)" by force
  from Cons.prems p i obtain v where r: "r = Ok v"
    and rest: "bound_in_order pre F (var_bind_state F n v s0) s1"
    by (cases r) auto
  show ?case unfolding p using Cons.IH[OF rest] i r by simp
qed

lemma bound_in_order_outside:
  assumes "bound_in_order bs F s s'" and "distinct_inits bs" and "m \<notin> fst ` set bs"
  shows "resolve s' m = resolve s m"
proof -
  obtain olds' where "Codegen_VarNames bs F [] s = (Ok olds', s')"
    using Codegen_VarNames_in_order[OF assms(1), of "[]"] by blast
  then show ?thesis using assms(2,3) by (rule Codegen_VarNames_outside)
qed

lemma bound_in_order_bound:
  assumes "bound_in_order bs F s s'" and "m \<in> fst ` set bs"
  shows "\<exists>a. resolve s' m = Some a \<and> next_id s \<le> a"
proof -
  obtain olds' where "Codegen_VarNames bs F [] s = (Ok olds', s')"
    using Codegen_VarNames_in_order[OF assms(1), of "[]"] by blast
  then show ?thesis using assms(2) by (rule Codegen_VarNames_bound)
qed


lemma VarExprAST_in_order:
  assumes "bound_in_order bs (getParent s) s s1"
  shows "\<exists>olds. Codegen (VarExprAST bs Body) s =
     (case Codegen Body s1 of
        (Ok BodyVal, s2) \<Rightarrow>
          (Ok BodyVal, fold (\<lambda>(n, old). NamedValues_set n old) (zip (map fst bs) olds) s2)
      | (Null, s2) \<Rightarrow> (Null, s2)
      | (Abort, s2) \<Rightarrow> (Abort, s2))"
proof -
  obtain olds where "Codegen_VarNames bs (getParent s) [] s = (Ok olds, s1)"
    using Codegen_VarNames_in_order[OF assms, of "[]"] by blast
  then show ?thesis by (intro exI[of _ olds]) simp
qed

lemma VarExprAST_initializer_fails:
  assumes "bound_in_order pre (getParent s) s s1" and "Codegen I s1 = (Null, t)"
  shows "Codegen (VarExprAST (pre @ (n, Some I) # rest) Body) s = (Null, t)"
proof -
  obtain olds where "Codegen_VarNames pre (getParent s) [] s = (Ok olds, s1)"
    using Codegen_VarNames_in_order[OF assms(1), of "[]"] by blast
  then have "Codegen_VarNames (pre @ (n, Some I) # rest) (getParent s) [] s = (Null, t)"
    using assms(2) by (simp add: Codegen_VarNames_append Codegen_VarNames_Cons)
  then show ?thesis by simp
qed

section \<open>Example states in the body of \<open>def f(a)\<close>\<close>

lemma in_body_f_fields:
  "next_id in_body_f = 2" "errs in_body_f = []" "getParent in_body_f = Some (Named ''f'')"
  "NamedValues in_body_f = [''a'' \<mapsto> Some 1]"
  by (simp_all add: in_body_f_eq getParent_def)

lemma var_bind_in_body_f:
  "NamedValues (var_bind_state (Some (Named ''f'')) n v in_body_f) =
     [''a'' \<mapsto> Some 1, n \<mapsto> Some 2]"
  "errs (var_bind_state (Some (Named ''f'')) n v in_body_f) = []"
  "next_id (var_bind_state (Some (Named ''f'')) n v in_body_f) = 3"
  by (simp_all add: var_bind_state_def in_body_f_eq cg_defs eval_nat_numeral)


section \<open>C9: no restoration when a child fails\<close>



lemma still_bound_trans:
  "resolve u n = Some a \<or> (\<exists>a'. resolve u n = Some a' \<and> a < a') \<Longrightarrow> a < next_id u \<Longrightarrow>
   grows u t \<Longrightarrow> resolve t n = Some a \<or> (\<exists>a'. resolve t n = Some a' \<and> a < a')"
  using grows_old[of u t n] by auto




section \<open>C2: the scope of an initializer\<close>

lemma var_example_lowered:
  "\<exists>s'. FunctionAST_Codegen (toplevel var_example) initial_state = (Ok (Anon 0), s')
     \<and> TheModule s' =
         [Anon 0 \<mapsto>
            \<lparr>arg_size = 0, arg_names = [],
             blocks = [\<lparr>bb_id = 1, bb_name = ''entry'',
                        bb_insts = [Alloca 4 ''a'', Alloca 2 ''a'', Store (ConstantFP 1) 2,
                                    Load 3 2 ''a'', Store (InstV 3) 4, Load 5 4 ''a'',
                                    Ret (InstV 5)]\<rparr>]\<rparr>]"
  by (simp add: var_example_def cg_defs eval_nat_numeral)

lemma var_example_run:
  "run 20 [Anon 0 \<mapsto>
            \<lparr>arg_size = 0, arg_names = [],
             blocks = [\<lparr>bb_id = 1, bb_name = ''entry'',
                        bb_insts = [Alloca 4 ''a'', Alloca 2 ''a'', Store (ConstantFP 1) 2,
                                    Load 3 2 ''a'', Store (InstV 3) 4, Load 5 4 ''a'',
                                    Ret (InstV 5)]\<rparr>]\<rparr>] ext (Anon 0) [] = Some (1, [])"
  by (simp add: rt_defs
      cong: instr.case_cong_weak option.case_cong_weak list.case_cong_weak prod.case_cong_weak)

lemma var_later_example_lowered:
  "\<exists>s'. FunctionAST_Codegen (toplevel var_later_example) initial_state = (Ok (Anon 0), s')
     \<and> errs s' = []
     \<and> TheModule s' =
         [Anon 0 \<mapsto>
            \<lparr>arg_size = 0, arg_names = [],
             blocks = [\<lparr>bb_id = 1, bb_name = ''entry'',
                        bb_insts = [Alloca 4 ''b'', Alloca 2 ''a'', Store (ConstantFP 1) 2,
                                    Load 3 2 ''a'', Store (InstV 3) 4, Load 5 4 ''b'',
                                    Ret (InstV 5)]\<rparr>]\<rparr>]"
  by (simp add: var_later_example_def cg_defs eval_nat_numeral)

lemma var_later_example_run:
  "run 20 [Anon 0 \<mapsto>
            \<lparr>arg_size = 0, arg_names = [],
             blocks = [\<lparr>bb_id = 1, bb_name = ''entry'',
                        bb_insts = [Alloca 4 ''b'', Alloca 2 ''a'', Store (ConstantFP 1) 2,
                                    Load 3 2 ''a'', Store (InstV 3) 4, Load 5 4 ''b'',
                                    Ret (InstV 5)]\<rparr>]\<rparr>] ext (Anon 0) [] = Some (1, [])"
  by (simp add: rt_defs
      cong: instr.case_cong_weak option.case_cong_weak list.case_cong_weak prod.case_cong_weak)

text \<open>
  C2, as the code has it. The pairs of a scoped-binding block are processed in order,
  each name bound as soon as its initializer has been lowered. So the initializer after
  the pairs \<open>pre\<close> is lowered in the state \<open>s1\<close> those pairs left: if it fails there,
  the block fails in the state it left, and the body is lowered in the state all pairs
  left. In \<open>s1\<close> every name of \<open>pre\<close> is bound to an alloca created by the block, so a
  later initializer sees the earlier names of its block; every other name, the
  initializer's own included unless an earlier pair has it too, resolves as outside the
  block (given that no block inside the initializers of \<open>pre\<close> binds a name twice).
  \<open>var a = 1 in (var a = a in a)\<close>, lowered at top level and run, yields 1.0.
\<close>

theorem C2_initializer_sees_earlier_names:
  "(bound_in_order pre (getParent s) s s1 \<and> Codegen I s1 = (Null, t) \<longrightarrow>
      Codegen (VarExprAST (pre @ (n, Some I) # rest) Body) s = (Null, t))
   \<and> (bound_in_order bs (getParent s) s s1 \<and> Codegen Body s1 = (r, s2) \<longrightarrow>
      fst (Codegen (VarExprAST bs Body) s) = r)
   \<and> (bound_in_order pre (getParent s) s s1 \<longrightarrow>
      (\<forall>m \<in> fst ` set pre. \<exists>a. resolve s1 m = Some a \<and> next_id s \<le> a))
   \<and> (bound_in_order pre (getParent s) s s1 \<and> distinct_inits pre \<and> m \<notin> fst ` set pre \<longrightarrow>
      resolve s1 m = resolve s m)
   \<and> (\<exists>s'. FunctionAST_Codegen (toplevel var_example) initial_state = (Ok (Anon 0), s')
         \<and> run 20 (TheModule s') ext (Anon 0) [] = Some (1, []))"
proof (intro conjI impI)
  assume "bound_in_order pre (getParent s) s s1 \<and> Codegen I s1 = (Null, t)"
  then show "Codegen (VarExprAST (pre @ (n, Some I) # rest) Body) s = (Null, t)"
    using VarExprAST_initializer_fails[of pre s s1 I t n rest Body] by simp
next
  assume h: "bound_in_order bs (getParent s) s s1 \<and> Codegen Body s1 = (r, s2)"
  then obtain olds where "Codegen (VarExprAST bs Body) s =
     (case Codegen Body s1 of
        (Ok BodyVal, s2) \<Rightarrow>
          (Ok BodyVal, fold (\<lambda>(n, old). NamedValues_set n old) (zip (map fst bs) olds) s2)
      | (Null, s2) \<Rightarrow> (Null, s2)
      | (Abort, s2) \<Rightarrow> (Abort, s2))"
    using VarExprAST_in_order[of bs s s1 Body] by blast
  then show "fst (Codegen (VarExprAST bs Body) s) = r"
    using h by (cases r) simp_all
next
  assume h: "bound_in_order pre (getParent s) s s1"
  show "\<forall>m \<in> fst ` set pre. \<exists>a. resolve s1 m = Some a \<and> next_id s \<le> a"
    using bound_in_order_bound[OF h] by blast
next
  assume "bound_in_order pre (getParent s) s s1 \<and> distinct_inits pre \<and> m \<notin> fst ` set pre"
  then show "resolve s1 m = resolve s m"
    using bound_in_order_outside[of pre "getParent s" s s1 m] by simp
next
  show "\<exists>s'. FunctionAST_Codegen (toplevel var_example) initial_state = (Ok (Anon 0), s')
         \<and> run 20 (TheModule s') ext (Anon 0) [] = Some (1, [])"
  proof -
    obtain s' where s': "FunctionAST_Codegen (toplevel var_example) initial_state = (Ok (Anon 0), s')"
      and M: "TheModule s' =
         [Anon 0 \<mapsto>
            \<lparr>arg_size = 0, arg_names = [],
             blocks = [\<lparr>bb_id = 1, bb_name = ''entry'',
                        bb_insts = [Alloca 4 ''a'', Alloca 2 ''a'', Store (ConstantFP 1) 2,
                                    Load 3 2 ''a'', Store (InstV 3) 4, Load 5 4 ''a'',
                                    Ret (InstV 5)]\<rparr>]\<rparr>]"
      using var_example_lowered by blast
    have "run 20 (TheModule s') ext (Anon 0) [] = Some (1, [])"
      unfolding M by (rule var_example_run)
    with s' show ?thesis by blast
  qed
qed

theorem C2_witness:
  "Codegen (VarExprAST [(''b'', Some (NumberExprAST 1)), (''c'', Some (VariableExprAST ''x''))]
              (NumberExprAST 0)) in_body_f =
     (Null, snd (Codegen (VariableExprAST ''x'')
                   (var_bind_state (Some (Named ''f'')) ''b'' (ConstantFP 1) in_body_f)))
   \<and> fst (Codegen (VarExprAST [(''a'', Some (NumberExprAST 1)), (''b'', Some (VariableExprAST ''a''))]
                   (VariableExprAST ''b'')) in_body_f) = Ok (InstV 5)
   \<and> (\<exists>a. resolve (var_bind_state (Some (Named ''f'')) ''b'' (ConstantFP 1) in_body_f) ''b'' = Some a
          \<and> next_id in_body_f \<le> a)
   \<and> resolve (var_bind_state (Some (Named ''f'')) ''b'' (ConstantFP 1) in_body_f) ''a'' =
       resolve in_body_f ''a''"
proof -
  let ?F = "Some (Named ''f'')"
  let ?x = "VariableExprAST ''x''"
  let ?pre = "[(''b'', Some (NumberExprAST 1))]"
  let ?s1 = "var_bind_state ?F ''b'' (ConstantFP 1) in_body_f"
  let ?ab = "[(''a'', Some (NumberExprAST 1)), (''b'', Some (VariableExprAST ''a''))]"
  let ?sa = "var_bind_state ?F ''a'' (ConstantFP 1) in_body_f"
  let ?sab = "var_bind_state ?F ''b'' (InstV 3) (emit (Load 3 2 ''a'') (?sa\<lparr>next_id := 4\<rparr>))"
  have bo: "bound_in_order ?pre (getParent in_body_f) in_body_f ?s1"
    by (simp add: in_body_f_fields)
  have x: "Codegen ?x ?s1 = (Null, snd (Codegen ?x ?s1))"
    using unbound_reference[of ?s1 "''x''"] by (simp add: var_bind_in_body_f del: Codegen.simps)
  have 1: "Codegen (VarExprAST (?pre @ (''c'', Some ?x) # []) (NumberExprAST 0)) in_body_f =
      (Null, snd (Codegen ?x ?s1))"
    using C2_initializer_sees_earlier_names
        [where pre = ?pre and s = in_body_f and ?s1.0 = ?s1 and I = ?x
          and t = "snd (Codegen ?x ?s1)" and n = "''c''" and rest = "[]"
          and Body = "NumberExprAST 0", THEN conjunct1]
      bo x
    by (simp del: Codegen.simps bound_in_order.simps)
  have a: "Codegen (VariableExprAST ''a'') ?sa = (Ok (InstV 3), emit (Load 3 2 ''a'') (?sa\<lparr>next_id := 4\<rparr>))"
    by (simp add: NamedValues_at_def CreateLoad_def fresh_def var_bind_in_body_f in_body_f_fields
        eval_nat_numeral)
  have boab: "bound_in_order ?ab (getParent in_body_f) in_body_f ?sab"
    by (simp add: in_body_f_fields a del: Codegen.simps(2))
  have b: "fst (Codegen (VariableExprAST ''b'') ?sab) = Ok (InstV 5)"
    by (simp add: NamedValues_at_def CreateLoad_def fresh_def var_bind_state_def
        CreateEntryBlockAlloca_def CreateStore_def NamedValues_set_def var_bind_in_body_f
        in_body_f_fields eval_nat_numeral Let_def)
  have 2: "fst (Codegen (VarExprAST ?ab (VariableExprAST ''b'')) in_body_f) = Ok (InstV 5)"
    using C2_initializer_sees_earlier_names
        [where bs = ?ab and s = in_body_f and ?s1.0 = ?sab and Body = "VariableExprAST ''b''"
          and r = "Ok (InstV 5)" and ?s2.0 = "snd (Codegen (VariableExprAST ''b'') ?sab)",
          THEN conjunct2, THEN conjunct1]
      boab b
    by (simp add: prod_eq_iff del: Codegen.simps bound_in_order.simps)
  have 3: "\<exists>a. resolve ?s1 ''b'' = Some a \<and> next_id in_body_f \<le> a"
    using C2_initializer_sees_earlier_names
        [where pre = ?pre and s = in_body_f and ?s1.0 = ?s1,
          THEN conjunct2, THEN conjunct2, THEN conjunct1]
      bo
    by (simp del: bound_in_order.simps)
  have 4: "resolve ?s1 ''a'' = resolve in_body_f ''a''"
    using C2_initializer_sees_earlier_names
        [where pre = ?pre and s = in_body_f and ?s1.0 = ?s1 and m = "''a''",
          THEN conjunct2, THEN conjunct2, THEN conjunct2, THEN conjunct1]
      bo
    by (simp add: distinct_inits_def del: bound_in_order.simps)
  from 1 2 3 4 show ?thesis by (simp del: Codegen.simps)
qed

text \<open>
  C2 as stated fails: \<open>var a = 1, b = a in b\<close>, submitted first at top level (so that
  \<open>a\<close> is bound nowhere outside the block), is lowered with success and without a
  message, and the function built yields 1.0: the initializer of \<open>b\<close> has seen the \<open>a\<close>
  of its own block.
\<close>

theorem C2_counterexample:
  "resolve initial_state ''a'' = None
   \<and> fst (FunctionAST_Codegen (toplevel var_later_example) initial_state) = Ok (Anon 0)
   \<and> errs (snd (FunctionAST_Codegen (toplevel var_later_example) initial_state)) = []
   \<and> run 20 (TheModule (snd (FunctionAST_Codegen (toplevel var_later_example) initial_state)))
        ext_zero (Anon 0) [] = Some (1, [])"
proof -
  obtain s' where s': "FunctionAST_Codegen (toplevel var_later_example) initial_state = (Ok (Anon 0), s')"
    and e: "errs s' = []"
    and M: "TheModule s' =
         [Anon 0 \<mapsto>
            \<lparr>arg_size = 0, arg_names = [],
             blocks = [\<lparr>bb_id = 1, bb_name = ''entry'',
                        bb_insts = [Alloca 4 ''b'', Alloca 2 ''a'', Store (ConstantFP 1) 2,
                                    Load 3 2 ''a'', Store (InstV 3) 4, Load 5 4 ''b'',
                                    Ret (InstV 5)]\<rparr>]\<rparr>]"
    using var_later_example_lowered by blast
  have r: "resolve initial_state ''a'' = None"
    by (simp add: resolve_def initial_state_def)
  show ?thesis
    unfolding s' fst_conv snd_conv M e by (intro conjI refl r var_later_example_run)
qed

section \<open>C10: a null entry and no entry\<close>

lemma scope_equiv_erase_set: "scope_equiv (NamedValues_erase n s) (NamedValues_set n None s)"
  by (simp add: scope_equiv_def NamedValues_erase_def NamedValues_set_def resolve_def fun_eq_iff)

text \<open>
  C10. Two states are \<open>scope_equiv\<close> when every name resolves alike in both and they
  agree on everything but the scope table (module, registry, insertion point, counter,
  messages); a state with no entry for \<open>n\<close> and the same state with a null entry for
  \<open>n\<close> are so. Lowering any expression in two such states gives the same outcome, the
  same value, the same instructions and the same messages, and leaves two such states
  again, so that no later lowering tells them apart either; a function definition, which
  starts by clearing the table, gives the very same result in both. A reference to \<open>n\<close>
  and an assignment to \<open>n\<close> fail with \<open>Unknown variable name\<close> in both kinds of state.
\<close>

theorem C10_null_entry_is_unbound:
  "(scope_equiv s t \<longrightarrow>
      fst (Codegen e t) = fst (Codegen e s)
      \<and> scope_equiv (snd (Codegen e s)) (snd (Codegen e t)))
   \<and> (scope_equiv s t \<longrightarrow> FunctionAST_Codegen f t = FunctionAST_Codegen f s)
   \<and> scope_equiv (NamedValues_erase n s) (NamedValues_set n None s)
   \<and> (NamedValues s n = None \<or> NamedValues s n = Some None \<longrightarrow>
      fst (Codegen (VariableExprAST n) s) = Null
      \<and> errs (snd (Codegen (VariableExprAST n) s)) = errs s @ [''Unknown variable name''])
   \<and> (Codegen RHS s = (Ok v, s1) \<and> (NamedValues s1 n = None \<or> NamedValues s1 n = Some None) \<longrightarrow>
      fst (Codegen (BinaryExprAST (CHR ''='') (VariableExprAST n) RHS) s) = Null
      \<and> errs (snd (Codegen (BinaryExprAST (CHR ''='') (VariableExprAST n) RHS) s)) =
          errs s1 @ [''Unknown variable name''])"
proof (intro conjI impI)
  assume "scope_equiv s t"
  then have "sim (Codegen e s) (Codegen e t)" by (rule sim_Codegen)
  then show "fst (Codegen e t) = fst (Codegen e s)"
    and "scope_equiv (snd (Codegen e s)) (snd (Codegen e t))"
    by (simp_all add: sim_def)
next
  assume "scope_equiv s t"
  then have "s\<lparr>NamedValues := Map.empty\<rparr> = t\<lparr>NamedValues := Map.empty\<rparr>"
    by (simp add: scope_equiv_def)
  then show "FunctionAST_Codegen f t = FunctionAST_Codegen f s"
    by (simp add: FunctionAST_Codegen_def Let_def)
next
  show "scope_equiv (NamedValues_erase n s) (NamedValues_set n None s)"
    by (rule scope_equiv_erase_set)
next
  assume h: "NamedValues s n = None \<or> NamedValues s n = Some None"
  show "fst (Codegen (VariableExprAST n) s) = Null"
    and "errs (snd (Codegen (VariableExprAST n) s)) = errs s @ [''Unknown variable name'']"
    unfolding unbound_reference[OF h] by simp_all
next
  assume h: "Codegen RHS s = (Ok v, s1) \<and> (NamedValues s1 n = None \<or> NamedValues s1 n = Some None)"
  show "fst (Codegen (BinaryExprAST (CHR ''='') (VariableExprAST n) RHS) s) = Null"
    and "errs (snd (Codegen (BinaryExprAST (CHR ''='') (VariableExprAST n) RHS) s)) =
          errs s1 @ [''Unknown variable name'']"
    unfolding unbound_assignment[OF conjunct1[OF h] conjunct2[OF h]] by simp_all
qed

lemma C10_inputs:
  "NamedValues (NamedValues_erase ''x'' in_body_f) ''x'' = None"
  "NamedValues (NamedValues_set ''x'' None in_body_f) ''x'' = Some None"
  "Codegen (NumberExprAST 5) (NamedValues_erase ''x'' in_body_f) =
     (Ok (ConstantFP 5), NamedValues_erase ''x'' in_body_f)"
  "Codegen (NumberExprAST 5) (NamedValues_set ''x'' None in_body_f) =
     (Ok (ConstantFP 5), NamedValues_set ''x'' None in_body_f)"
  "errs (NamedValues_erase ''x'' in_body_f) = []"
  "errs (NamedValues_set ''x'' None in_body_f) = []"
  by (simp_all add: NamedValues_erase_def NamedValues_set_def in_body_f_eq)

theorem C10_witness:
  "fst (Codegen (BinaryExprAST (CHR ''+'') (VariableExprAST ''a'') (VariableExprAST ''x''))
          (NamedValues_set ''x'' None in_body_f)) =
   fst (Codegen (BinaryExprAST (CHR ''+'') (VariableExprAST ''a'') (VariableExprAST ''x''))
          (NamedValues_erase ''x'' in_body_f))
   \<and> scope_equiv
       (snd (Codegen (BinaryExprAST (CHR ''+'') (VariableExprAST ''a'') (VariableExprAST ''x''))
          (NamedValues_erase ''x'' in_body_f)))
       (snd (Codegen (BinaryExprAST (CHR ''+'') (VariableExprAST ''a'') (VariableExprAST ''x''))
          (NamedValues_set ''x'' None in_body_f)))
   \<and> FunctionAST_Codegen def_f_1 (NamedValues_set ''x'' None in_body_f) =
       FunctionAST_Codegen def_f_1 (NamedValues_erase ''x'' in_body_f)
   \<and> fst (Codegen (VariableExprAST ''x'') (NamedValues_erase ''x'' in_body_f)) = Null
   \<and> errs (snd (Codegen (VariableExprAST ''x'') (NamedValues_erase ''x'' in_body_f))) =
       [''Unknown variable name'']
   \<and> fst (Codegen (VariableExprAST ''x'') (NamedValues_set ''x'' None in_body_f)) = Null
   \<and> errs (snd (Codegen (VariableExprAST ''x'') (NamedValues_set ''x'' None in_body_f))) =
       [''Unknown variable name'']
   \<and> fst (Codegen (BinaryExprAST (CHR ''='') (VariableExprAST ''x'') (NumberExprAST 5))
            (NamedValues_erase ''x'' in_body_f)) = Null
   \<and> fst (Codegen (BinaryExprAST (CHR ''='') (VariableExprAST ''x'') (NumberExprAST 5))
            (NamedValues_set ''x'' None in_body_f)) = Null"
proof -
  let ?s = "NamedValues_erase ''x'' in_body_f"
  let ?t = "NamedValues_set ''x'' None in_body_f"
  let ?e = "BinaryExprAST (CHR ''+'') (VariableExprAST ''a'') (VariableExprAST ''x'')"
  have st: "scope_equiv ?s ?t"
    using C10_null_entry_is_unbound [where s = in_body_f and n = "''x''", THEN conjunct2,
        THEN conjunct2, THEN conjunct1] .
  have 1: "fst (Codegen ?e ?t) = fst (Codegen ?e ?s)
      \<and> scope_equiv (snd (Codegen ?e ?s)) (snd (Codegen ?e ?t))"
    using C10_null_entry_is_unbound [where s = ?s and t = ?t and e = ?e, THEN conjunct1] st
    by (simp del: Codegen.simps)
  have 6: "FunctionAST_Codegen def_f_1 ?t = FunctionAST_Codegen def_f_1 ?s"
    using C10_null_entry_is_unbound [where s = ?s and t = ?t and f = def_f_1, THEN conjunct2,
        THEN conjunct1] st
    by simp
  have 2: "fst (Codegen (VariableExprAST ''x'') ?s) = Null
      \<and> errs (snd (Codegen (VariableExprAST ''x'') ?s)) = [''Unknown variable name'']"
    using C10_null_entry_is_unbound [where s = ?s and n = "''x''", THEN conjunct2,
        THEN conjunct2, THEN conjunct2, THEN conjunct1] C10_inputs(1,5)
    by (simp del: Codegen.simps)
  have 3: "fst (Codegen (VariableExprAST ''x'') ?t) = Null
      \<and> errs (snd (Codegen (VariableExprAST ''x'') ?t)) = [''Unknown variable name'']"
    using C10_null_entry_is_unbound [where s = ?t and n = "''x''", THEN conjunct2,
        THEN conjunct2, THEN conjunct2, THEN conjunct1] C10_inputs(2,6)
    by (simp del: Codegen.simps)
  have 4: "fst (Codegen (BinaryExprAST (CHR ''='') (VariableExprAST ''x'') (NumberExprAST 5)) ?s) = Null"
    using C10_null_entry_is_unbound [where s = ?s and n = "''x''" and RHS = "NumberExprAST 5"
        and v = "ConstantFP 5" and ?s1.0 = ?s, THEN conjunct2, THEN conjunct2, THEN conjunct2,
        THEN conjunct2]
      C10_inputs(1,3)
    by (simp del: Codegen.simps)
  have 5: "fst (Codegen (BinaryExprAST (CHR ''='') (VariableExprAST ''x'') (NumberExprAST 5)) ?t) = Null"
    using C10_null_entry_is_unbound [where s = ?t and n = "''x''" and RHS = "NumberExprAST 5"
        and v = "ConstantFP 5" and ?s1.0 = ?t, THEN conjunct2, THEN conjunct2, THEN conjunct2,
        THEN conjunct2]
      C10_inputs(2,4)
    by (simp del: Codegen.simps)
  from 1 2 3 4 5 6 show ?thesis by (intro conjI) (simp_all del: Codegen.simps)
qed

end
